theory Spec2Isabelle
  imports Complex_Main "HOL-Library.Sublist"
begin

section \<open>Frame Sampler: \<open>VideoFrameExtractor.calculateSmartTimestamps\<close>\<close>

text \<open>
  Source: \<^verbatim>\<open>backend/src/services/video-frame-extractor.ts\<close>, lines 571-606.
  The duration is a JavaScript number, an IEEE 754 double. A finite double is a rational
  \<open>m * 2 ^ e\<close> with \<open>\<bar>m\<bar> < 2 ^ 53\<close> and \<open>- 1074 \<le> e\<close>, and every arithmetic
  operation of the code returns the double nearest to the exact result, ties going to the
  even significand. The model computes exactly that: the exact rational result, rounded by
  \<open>to_double\<close>. The exponent has no upper bound in the model: a result of \<open>2 ^ 1024\<close> or
  more, \<^verbatim>\<open>Infinity\<close> in the code, can only arise in the computation of a timestamp, and
  that timestamp is then not below the duration in either. The duration itself is a
  finite double. The requested frame count, the lengths and the loop counters are
  integers (doubles hold them exactly below \<open>2 ^ 53\<close>); the pushed values are results of
  \<^verbatim>\<open>Math.floor\<close>, hence integers as well. Every comparison that guards a push
  (\<^verbatim>\<open>t < duration\<close>, \<^verbatim>\<open>timestamp < duration\<close>) is kept as written.
\<close>

subsection \<open>Double arithmetic\<close>

text \<open>Rounding to the nearest integer, ties to even.\<close>

definition round_half_even :: "rat \<Rightarrow> int" where
  "round_half_even x =
     (let f = \<lfloor>x\<rfloor>; r = x - of_int f
      in if r < 1 / 2 then f else if 1 / 2 < r then f + 1 else if even f then f else f + 1)"

text \<open>\<open>floor_log2 x\<close> is \<open>\<lfloor>log\<^sub>2 x\<rfloor>\<close> for \<open>1 \<le> x\<close>.\<close>

function floor_log2 :: "rat \<Rightarrow> nat" where
  "floor_log2 x = (if x < 2 then 0 else Suc (floor_log2 (x / 2)))"
  by pat_completeness auto
termination
proof (relation "measure (\<lambda>x. nat \<lfloor>x\<rfloor>)")
  show "wf (measure (\<lambda>x. nat \<lfloor>x :: rat\<rfloor>))" by simp
next
  fix x :: rat
  assume "\<not> x < 2"
  then have x: "2 \<le> x" by simp
  have "\<lfloor>x / 2\<rfloor> < \<lfloor>x\<rfloor>"
  proof -
    have "x / 2 < of_int \<lfloor>x\<rfloor>"
    proof -
      have "x < of_int \<lfloor>x\<rfloor> + 1" by linarith
      moreover have "2 \<le> (of_int \<lfloor>x\<rfloor> :: rat)" using x by (simp add: le_floor_iff)
      ultimately show ?thesis by linarith
    qed
    then show ?thesis by (simp add: floor_less_iff)
  qed
  moreover have "0 < \<lfloor>x\<rfloor>" using x by (simp add: less_floor_iff)
  ultimately show "(x / 2, x) \<in> measure (\<lambda>x. nat \<lfloor>x\<rfloor>)" by simp
qed

declare floor_log2.simps [simp del]

text \<open>\<open>doublings n x\<close> counts how often \<open>x < 1\<close> is doubled before it reaches 1, at
  most \<open>n\<close> times.\<close>

fun doublings :: "nat \<Rightarrow> rat \<Rightarrow> nat" where
  "doublings 0 x = 0"
| "doublings (Suc n) x = (if 1 \<le> x then 0 else Suc (doublings n (2 * x)))"

text \<open>The exponent of the unit in the last place of the double nearest to \<open>x\<close>: 52 below
  the binary exponent of \<open>x\<close> for a normal number, and \<open>- 1074\<close> for a subnormal one
  (below \<open>2 ^ - 1022\<close>).\<close>

definition exponent :: "rat \<Rightarrow> int" where
  "exponent x = (if 1 \<le> \<bar>x\<bar> then int (floor_log2 \<bar>x\<bar>) - 52
                 else - int (doublings 1022 \<bar>x\<bar>) - 52)"

text \<open>The double nearest to a rational, ties to even. A decimal literal of the code
  (\<^verbatim>\<open>0.2\<close>) denotes \<open>to_double\<close> of its exact value.\<close>

definition to_double :: "rat \<Rightarrow> rat" where
  "to_double x = of_int (round_half_even (x / 2 powi exponent x)) * 2 powi exponent x"


text \<open>The four operations of the code on doubles.\<close>

definition double_times :: "rat \<Rightarrow> rat \<Rightarrow> rat" where
  "double_times x y = to_double (x * y)"
definition double_divide :: "rat \<Rightarrow> rat \<Rightarrow> rat" where
  "double_divide x y = to_double (x / y)"
definition double_plus :: "rat \<Rightarrow> rat \<Rightarrow> rat" where
  "double_plus x y = to_double (x + y)"
definition double_minus :: "rat \<Rightarrow> rat \<Rightarrow> rat" where
  "double_minus x y = to_double (x - y)"

subsection \<open>The sampler\<close>

text \<open>The first loop: \<^verbatim>\<open>for (let t = 5; t < earlyWindow; t += 10)\<close>.\<close>

function early_loop :: "rat \<Rightarrow> rat \<Rightarrow> int \<Rightarrow> int list \<Rightarrow> int list" where
  "early_loop duration earlyWindow t timestamps =
     (if of_int t < earlyWindow
      then early_loop duration earlyWindow (t + 10)
             (if of_int t < duration then timestamps @ [\<lfloor>of_int t :: rat\<rfloor>] else timestamps)
      else timestamps)"
  by pat_completeness auto
termination
proof (relation "measure (\<lambda>(duration, earlyWindow, t, timestamps). nat (\<lceil>earlyWindow\<rceil> - t))")
  show "wf (measure (\<lambda>(duration, earlyWindow, t, timestamps). nat (\<lceil>earlyWindow\<rceil> - t)))"
    by simp
next
  fix duration earlyWindow :: rat and t :: int and timestamps :: "int list"
  assume "of_int t < earlyWindow"
  then have "t < \<lceil>earlyWindow\<rceil>"
    by (simp add: less_ceiling_iff)
  then show "((duration, earlyWindow, t + 10,
                if of_int t < duration then timestamps @ [\<lfloor>of_int t :: rat\<rfloor>] else timestamps),
               (duration, earlyWindow, t, timestamps))
             \<in> measure (\<lambda>(duration, earlyWindow, t, timestamps). nat (\<lceil>earlyWindow\<rceil> - t))"
    by simp
qed

declare early_loop.simps [simp del]

text \<open>The second loop: \<^verbatim>\<open>for (let i = 1; i <= remainingFrames; i++)\<close>, with
  \<^verbatim>\<open>timestamp = startTime + (interval * i)\<close>.\<close>

function spaced_loop :: "rat \<Rightarrow> rat \<Rightarrow> rat \<Rightarrow> int \<Rightarrow> int \<Rightarrow> int list \<Rightarrow> int list" where
  "spaced_loop duration startTime interval remainingFrames i timestamps =
     (if i \<le> remainingFrames
      then (let timestamp = double_plus startTime (double_times interval (of_int i))
            in spaced_loop duration startTime interval remainingFrames (i + 1)
                 (if timestamp < duration then timestamps @ [\<lfloor>timestamp\<rfloor>] else timestamps))
      else timestamps)"
  by pat_completeness auto
termination
  by (relation "measure (\<lambda>(duration, startTime, interval, remainingFrames, i, timestamps).
                  nat (remainingFrames + 1 - i))") auto

declare spaced_loop.simps [simp del]

text \<open>\<^verbatim>\<open>[...new Set(timestamps)]\<close>: a set keeps the first occurrence of each value, in
  insertion order.\<close>

definition set_spread :: "int list \<Rightarrow> int list" where
  "set_spread xs = fold (\<lambda>x seen. if x \<in> set seen then seen else seen @ [x]) xs []"

definition calculateSmartTimestamps :: "rat \<Rightarrow> int \<Rightarrow> int list" where
  "calculateSmartTimestamps duration frameCount =
     (let timestamps = [0];
          earlyWindow = min 60 (double_times duration (to_double 0.2));
          timestamps = early_loop duration earlyWindow 5 timestamps;
          remainingFrames = frameCount - int (length timestamps);
          timestamps =
            (if remainingFrames > 0
             then (let startTime = max earlyWindow (double_times duration (to_double 0.1));
                       endTime = double_times duration (to_double 0.9);
                       interval = double_divide (double_minus endTime startTime)
                                    (of_int (remainingFrames + 1))
                   in spaced_loop duration startTime interval remainingFrames 1 timestamps)
             else timestamps);
          uniqueTimestamps = sort (set_spread timestamps)
      in take 15 uniqueTimestamps)"

section \<open>JavaScript values and string helpers\<close>

text \<open>
  A thrown \<^verbatim>\<open>Error\<close> is a value carrying its message. Strings are lists of
  characters with code points below 256; an optional field of a loosely typed object is a
  \<open>string option\<close>, where \<open>None\<close> stands for both \<^verbatim>\<open>undefined\<close> and \<^verbatim>\<open>null\<close>.
\<close>

datatype error = Error string

fun message :: "error \<Rightarrow> string" where
  "message (Error m) = m"

text \<open>Truthiness of an optional string: \<^verbatim>\<open>undefined\<close>, \<^verbatim>\<open>null\<close> and \<^verbatim>\<open>''\<close> are falsy.\<close>

fun truthy :: "string option \<Rightarrow> bool" where
  "truthy None = False"
| "truthy (Some s) = (s \<noteq> [])"

text \<open>\<^verbatim>\<open>x || ''\<close>\<close>

fun or_empty :: "string option \<Rightarrow> string" where
  "or_empty None = []"
| "or_empty (Some s) = s"

definition is_digit :: "char \<Rightarrow> bool" where
  "is_digit c = (c \<in> set ''0123456789'')"

text \<open>White space as \<^verbatim>\<open>trim\<close>, \<^verbatim>\<open>\s\<close> and \<^verbatim>\<open>parseInt\<close> see it, below code point 256:
  tab, line feed, vertical tab, form feed, carriage return, space, no-break space.\<close>

definition is_space :: "char \<Rightarrow> bool" where
  "is_space c = (c \<in> set [CHR 0x09, CHR 0x0A, CHR 0x0B, CHR 0x0C, CHR 0x0D, CHR 0x20, CHR 0xA0])"

definition trimStart :: "string \<Rightarrow> string" where
  "trimStart s = dropWhile is_space s"

definition trim :: "string \<Rightarrow> string" where
  "trim s = rev (dropWhile is_space (rev (dropWhile is_space s)))"

text \<open>\<^verbatim>\<open>Array.prototype.join\<close>\<close>

fun join :: "string \<Rightarrow> string list \<Rightarrow> string" where
  "join sep [] = []"
| "join sep [x] = x"
| "join sep (x # y # ys) = x @ sep @ join sep (y # ys)"

text \<open>\<^verbatim>\<open>String.prototype.split\<close> with a one-character separator.\<close>

fun split :: "char \<Rightarrow> string \<Rightarrow> string list" where
  "split sep [] = [[]]"
| "split sep (c # cs) =
     (if c = sep then [] # split sep cs
      else (case split sep cs of
              [] \<Rightarrow> [[c]]
            | p # ps \<Rightarrow> (c # p) # ps))"

text \<open>\<^verbatim>\<open>String.prototype.includes\<close>\<close>

fun includes_str :: "string \<Rightarrow> string \<Rightarrow> bool" where
  "includes_str [] needle = (needle = [])"
| "includes_str (c # cs) needle = (take (length needle) (c # cs) = needle \<or> includes_str cs needle)"

text \<open>\<^verbatim>\<open>Number.prototype.toString\<close> on an integer.\<close>

definition digit_char :: "nat \<Rightarrow> char" where
  "digit_char d = ''0123456789'' ! (d mod 10)"

function nat_toString :: "nat \<Rightarrow> string" where
  "nat_toString n = (if n < 10 then [digit_char n] else nat_toString (n div 10) @ [digit_char (n mod 10)])"
  by pat_completeness auto
termination
  by (relation "measure id") auto

declare nat_toString.simps [simp del]

definition toString :: "int \<Rightarrow> string" where
  "toString n = (if n < 0 then CHR ''-'' # nat_toString (nat (- n)) else nat_toString (nat n))"

text \<open>\<^verbatim>\<open>s.padStart(2, '0')\<close>\<close>

definition padStart2 :: "string \<Rightarrow> string" where
  "padStart2 s = replicate (2 - length s) CHR ''0'' @ s"

text \<open>\<^verbatim>\<open>parseInt(s)\<close> without a radix: leading white space is skipped, a sign is read, a
  \<^verbatim>\<open>0x\<close> prefix selects base 16, the longest run of digits is read and the rest ignored.
  \<open>None\<close> is \<^verbatim>\<open>NaN\<close>; the integer 0 also stands for \<^verbatim>\<open>-0\<close>, which compares and prints as 0.\<close>

definition hex_value :: "char \<Rightarrow> nat option" where
  "hex_value c = map_of (zip ''0123456789abcdefABCDEF''
                   [0, 1, 2, 3, 4, 5, 6, 7, 8, 9, 10, 11, 12, 13, 14, 15, 10, 11, 12, 13, 14, 15]) c"

definition digit_value :: "nat \<Rightarrow> char \<Rightarrow> nat option" where
  "digit_value radix c = (case hex_value c of
                            None \<Rightarrow> None
                          | Some v \<Rightarrow> if v < radix then Some v else None)"

definition digits_value :: "nat \<Rightarrow> string \<Rightarrow> nat" where
  "digits_value radix ds = foldl (\<lambda>acc c. acc * radix + (case digit_value radix c of None \<Rightarrow> 0 | Some v \<Rightarrow> v)) 0 ds"

definition parseInt :: "string \<Rightarrow> int option" where
  "parseInt inputString =
     (let S = trimStart inputString;
          negative = (take 1 S = ''-'');
          S = (if take 1 S = ''-'' \<or> take 1 S = ''+'' then drop 1 S else S);
          hex = (take 2 S = ''0x'' \<or> take 2 S = ''0X'');
          R = (if hex then 16 else 10);
          S = (if hex then drop 2 S else S);
          Z = takeWhile (\<lambda>c. digit_value R c \<noteq> None) S
      in if Z = [] then None
         else Some ((if negative then - 1 else 1) * int (digits_value R Z)))"

section \<open>Content Interpreter: \<open>GeminiExtractor.normalizeTime\<close>\<close>

text \<open>
  Source: \<^verbatim>\<open>normalizeTime\<close> of the \<^verbatim>\<open>GeminiExtractor\<close> class, lines 541-595 of
  \<^verbatim>\<open>backend/src/services/places-resolver.ts\<close> as the sources are laid out here. The anchored
  regular expressions of the function are sequences of single character classes, matched
  position by position.
\<close>

datatype char_class = Digit | Lit char

fun class_matches :: "char_class \<Rightarrow> char \<Rightarrow> bool" where
  "class_matches Digit c = is_digit c"
| "class_matches (Lit l) c = (c = l)"

text \<open>\<^verbatim>\<open>/^...$/\<close> without the multi-line flag: the whole string.\<close>

fun matches_whole :: "char_class list \<Rightarrow> string \<Rightarrow> bool" where
  "matches_whole [] [] = True"
| "matches_whole (p # ps) (c # cs) = (class_matches p c \<and> matches_whole ps cs)"
| "matches_whole _ _ = False"

text \<open>\<^verbatim>\<open>/^.../\<close>: a prefix of the string.\<close>

fun matches_prefix :: "char_class list \<Rightarrow> string \<Rightarrow> bool" where
  "matches_prefix [] cs = True"
| "matches_prefix (p # ps) (c # cs) = (class_matches p c \<and> matches_prefix ps cs)"
| "matches_prefix (p # ps) [] = False"

text \<open>\<^verbatim>\<open>/^\d{4}-\d{2}-\d{2}/\<close> and \<^verbatim>\<open>/^\d{2}\/\d{2}\/\d{4}/\<close>\<close>

definition iso_date_pattern :: "char_class list" where
  "iso_date_pattern = [Digit, Digit, Digit, Digit, Lit CHR ''-'', Digit, Digit, Lit CHR ''-'', Digit, Digit]"

definition us_date_pattern :: "char_class list" where
  "us_date_pattern = [Digit, Digit, Lit CHR ''/'', Digit, Digit, Lit CHR ''/'', Digit, Digit, Digit, Digit]"

text \<open>\<^verbatim>\<open>/^\d{2}:\d{2}:\d{2}$/\<close> and \<^verbatim>\<open>/^\d{2}:\d{2}$/\<close>\<close>

definition hh_mm_ss_pattern :: "char_class list" where
  "hh_mm_ss_pattern = [Digit, Digit, Lit CHR '':'', Digit, Digit, Lit CHR '':'', Digit, Digit]"

definition hh_mm_pattern :: "char_class list" where
  "hh_mm_pattern = [Digit, Digit, Lit CHR '':'', Digit, Digit]"

text \<open>
  \<^verbatim>\<open>time.match(/(\d{1,2}):?(\d{2})?\s*(am|pm)/i)\<close>. The search is not anchored: the
  leftmost start position with a match wins. At one position the alternatives are tried
  in backtracking order: two digits before one for the hour, with the colon before
  without it, with the two minute digits before without them. \<^verbatim>\<open>\s*\<close> takes every white
  space character; giving one back cannot help, since the next character must be a letter.
  The result holds the three groups: hour digits, minute digits if any, and the marker as
  written. With the \<^verbatim>\<open>i\<close> flag the marker matches in any mix of cases; below code point 256
  \<^verbatim>\<open>toLowerCase\<close> changes the letters A-Z and the accented capitals.
\<close>

definition lower_char :: "char \<Rightarrow> char" where
  "lower_char c =
     (let n = (of_char c :: nat)
      in if (65 \<le> n \<and> n \<le> 90) \<or> (192 \<le> n \<and> n \<le> 214) \<or> (216 \<le> n \<and> n \<le> 222)
         then char_of (n + 32)
         else c)"

definition toLowerCase :: "string \<Rightarrow> string" where
  "toLowerCase s = map lower_char s"

definition ampm_marker :: "string \<Rightarrow> string option" where
  "ampm_marker s =
     (let rest = dropWhile is_space s;
          marker = take 2 rest
      in if toLowerCase marker = ''am'' \<or> toLowerCase marker = ''pm'' then Some marker else None)"

definition ampm_minutes :: "string \<Rightarrow> (string option \<times> string) option" where
  "ampm_minutes s =
     (case (if matches_prefix [Digit, Digit] s then ampm_marker (drop 2 s) else None) of
        Some marker \<Rightarrow> Some (Some (take 2 s), marker)
      | None \<Rightarrow> (case ampm_marker s of
                   Some marker \<Rightarrow> Some (None, marker)
                 | None \<Rightarrow> None))"

definition ampm_colon :: "string \<Rightarrow> (string option \<times> string) option" where
  "ampm_colon s =
     (case (if take 1 s = '':'' then ampm_minutes (drop 1 s) else None) of
        Some r \<Rightarrow> Some r
      | None \<Rightarrow> ampm_minutes s)"

definition ampm_hour :: "nat \<Rightarrow> string \<Rightarrow> (string \<times> string option \<times> string) option" where
  "ampm_hour n s =
     (if matches_prefix (replicate n Digit) s
      then (case ampm_colon (drop n s) of
              Some (minutes, marker) \<Rightarrow> Some (take n s, minutes, marker)
            | None \<Rightarrow> None)
      else None)"

definition ampm_at :: "string \<Rightarrow> (string \<times> string option \<times> string) option" where
  "ampm_at s = (case ampm_hour 2 s of Some r \<Rightarrow> Some r | None \<Rightarrow> ampm_hour 1 s)"

fun ampm_match :: "string \<Rightarrow> (string \<times> string option \<times> string) option" where
  "ampm_match [] = None"
| "ampm_match (c # cs) = (case ampm_at (c # cs) of Some r \<Rightarrow> Some r | None \<Rightarrow> ampm_match cs)"

text \<open>The body of \<^verbatim>\<open>if (amPmMatch) { ... }\<close>. \<^verbatim>\<open>parseInt\<close> of one or two digits is never
  \<^verbatim>\<open>NaN\<close>.\<close>

definition ampm_time :: "string \<times> string option \<times> string \<Rightarrow> string" where
  "ampm_time amPmMatch =
     (case amPmMatch of (g1, g2, g3) \<Rightarrow>
        (let hours = (case parseInt g1 of Some h \<Rightarrow> h | None \<Rightarrow> 0);
             minutes = (case g2 of
                          Some m \<Rightarrow> (case parseInt m of Some v \<Rightarrow> v | None \<Rightarrow> 0)
                        | None \<Rightarrow> 0);
             isPm = (toLowerCase g3 = ''pm'');
             hours = (if isPm \<and> hours \<noteq> 12 then hours + 12 else hours);
             hours = (if \<not> isPm \<and> hours = 12 then 0 else hours)
         in padStart2 (toString hours) @ '':'' @ padStart2 (toString minutes) @ '':00''))"

text \<open>The body of \<^verbatim>\<open>if (time.includes(':')) { ... }\<close>; \<open>None\<close> when control falls
  through to the final \<^verbatim>\<open>throw\<close>. A comparison with \<^verbatim>\<open>NaN\<close> is false.\<close>

definition colon_time :: "string \<Rightarrow> string option" where
  "colon_time t =
     (let timeParts = split CHR '':'' t
      in if length timeParts \<ge> 2
         then (case parseInt (timeParts ! 0) of
                 None \<Rightarrow> None
               | Some hours \<Rightarrow>
                   if hours \<ge> 0 \<and> hours \<le> 23
                   then (case parseInt (timeParts ! 1) of
                           None \<Rightarrow> None
                         | Some minutes \<Rightarrow>
                             if minutes \<ge> 0 \<and> minutes \<le> 59
                             then Some (padStart2 (toString hours) @ '':'' @
                                        padStart2 (toString minutes) @ '':00'')
                             else None)
                   else None)
         else None)"

definition normalizeTime :: "string \<Rightarrow> error + string" where
  "normalizeTime time0 =
     (if time0 = [] then Inl (Error ''Invalid time format'')
      else
        (let t = trim time0
         in if matches_prefix iso_date_pattern t \<or> matches_prefix us_date_pattern t
            then Inl (Error (''Invalid time format: '' @ t @ '' (appears to be a date, not a time)''))
            else if matches_whole hh_mm_ss_pattern t then Inr t
            else if matches_whole hh_mm_pattern t then Inr (t @ '':00'')
            else (case ampm_match t of
                    Some amPmMatch \<Rightarrow> Inr (ampm_time amPmMatch)
                  | None \<Rightarrow>
                      (case (if includes_str t '':'' then colon_time t else None) of
                         Some r \<Rightarrow> Inr r
                       | None \<Rightarrow> Inl (Error (''Invalid time format: '' @ t))))))"

text \<open>The shape \<^verbatim>\<open>HH:MM:SS\<close>: two digits, a colon, two digits, a colon, two digits.\<close>

definition is_HH_MM_SS :: "string \<Rightarrow> bool" where
  "is_HH_MM_SS s = matches_whole hh_mm_ss_pattern s"

section \<open>Content Interpreter: draft events and \<open>GeminiExtractor.validateAndNormalize\<close>\<close>

text \<open>
  Source: the \<^verbatim>\<open>GeminiExtractor\<close> class in \<^verbatim>\<open>backend/src/services/places-resolver.ts\<close>
  (\<^verbatim>\<open>extractFromText\<close> lines 263-311, \<^verbatim>\<open>limitDescription\<close> 600-607, \<^verbatim>\<open>validateAndNormalize\<close>
  609-705). The draft record every extraction source produces is \<^verbatim>\<open>ExtractedEvent\<close>, read
  through \<^verbatim>\<open>any\<close> by the route, which also looks at \<^verbatim>\<open>eventType\<close> and \<^verbatim>\<open>venueType\<close>.
\<close>

record ExtractedEvent =
  title :: "string option"
  description :: "string option"
  date :: "string option"
  time :: "string option"
  endTime :: "string option"
  location :: "string option"
  eventType :: "string option"
  venueType :: "string option"

text \<open>\<^verbatim>\<open>split(/\s+/)\<close>: the string is cut at every maximal run of white space; the
  empty string gives one empty word.\<close>

fun words_from :: "string \<Rightarrow> bool \<Rightarrow> string \<Rightarrow> string list" where
  "words_from cur in_gap [] = [cur]"
| "words_from cur in_gap (c # cs) =
     (if is_space c
      then (if in_gap then words_from cur True cs else cur # words_from [] True cs)
      else words_from (cur @ [c]) False cs)"

definition split_whitespace :: "string \<Rightarrow> string list" where
  "split_whitespace s = words_from [] False s"

definition limitDescription :: "string option \<Rightarrow> string option" where
  "limitDescription descr =
     (if \<not> truthy descr then None
      else (let words = split_whitespace (trim (or_empty descr))
            in if length words \<le> 25 then Some (trim (or_empty descr))
               else Some (join '' '' (take 25 words) @ ''...'')))"

text \<open>
  \<^verbatim>\<open>validateAndNormalize\<close>. The calendar arithmetic of lines 620-662 rests on the
  JavaScript \<^verbatim>\<open>Date\<close> object; it is the parameter \<open>normalizeDate\<close>, which takes the
  date string as extracted and returns the normalized \<^verbatim>\<open>YYYY-MM-DD\<close> string or the error
  thrown. Everything else is as written: the title is required, a missing date stays
  missing, and a time that \<open>normalizeTime\<close> rejects becomes \<^verbatim>\<open>undefined\<close>.
\<close>

definition validateAndNormalize ::
  "(string \<Rightarrow> error + string) \<Rightarrow> ExtractedEvent \<Rightarrow> error + ExtractedEvent" where
  "validateAndNormalize normalizeDate extracted =
     (if \<not> truthy (title extracted) then Inl (Error ''Title is required'')
      else
        (case (if truthy (date extracted) \<and> date extracted \<noteq> Some ''null''
               then map_sum id Some (normalizeDate (or_empty (date extracted)))
               else Inr None) of
           Inl e \<Rightarrow> Inl e
         | Inr normalizedDate \<Rightarrow>
             (let time' = (if truthy (time extracted)
                           then (case normalizeTime (or_empty (time extracted)) of
                                   Inr t \<Rightarrow> Some t
                                 | Inl e \<Rightarrow> None)
                           else None);
                  endTime' = (if truthy (endTime extracted)
                              then (case normalizeTime (or_empty (endTime extracted)) of
                                      Inr t \<Rightarrow> Some t
                                    | Inl e \<Rightarrow> None)
                              else endTime extracted);
                  finalDate = (if truthy normalizedDate then or_empty normalizedDate else '''')
              in Inr \<lparr> title = Some (trim (or_empty (title extracted))),
                       description = limitDescription (description extracted),
                       date = Some finalDate,
                       time = time',
                       endTime = endTime',
                       location = map_option trim (location extracted),
                       eventType = None,
                       venueType = None \<rparr>)))"

text \<open>
  \<^verbatim>\<open>extractFromText\<close>: the model call, the search for a JSON object in its reply and
  \<^verbatim>\<open>JSON.parse\<close> are the parameter \<open>gemini\<close> (the parsed object, or the error thrown);
  every error is rethrown with the prefix \<^verbatim>\<open>Extraction failed: \<close>.
\<close>

definition extractFromText ::
  "(string \<Rightarrow> error + ExtractedEvent) \<Rightarrow> (string \<Rightarrow> error + string) \<Rightarrow> string
     \<Rightarrow> error + ExtractedEvent" where
  "extractFromText gemini normalizeDate text =
     (case (case gemini text of
              Inl e \<Rightarrow> Inl e
            | Inr extracted \<Rightarrow> validateAndNormalize normalizeDate extracted) of
        Inl e \<Rightarrow> Inl (Error (''Extraction failed: '' @ message e))
      | Inr normalized \<Rightarrow> Inr normalized)"

section \<open>Fusion Orchestrator: the merge stage of the extract route\<close>

text \<open>
  Source: \<^verbatim>\<open>backend/src/routes/extract.ts\<close>, the video branch of \<^verbatim>\<open>router.post('/')\<close>.
  The page metadata returned by the URL expander:
\<close>

record UrlMetadata =
  md_title :: "string option"
  md_description :: "string option"
  md_imageUrl :: "string option"

text \<open>The analysis that replaces a track which failed, timed out or had nothing to read
  (lines 112, 114, 147, 154): \<^verbatim>\<open>time\<close> and \<^verbatim>\<open>endTime\<close> are not set.\<close>

definition emptyAnalysis :: ExtractedEvent where
  "emptyAnalysis = \<lparr> title = Some '''', description = Some '''', date = Some '''', time = None,
                      endTime = None, location = Some '''', eventType = Some '''',
                      venueType = Some '''' \<rparr>"

text \<open>The textual signals of lines 172-187, in order, before \<^verbatim>\<open>.filter(Boolean)\<close>.\<close>

definition textSignals ::
  "UrlMetadata \<Rightarrow> string \<Rightarrow> ExtractedEvent \<Rightarrow> ExtractedEvent \<Rightarrow> string \<Rightarrow> string list" where
  "textSignals metadata transcription frameAnalyses descriptionAnalysis data =
     [or_empty (md_title metadata),
      or_empty (md_description metadata),
      transcription,
      or_empty (title frameAnalyses),
      or_empty (date frameAnalyses),
      or_empty (time frameAnalyses),
      or_empty (location frameAnalyses),
      or_empty (description frameAnalyses),
      or_empty (title descriptionAnalysis),
      or_empty (date descriptionAnalysis),
      or_empty (time descriptionAnalysis),
      or_empty (location descriptionAnalysis),
      or_empty (description descriptionAnalysis),
      data]"

definition combinedText ::
  "UrlMetadata \<Rightarrow> string \<Rightarrow> ExtractedEvent \<Rightarrow> ExtractedEvent \<Rightarrow> string \<Rightarrow> string" where
  "combinedText metadata transcription frameAnalyses descriptionAnalysis data =
     join '' '' (filter (\<lambda>s. s \<noteq> [])
       (textSignals metadata transcription frameAnalyses descriptionAnalysis data))"

text \<open>Lines 196-207: the frame analysis won; gaps are filled from a complete description
  analysis.\<close>

definition mergeFromDescription :: "ExtractedEvent \<Rightarrow> ExtractedEvent \<Rightarrow> ExtractedEvent" where
  "mergeFromDescription frameAnalyses descriptionAnalysis =
     (let extracted = frameAnalyses
      in if truthy (title descriptionAnalysis) \<and> truthy (date descriptionAnalysis)
         then
           (let extracted =
                  (if \<not> truthy (description extracted) \<and> truthy (description descriptionAnalysis)
                   then extracted\<lparr>description := description descriptionAnalysis\<rparr>
                   else extracted);
                extracted =
                  (if \<not> truthy (time extracted) \<and> truthy (time descriptionAnalysis)
                   then extracted\<lparr>time := time descriptionAnalysis\<rparr>
                   else extracted);
                extracted =
                  (if \<not> truthy (endTime extracted) \<and> truthy (endTime descriptionAnalysis)
                   then extracted\<lparr>endTime := endTime descriptionAnalysis\<rparr>
                   else extracted)
            in extracted)
         else extracted)"

text \<open>Lines 210-214 and 231-235: an all-day event loses its \<^verbatim>\<open>endTime\<close>.\<close>

definition clearAllDayEndTime :: "ExtractedEvent \<Rightarrow> ExtractedEvent" where
  "clearAllDayEndTime extracted =
     (if \<not> truthy (time extracted) \<and> truthy (endTime extracted)
      then extracted\<lparr>endTime := None\<rparr>
      else extracted)"

text \<open>Lines 218-226 and 238-246: event and venue type are taken from the frame analysis
  when the winner has none.\<close>

definition preserveTypes :: "ExtractedEvent \<Rightarrow> ExtractedEvent \<Rightarrow> ExtractedEvent" where
  "preserveTypes frameAnalyses extracted =
     (let extracted =
            (if truthy (eventType frameAnalyses) \<and> \<not> truthy (eventType extracted)
             then extracted\<lparr>eventType := eventType frameAnalyses\<rparr>
             else extracted);
          extracted =
            (if truthy (venueType frameAnalyses) \<and> \<not> truthy (venueType extracted)
             then extracted\<lparr>venueType := venueType frameAnalyses\<rparr>
             else extracted)
      in extracted)"

text \<open>
  Stage 3 (lines 189-247). \<open>extractText\<close> is \<^verbatim>\<open>geminiExtractor.extractFromText\<close>; when it
  throws, the error leaves the stage (the route catches it at line 248).
\<close>

definition mergeStage ::
  "(string \<Rightarrow> error + ExtractedEvent) \<Rightarrow> UrlMetadata \<Rightarrow> string \<Rightarrow> ExtractedEvent
     \<Rightarrow> ExtractedEvent \<Rightarrow> string \<Rightarrow> error + ExtractedEvent" where
  "mergeStage extractText metadata transcription frameAnalyses descriptionAnalysis data =
     (if truthy (title frameAnalyses) \<and> truthy (date frameAnalyses)
      then Inr (mergeFromDescription frameAnalyses descriptionAnalysis)
      else if truthy (title descriptionAnalysis) \<and> truthy (date descriptionAnalysis)
      then Inr (preserveTypes frameAnalyses (clearAllDayEndTime descriptionAnalysis))
      else (case extractText
                   (combinedText metadata transcription frameAnalyses descriptionAnalysis data) of
              Inl e \<Rightarrow> Inl e
            | Inr extracted \<Rightarrow> Inr (preserveTypes frameAnalyses (clearAllDayEndTime extracted))))"

text \<open>
  Step 3 of the route (lines 479-482), after the merge: the caller's placeholder for a
  missing date. \<open>today\<close> is \<^verbatim>\<open>new Date().toISOString().split('T')[0]\<close>.
\<close>

definition eventDate :: "string \<Rightarrow> ExtractedEvent \<Rightarrow> string" where
  "eventDate today extracted =
     (if truthy (date extracted) \<and> trim (or_empty (date extracted)) \<noteq> ''''
      then or_empty (date extracted)
      else today)"

section \<open>Media Ingestor: strategy selection and the audio commands\<close>

text \<open>
  Source: \<^verbatim>\<open>backend/src/services/video-frame-extractor.ts\<close>. A fluent-ffmpeg command is
  the record of the options set on it; an option that is never set stays \<open>None\<close>.
\<close>

record FfmpegCommand =
  cmd_input :: string
  cmd_output :: "string option"
  cmd_audioCodec :: "string option"
  cmd_audioFrequency :: "nat option"
  cmd_audioChannels :: "nat option"
  cmd_seekInput :: "rat option"
  cmd_duration :: "rat option"
  cmd_noVideo :: bool

definition ffmpeg :: "string \<Rightarrow> FfmpegCommand" where
  "ffmpeg source = \<lparr> cmd_input = source, cmd_output = None, cmd_audioCodec = None,
                      cmd_audioFrequency = None, cmd_audioChannels = None, cmd_seekInput = None,
                      cmd_duration = None, cmd_noVideo = False \<rparr>"

definition output_opt :: "string \<Rightarrow> FfmpegCommand \<Rightarrow> FfmpegCommand" where
  "output_opt target c = c\<lparr>cmd_output := Some target\<rparr>"

definition audioCodec :: "string \<Rightarrow> FfmpegCommand \<Rightarrow> FfmpegCommand" where
  "audioCodec codec c = c\<lparr>cmd_audioCodec := Some codec\<rparr>"

definition audioFrequency :: "nat \<Rightarrow> FfmpegCommand \<Rightarrow> FfmpegCommand" where
  "audioFrequency hz c = c\<lparr>cmd_audioFrequency := Some hz\<rparr>"

definition audioChannels :: "nat \<Rightarrow> FfmpegCommand \<Rightarrow> FfmpegCommand" where
  "audioChannels n c = c\<lparr>cmd_audioChannels := Some n\<rparr>"

definition seekInput :: "rat \<Rightarrow> FfmpegCommand \<Rightarrow> FfmpegCommand" where
  "seekInput seconds c = c\<lparr>cmd_seekInput := Some seconds\<rparr>"

definition duration_opt :: "rat \<Rightarrow> FfmpegCommand \<Rightarrow> FfmpegCommand" where
  "duration_opt seconds c = c\<lparr>cmd_duration := Some seconds\<rparr>"

definition noVideo :: "FfmpegCommand \<Rightarrow> FfmpegCommand" where
  "noVideo c = c\<lparr>cmd_noVideo := True\<rparr>"

text \<open>The command of \<^verbatim>\<open>extractAudioFromUrl\<close> (lines 352-358), run on the audio stream URL
  that yt-dlp resolved.\<close>

definition extractAudioFromUrl_command :: "string \<Rightarrow> string \<Rightarrow> rat \<Rightarrow> FfmpegCommand" where
  "extractAudioFromUrl_command streamUrl audioPath maxDurationSeconds =
     noVideo (duration_opt maxDurationSeconds (audioChannels 1 (audioFrequency 16000
       (audioCodec ''pcm_s16le'' (output_opt audioPath (ffmpeg streamUrl))))))"

text \<open>The command of \<^verbatim>\<open>extractAudio\<close> (lines 683-688), run on the downloaded file.\<close>

definition extractAudio_command :: "string \<Rightarrow> string \<Rightarrow> FfmpegCommand" where
  "extractAudio_command videoPath audioPath =
     noVideo (audioChannels 1 (audioFrequency 16000
       (audioCodec ''pcm_s16le'' (output_opt audioPath (ffmpeg videoPath)))))"

text \<open>Strategy selection in \<^verbatim>\<open>extractFrames\<close> (lines 45-68).\<close>

datatype strategy = DownloadedVideo | Stream | DirectDownload

definition ytDlpSupportedPlatforms :: "string list" where
  "ytDlpSupportedPlatforms =
     [''youtube.com'', ''youtu.be'', ''tiktok.com'', ''instagram.com'', ''twitter.com'', ''x.com'',
      ''facebook.com'', ''vimeo.com'', ''dailymotion.com'']"

definition selectStrategy :: "string \<Rightarrow> strategy" where
  "selectStrategy videoUrl =
     (let isYtDlpSupported = list_ex (\<lambda>platform. includes_str videoUrl platform) ytDlpSupportedPlatforms
      in if includes_str videoUrl ''tiktok.com'' then DownloadedVideo
         else if isYtDlpSupported then Stream
         else DirectDownload)"

text \<open>
  The audio command each strategy runs when audio is requested: \<^verbatim>\<open>extractFromStream\<close>
  calls \<^verbatim>\<open>extractAudioFromUrl(videoUrl, 120)\<close> (line 209); \<^verbatim>\<open>extractFromDownloadedVideo\<close>
  (line 416) and the direct download (line 105) call \<^verbatim>\<open>extractAudio(videoPath)\<close>.
  \<open>streamUrl\<close> and \<open>videoPath\<close> are what yt-dlp resolved or downloaded.
\<close>

definition audioCommand :: "string \<Rightarrow> string \<Rightarrow> string \<Rightarrow> string \<Rightarrow> FfmpegCommand" where
  "audioCommand videoUrl streamUrl videoPath audioPath =
     (case selectStrategy videoUrl of
        Stream \<Rightarrow> extractAudioFromUrl_command streamUrl audioPath 120
      | DownloadedVideo \<Rightarrow> extractAudio_command videoPath audioPath
      | DirectDownload \<Rightarrow> extractAudio_command videoPath audioPath)"

section \<open>Code Decoder: \<open>QRCodeExtractor\<close>\<close>

text \<open>
  Source: the \<^verbatim>\<open>QRCodeExtractor\<close> class, lines 716-946 of
  \<^verbatim>\<open>backend/src/services/places-resolver.ts\<close>. The canvas library, the \<^verbatim>\<open>jsQR\<close> decoder and
  the \<^verbatim>\<open>URL\<close> parser are outside the repository; the record below holds what they
  return. \<open>'img\<close> is a loaded picture, \<open>'px\<close> the pixel data read back from a canvas. Each
  drawing function stands for the canvas calls of one preprocessing variant (for the
  grey-scale and the contrast variant also the loop over the pixel array) and returns the
  pixel data handed to the decoder, or the error thrown on the way.
\<close>

datatype inversionAttempts = dontInvert | attemptBoth

record ('img, 'px) CodeEnv =
  loadImage :: "string \<Rightarrow> error + 'img"
  drawOriginal :: "'img \<Rightarrow> error + 'px"
  drawResized :: "'img \<Rightarrow> nat \<Rightarrow> error + 'px"
  drawGrayscale :: "'img \<Rightarrow> error + 'px"
  drawHighContrast :: "'img \<Rightarrow> error + 'px"
  drawRegion :: "'img \<Rightarrow> nat \<Rightarrow> error + 'px"
  jsQR :: "'px \<Rightarrow> inversionAttempts \<Rightarrow> error + string option"
  urlProtocol :: "string \<Rightarrow> string option"

text \<open>\<^verbatim>\<open>isValidUrl\<close> (lines 938-945): \<open>urlProtocol\<close> is \<^verbatim>\<open>new URL(url).protocol\<close>, \<open>None\<close>
  when the constructor throws.\<close>

definition isValidUrl :: "('img, 'px) CodeEnv \<Rightarrow> string \<Rightarrow> bool" where
  "isValidUrl env url =
     (case urlProtocol env url of
        None \<Rightarrow> False
      | Some protocol \<Rightarrow> protocol = ''http:'' \<or> protocol = ''https:'')"

text \<open>\<^verbatim>\<open>decodeQRCode\<close> (lines 890-916). \<open>jsQR\<close> returns the decoded \<^verbatim>\<open>code.data\<close>, or \<open>None\<close>
  for \<^verbatim>\<open>null\<close>.\<close>

definition decodeQRCode :: "('img, 'px) CodeEnv \<Rightarrow> 'px \<Rightarrow> error + string option" where
  "decodeQRCode env imageData =
     (case jsQR env imageData dontInvert of
        Inl e \<Rightarrow> Inl e
      | Inr code \<Rightarrow>
          if \<not> truthy code
          then (case jsQR env imageData attemptBoth of
                  Inl e \<Rightarrow> Inl e
                | Inr codeInverted \<Rightarrow>
                    if truthy codeInverted \<and> isValidUrl env (trim (or_empty codeInverted))
                    then Inr (Some (trim (or_empty codeInverted)))
                    else Inr None)
          else if isValidUrl env (trim (or_empty code))
          then Inr (Some (trim (or_empty code)))
          else Inr None)"

text \<open>A variant draws, then decodes; an error of either step leaves the variant.\<close>

definition decodeDrawn :: "('img, 'px) CodeEnv \<Rightarrow> error + 'px \<Rightarrow> error + string option" where
  "decodeDrawn env drawn = (case drawn of Inl e \<Rightarrow> Inl e | Inr imageData \<Rightarrow> decodeQRCode env imageData)"

definition tryExtractOriginal :: "('img, 'px) CodeEnv \<Rightarrow> 'img \<Rightarrow> error + string option" where
  "tryExtractOriginal env img = decodeDrawn env (drawOriginal env img)"

definition tryExtractResized :: "('img, 'px) CodeEnv \<Rightarrow> 'img \<Rightarrow> nat \<Rightarrow> error + string option" where
  "tryExtractResized env img maxDimension = decodeDrawn env (drawResized env img maxDimension)"

definition tryExtractGrayscale :: "('img, 'px) CodeEnv \<Rightarrow> 'img \<Rightarrow> error + string option" where
  "tryExtractGrayscale env img = decodeDrawn env (drawGrayscale env img)"

definition tryExtractHighContrast :: "('img, 'px) CodeEnv \<Rightarrow> 'img \<Rightarrow> error + string option" where
  "tryExtractHighContrast env img = decodeDrawn env (drawHighContrast env img)"

text \<open>\<^verbatim>\<open>tryExtractFromRegions\<close> (lines 865-885): the loop over the six regions returns the
  first truthy result; an error leaves the loop and the function.\<close>

fun regions_loop :: "('img, 'px) CodeEnv \<Rightarrow> 'img \<Rightarrow> nat list \<Rightarrow> error + string option" where
  "regions_loop env img [] = Inr None"
| "regions_loop env img (region # regions) =
     (case decodeDrawn env (drawRegion env img region) of
        Inl e \<Rightarrow> Inl e
      | Inr result \<Rightarrow> if truthy result then Inr result else regions_loop env img regions)"

definition tryExtractFromRegions :: "('img, 'px) CodeEnv \<Rightarrow> 'img \<Rightarrow> error + string option" where
  "tryExtractFromRegions env img = regions_loop env img [0, 1, 2, 3, 4, 5]"

text \<open>The strategy chain of lines 743-750.\<close>

definition strategies :: "('img, 'px) CodeEnv \<Rightarrow> 'img \<Rightarrow> (unit \<Rightarrow> error + string option) list" where
  "strategies env img =
     [\<lambda>_. tryExtractOriginal env img,
      \<lambda>_. tryExtractResized env img 1000,
      \<lambda>_. tryExtractResized env img 2000,
      \<lambda>_. tryExtractGrayscale env img,
      \<lambda>_. tryExtractHighContrast env img,
      \<lambda>_. tryExtractFromRegions env img]"

text \<open>The loop of lines 752-763: a strategy that throws is logged and skipped.\<close>

fun strategies_loop :: "(unit \<Rightarrow> error + string option) list \<Rightarrow> string option" where
  "strategies_loop [] = None"
| "strategies_loop (strategy # rest) =
     (case strategy () of
        Inl e \<Rightarrow> strategies_loop rest
      | Inr result \<Rightarrow> if truthy result then result else strategies_loop rest)"

text \<open>\<^verbatim>\<open>imageBase64.replace(/^data:image\/\w+;base64,/, '')\<close>\<close>

definition is_word_char :: "char \<Rightarrow> bool" where
  "is_word_char c =
     (c \<in> set ''abcdefghijklmnopqrstuvwxyzABCDEFGHIJKLMNOPQRSTUVWXYZ0123456789_'')"

definition stripDataUri :: "string \<Rightarrow> string" where
  "stripDataUri s =
     (if take 11 s = ''data:image/''
      then (let kind = takeWhile is_word_char (drop 11 s);
                rest = dropWhile is_word_char (drop 11 s)
            in if kind \<noteq> [] \<and> take 8 rest = '';base64,'' then drop 8 rest else s)
      else s)"

text \<open>
  \<^verbatim>\<open>extractFromBase64\<close> (lines 722-772). The body of the outer \<^verbatim>\<open>try\<close> is
  \<open>extractFromBase64_try\<close>; the \<^verbatim>\<open>catch\<close> turns every error into \<^verbatim>\<open>null\<close>. The result is a
  sum so that a rejected promise would be visible as \<open>Inl\<close>.
\<close>

definition extractFromBase64_try :: "('img, 'px) CodeEnv \<Rightarrow> string \<Rightarrow> error + string option" where
  "extractFromBase64_try env imageBase64 =
     (let base64Data = stripDataUri imageBase64
      in if base64Data = [] then Inr None
         else (case loadImage env base64Data of
                 Inl e \<Rightarrow> Inl e
               | Inr img \<Rightarrow> Inr (strategies_loop (strategies env img))))"

definition extractFromBase64 :: "('img, 'px) CodeEnv \<Rightarrow> string \<Rightarrow> error + string option" where
  "extractFromBase64 env imageBase64 =
     (case extractFromBase64_try env imageBase64 of
        Inl e \<Rightarrow> Inr None
      | Inr result \<Rightarrow> Inr result)"

section \<open>Speech Transcriber: \<open>AudioTranscriber\<close>\<close>

text \<open>
  Source: the \<^verbatim>\<open>AudioTranscriber\<close> class (\<^verbatim>\<open>unnamed/part_005\<close>). The file system, ffmpeg and the speech service
  are outside the repository; the record holds what their calls return. \<open>speechClient\<close>
  tells whether the constructor found credentials. A recognition response is its
  \<^verbatim>\<open>results\<close> (\<open>None\<close> when the field is missing), each result given by the transcript of
  its first alternative (\<open>None\<close> when there is none). \<open>dirname\<close> and \<open>path_join\<close> are
  \<^verbatim>\<open>path.dirname\<close> and \<^verbatim>\<open>path.join\<close> of the platform, which normalise the paths they
  return. \<open>now i\<close> is \<^verbatim>\<open>Date.now()\<close> as read in iteration \<open>i\<close> of the chunk loop.
\<close>

record SpeechEnv =
  speechClient :: bool
  statSync :: "string \<Rightarrow> error + nat"
  readFileSync :: "string \<Rightarrow> error + string"
  recognize :: "string \<Rightarrow> error + string option list option"
  ffprobe :: "string \<Rightarrow> error + rat"
  runFfmpeg :: "FfmpegCommand \<Rightarrow> error + unit"
  unlinkSync :: "string \<Rightarrow> error + unit"
  dirname :: "string \<Rightarrow> string"
  path_join :: "string \<Rightarrow> string \<Rightarrow> string"
  now :: "nat \<Rightarrow> nat"

text \<open>
  \<^verbatim>\<open>Promise.all\<close> over tasks that run concurrently. \<open>outcomes ! i\<close> is what task \<open>i\<close>
  settles with; \<open>order\<close> lists the task indices in the order in which they settle. Each
  fulfilled value is stored at the index of its task; the first rejection rejects the
  whole; the result is \<open>None\<close> while a task is still pending, that is when \<open>order\<close> ends
  before every task has settled.
\<close>

fun settle :: "nat list \<Rightarrow> (error + 'a) list \<Rightarrow> 'a option list \<Rightarrow> (error + 'a list) option" where
  "settle [] outcomes slots =
     (case those slots of
        None \<Rightarrow> None
      | Some vs \<Rightarrow> Some (Inr vs))"
| "settle (i # order) outcomes slots =
     (if i < length outcomes
      then (case outcomes ! i of
              Inl e \<Rightarrow> Some (Inl e)
            | Inr v \<Rightarrow> settle order outcomes (slots[i := Some v]))
      else settle order outcomes slots)"

definition promise_all :: "nat list \<Rightarrow> (error + 'a) list \<Rightarrow> (error + 'a list) option" where
  "promise_all order outcomes = settle order outcomes (replicate (length outcomes) None)"

text \<open>\<^verbatim>\<open>results.map(r => r.alternatives?.[0]?.transcript || '').join(' ')\<close>\<close>

definition joinTranscripts :: "string option list \<Rightarrow> string" where
  "joinTranscripts results = join '' '' (map or_empty results)"

text \<open>The chunk loop of \<^verbatim>\<open>transcribeInChunks\<close> (lines 153-172): the path and the ffmpeg
  command of chunk \<open>i\<close>.\<close>

definition chunkDuration :: nat where
  "chunkDuration = 30"

definition chunkPath :: "SpeechEnv \<Rightarrow> string \<Rightarrow> nat \<Rightarrow> string" where
  "chunkPath env tempDir i =
     path_join env tempDir (''chunk-'' @ toString (int i) @ ''-'' @ toString (int (now env i)) @ ''.wav'')"

definition chunkCommand :: "string \<Rightarrow> nat \<Rightarrow> string \<Rightarrow> FfmpegCommand" where
  "chunkCommand audioPath startTime target =
     audioChannels 1 (audioFrequency 16000 (audioCodec ''pcm_s16le'' (output_opt target
       (duration_opt (of_nat chunkDuration) (seekInput (of_nat startTime) (ffmpeg audioPath))))))"

text \<open>The body of \<^verbatim>\<open>chunks.map(async (chunkPath) => { ... })\<close> (lines 178-203): every
  failure inside is caught and gives the empty transcript, so the promise never rejects.\<close>

definition transcribeChunk :: "SpeechEnv \<Rightarrow> string \<Rightarrow> string" where
  "transcribeChunk env target =
     (case readFileSync env target of
        Inl e \<Rightarrow> ''''
      | Inr audioBytes \<Rightarrow>
          (case recognize env audioBytes of
             Inl e \<Rightarrow> ''''
           | Inr results \<Rightarrow>
               (case unlinkSync env target of
                  Inl e \<Rightarrow> ''''
                | Inr u \<Rightarrow> (case results of
                              None \<Rightarrow> ''''
                            | Some rs \<Rightarrow> joinTranscripts rs))))"

text \<open>
  \<^verbatim>\<open>transcribeInChunks\<close> (lines 128-217). \<open>extractOrder\<close> and \<open>transcribeOrder\<close> are the
  orders in which the chunk extractions and the chunk transcriptions settle. The \<^verbatim>\<open>catch\<close>
  removes the chunk files and rethrows, so an error of the probe or of an extraction
  leaves the function.
\<close>

definition transcribeInChunks ::
  "SpeechEnv \<Rightarrow> nat list \<Rightarrow> nat list \<Rightarrow> string \<Rightarrow> (error + string) option" where
  "transcribeInChunks env extractOrder transcribeOrder audioPath =
     (if \<not> speechClient env then Some (Inl (Error ''Speech client not initialized''))
      else
        (case ffprobe env audioPath of
           Inl e \<Rightarrow> Some (Inl e)
         | Inr audioDuration \<Rightarrow>
             (let tempDir = dirname env audioPath;
                  numChunks = \<lceil>audioDuration / of_nat chunkDuration\<rceil>;
                  indices = [0..<nat numChunks];
                  chunks = map (chunkPath env tempDir) indices;
                  chunkPromises =
                    map (\<lambda>i. map_sum id (\<lambda>u. chunks ! i)
                               (runFfmpeg env (chunkCommand audioPath (i * chunkDuration) (chunks ! i))))
                      indices
              in (case promise_all extractOrder chunkPromises of
                    None \<Rightarrow> None
                  | Some (Inl e) \<Rightarrow> Some (Inl e)
                  | Some (Inr extracted) \<Rightarrow>
                      (case promise_all transcribeOrder
                              (map (\<lambda>target. Inr (transcribeChunk env target)) chunks) of
                         None \<Rightarrow> None
                       | Some (Inl e) \<Rightarrow> Some (Inl e)
                       | Some (Inr chunkTranscriptions) \<Rightarrow>
                           Some (Inr (join '' '' (filter (\<lambda>t. t \<noteq> []) chunkTranscriptions))))))))"

text \<open>\<^verbatim>\<open>transcribeWithGoogleSpeech\<close> (lines 72-122).\<close>

definition transcribeWithGoogleSpeech ::
  "SpeechEnv \<Rightarrow> nat list \<Rightarrow> nat list \<Rightarrow> string \<Rightarrow> (error + string) option" where
  "transcribeWithGoogleSpeech env extractOrder transcribeOrder audioPath =
     (if \<not> speechClient env then Some (Inl (Error ''Speech client not initialized''))
      else
        (case statSync env audioPath of
           Inl e \<Rightarrow> Some (Inl e)
         | Inr fileSize \<Rightarrow>
             (let fileSizeMB = rat_of_nat fileSize / (1024 * 1024);
                  maxSizeMB = 10
              in if fileSizeMB \<le> maxSizeMB
                 then (case readFileSync env audioPath of
                         Inl e \<Rightarrow> Some (Inl e)
                       | Inr audioBytes \<Rightarrow>
                           (case recognize env audioBytes of
                              Inl e \<Rightarrow> transcribeInChunks env extractOrder transcribeOrder audioPath
                            | Inr results \<Rightarrow>
                                (case results of
                                   None \<Rightarrow> Some (Inr '''')
                                 | Some rs \<Rightarrow>
                                     if length rs = 0 then Some (Inr '''')
                                     else Some (Inr (joinTranscripts rs)))))
                 else transcribeInChunks env extractOrder transcribeOrder audioPath)))"

text \<open>\<^verbatim>\<open>transcribeWithGemini\<close> (lines 400-409) is a placeholder that returns the empty
  string.\<close>

definition transcribeWithGemini :: "string \<Rightarrow> (error + string) option" where
  "transcribeWithGemini audioPath = Some (Inr '''')"

text \<open>\<^verbatim>\<open>transcribe\<close> (lines 52-66): the \<^verbatim>\<open>catch\<close> logs the error and throws a new one.\<close>

definition transcribe ::
  "SpeechEnv \<Rightarrow> nat list \<Rightarrow> nat list \<Rightarrow> string \<Rightarrow> (error + string) option" where
  "transcribe env extractOrder transcribeOrder audioPath =
     (case (if speechClient env
            then transcribeWithGoogleSpeech env extractOrder transcribeOrder audioPath
            else transcribeWithGemini audioPath) of
        None \<Rightarrow> None
      | Some (Inl e) \<Rightarrow> Some (Inl (Error (''Failed to transcribe audio: '' @ message e)))
      | Some (Inr transcription) \<Rightarrow> Some (Inr transcription))"

section \<open>Temp files of one extraction request\<close>

text \<open>
  The temp-file namespace is the only shared mutable resource. \<open>files\<close> are the temp
  files on disk; \<open>cleanupCalls\<close> records every call of \<^verbatim>\<open>cleanupFile\<close>, in order.
\<close>

record World =
  files :: "string list"
  cleanupCalls :: "string list"

text \<open>\<^verbatim>\<open>cleanupFile\<close> (lines 706-715 of the frame extractor): the file is unlinked when it
  exists. \<^verbatim>\<open>cleanupAudio\<close> (lines 720-722) forwards to it.\<close>

definition cleanupFile :: "World \<Rightarrow> string \<Rightarrow> World" where
  "cleanupFile w filePath =
     w\<lparr>files := (if filePath \<in> set (files w) then removeAll filePath (files w) else files w),
       cleanupCalls := cleanupCalls w @ [filePath]\<rparr>"

definition cleanupAudio :: "World \<Rightarrow> string \<Rightarrow> World" where
  "cleanupAudio w audioPath = cleanupFile w audioPath"

definition createFile :: "World \<Rightarrow> string \<Rightarrow> World" where
  "createFile w filePath = w\<lparr>files := files w @ [filePath]\<rparr>"

text \<open>
  What the tools called by the direct-download branch of \<^verbatim>\<open>extractFrames\<close> return:
  \<^verbatim>\<open>downloadVideo\<close> and \<^verbatim>\<open>extractAudio\<close> give the path of the temp file they wrote,
  \<^verbatim>\<open>extractFrameAtTime\<close> the frame as a data URI (its own temp file is removed before it
  returns).
\<close>

record IngestEnv =
  downloadVideo :: "string \<Rightarrow> error + string"
  getVideoDuration :: "string \<Rightarrow> error + rat"
  extractFrameAtTime :: "string \<Rightarrow> int \<Rightarrow> error + string option"
  extractAudio :: "string \<Rightarrow> error + string"

record VideoFrame =
  frame_timestamp :: int
  frame_base64 :: string

record VideoExtractionResult =
  vr_frames :: "VideoFrame list"
  vr_audioPath :: "string option"
  vr_duration :: rat

text \<open>The frame loop of lines 85-99: a frame that fails or is empty is skipped.\<close>

fun frames_loop :: "IngestEnv \<Rightarrow> string \<Rightarrow> int list \<Rightarrow> VideoFrame list" where
  "frames_loop env videoPath [] = []"
| "frames_loop env videoPath (t # timestamps) =
     (case extractFrameAtTime env videoPath t of
        Inl e \<Rightarrow> frames_loop env videoPath timestamps
      | Inr frameBase64 \<Rightarrow>
          if truthy frameBase64
          then \<lparr> frame_timestamp = t, frame_base64 = or_empty frameBase64 \<rparr> # frames_loop env videoPath timestamps
          else frames_loop env videoPath timestamps)"

text \<open>
  \<^verbatim>\<open>extractFrames\<close> for a URL that selects the direct download (lines 66-129): the body of
  the \<^verbatim>\<open>try\<close>, then the \<^verbatim>\<open>catch\<close> that rethrows with a prefix. The world is threaded
  through; an error leaves it as it was when the error was thrown.
\<close>

definition extractFrames_try ::
  "IngestEnv \<Rightarrow> World \<Rightarrow> string \<Rightarrow> int \<Rightarrow> bool \<Rightarrow> World \<times> (error + VideoExtractionResult)" where
  "extractFrames_try env w videoUrl frameCount wantAudio =
     (case downloadVideo env videoUrl of
        Inl e \<Rightarrow> (w, Inl e)
      | Inr videoPath \<Rightarrow>
          (let w = createFile w videoPath
           in (case getVideoDuration env videoPath of
                 Inl e \<Rightarrow> (w, Inl e)
               | Inr d \<Rightarrow>
                   if d > 600
                   then (cleanupFile w videoPath,
                         Inl (Error ''Video too long. Maximum 10 minutes supported.''))
                   else
                     (let timestamps = calculateSmartTimestamps d frameCount;
                          extractedFrames = frames_loop env videoPath timestamps;
                          audio = (if wantAudio
                                   then (case extractAudio env videoPath of
                                           Inl e \<Rightarrow> None
                                         | Inr p \<Rightarrow> Some p)
                                   else None);
                          w = (case audio of None \<Rightarrow> w | Some p \<Rightarrow> createFile w p);
                          w = cleanupFile w videoPath
                      in if length extractedFrames = 0
                         then (w, Inl (Error ''No frames could be extracted from video''))
                         else (w, Inr \<lparr> vr_frames = extractedFrames, vr_audioPath = audio,
                                        vr_duration = d \<rparr>)))))"

definition extractFrames ::
  "IngestEnv \<Rightarrow> World \<Rightarrow> string \<Rightarrow> int \<Rightarrow> bool \<Rightarrow> World \<times> (error + VideoExtractionResult)" where
  "extractFrames env w videoUrl frameCount wantAudio =
     (case extractFrames_try env w videoUrl frameCount wantAudio of
        (w', Inl e) \<Rightarrow> (w', Inl (Error (''Failed to extract video frames: '' @ message e)))
      | (w', Inr r) \<Rightarrow> (w', Inr r))"

text \<open>
  The transcription track of the route (lines 116-138 of \<^verbatim>\<open>extract.ts\<close>):
  \<^verbatim>\<open>transcribe(...).then(cleanup)\<close> raced against a 20 second timer, with a \<^verbatim>\<open>catch\<close> that
  cleans up and returns the empty string. \<open>transcribed\<close> is what \<^verbatim>\<open>transcribe\<close> settles
  with (\<open>None\<close>: never), \<open>beforeDeadline\<close> whether it does so before the timer fires. When
  the timer wins, the \<^verbatim>\<open>catch\<close> runs first, and the \<^verbatim>\<open>then\<close> callback still runs once a
  late transcription is fulfilled. The world returned is the one after both.
\<close>

definition transcriptionTrack ::
  "World \<Rightarrow> string option \<Rightarrow> (error + string) option \<Rightarrow> bool \<Rightarrow> World \<times> string" where
  "transcriptionTrack w audio transcribed beforeDeadline =
     (if \<not> truthy audio then (w, '''')
      else
        (let p = or_empty audio
         in (case transcribed of
               None \<Rightarrow> (cleanupAudio w p, '''')
             | Some (Inl e) \<Rightarrow> (cleanupAudio w p, '''')
             | Some (Inr t) \<Rightarrow>
                 if beforeDeadline then (cleanupAudio w p, t)
                 else (cleanupAudio (cleanupAudio w p) p, ''''))))"

text \<open>\<^verbatim>\<open>isVideoUrl\<close> (lines 558-575 of \<^verbatim>\<open>extract.ts\<close>): the gate of the video branch.\<close>

definition isVideoUrl :: "string \<Rightarrow> bool" where
  "isVideoUrl url =
     (let videoExtensions = [''.mp4'', ''.webm'', ''.mov'', ''.avi'', ''.mkv'', ''.m4v''];
          videoDomains = [''youtube.com'', ''youtu.be'', ''vimeo.com'', ''dailymotion.com'',
                          ''tiktok.com''];
          lowerUrl = toLowerCase url
      in if list_ex (\<lambda>ext. includes_str lowerUrl ext) videoExtensions then True
         else if list_ex (\<lambda>domain. includes_str lowerUrl domain) videoDomains then True
         else False)"

text \<open>
  The temp files after the video branch of the route (lines 59-254), as far as they are
  concerned: \<^verbatim>\<open>extractFrames(data, 5, true)\<close>, then the transcription track; when
  \<^verbatim>\<open>extractFrames\<close> throws, the \<^verbatim>\<open>catch\<close> of line 248 falls back to the metadata text and
  touches no file.
\<close>

definition videoBranch ::
  "IngestEnv \<Rightarrow> World \<Rightarrow> string \<Rightarrow> (error + string) option \<Rightarrow> bool \<Rightarrow> World" where
  "videoBranch env w videoUrl transcribed beforeDeadline =
     (case extractFrames env w videoUrl 5 True of
        (w', Inl e) \<Rightarrow> w'
      | (w', Inr videoResult) \<Rightarrow>
          fst (transcriptionTrack w' (vr_audioPath videoResult) transcribed beforeDeadline))"

section \<open>Properties of the Frame Sampler\<close>

subsection \<open>Rounding to a double keeps the sign and the order\<close>

lemma round_half_even_bounds:
  "\<lfloor>x\<rfloor> \<le> round_half_even x" "round_half_even x \<le> \<lfloor>x\<rfloor> + 1"
  by (simp_all add: round_half_even_def Let_def)

lemma round_half_even_of_int: "round_half_even (of_int n) = n"
  by (simp add: round_half_even_def)

lemma round_half_even_ge: "of_int n \<le> x \<Longrightarrow> n \<le> round_half_even x"
proof -
  assume "of_int n \<le> x"
  then have "n \<le> \<lfloor>x\<rfloor>" by (simp add: le_floor_iff)
  with round_half_even_bounds(1) [of x] show ?thesis by linarith
qed

lemma round_half_even_le:
  assumes "x \<le> of_int n"
  shows "round_half_even x \<le> n"
proof (cases "x = of_int n")
  case True
  then show ?thesis by (simp add: round_half_even_of_int)
next
  case False
  with assms have "x < of_int n" by simp
  then have "\<lfloor>x\<rfloor> < n" by (simp add: floor_less_iff)
  with round_half_even_bounds(2) [of x] show ?thesis by simp
qed

lemma round_half_even_mono:
  assumes "x \<le> y"
  shows "round_half_even x \<le> round_half_even y"
proof (cases "\<lfloor>x\<rfloor> = \<lfloor>y\<rfloor>")
  case True
  have "x - of_int \<lfloor>y\<rfloor> \<le> y - of_int \<lfloor>y\<rfloor>" using assms by simp
  then show ?thesis
    by (simp add: round_half_even_def Let_def True)
next
  case False
  moreover have "\<lfloor>x\<rfloor> \<le> \<lfloor>y\<rfloor>" using assms by (rule floor_mono)
  ultimately have "\<lfloor>x\<rfloor> + 1 \<le> \<lfloor>y\<rfloor>" by simp
  with round_half_even_bounds(2) [of x] round_half_even_bounds(1) [of y]
  show ?thesis by linarith
qed

lemma floor_log2_bounds:
  "1 \<le> x \<Longrightarrow> 2 ^ floor_log2 x \<le> x \<and> x < 2 * 2 ^ floor_log2 x"
proof (induction x rule: floor_log2.induct)
  case (1 x)
  show ?case
  proof (cases "x < 2")
    case True
    then have "floor_log2 x = 0" by (subst floor_log2.simps) simp
    with True "1.prems" show ?thesis by simp
  next
    case False
    then have eq: "floor_log2 x = Suc (floor_log2 (x / 2))"
      by (subst floor_log2.simps) simp
    have "1 \<le> x / 2" using False by simp
    then have "2 ^ floor_log2 (x / 2) \<le> x / 2 \<and> x / 2 < 2 * 2 ^ floor_log2 (x / 2)"
      by (rule "1.IH" [OF False])
    then show ?thesis unfolding eq by simp
  qed
qed

lemma doublings_bounds:
  "0 < x \<Longrightarrow> x < 1 \<Longrightarrow>
   doublings n x \<le> n \<and> x * 2 ^ doublings n x < 2
   \<and> (1 \<le> x * 2 ^ doublings n x \<or> doublings n x = n)"
proof (induction n arbitrary: x)
  case 0
  then show ?case by simp
next
  case (Suc n)
  show ?case
  proof (cases "2 * x < 1")
    case True
    have "0 < 2 * x" using Suc.prems by simp
    from Suc.IH [OF this True] Suc.prems show ?thesis
      by (simp add: mult.assoc mult.left_commute)
  next
    case False
    then have "doublings n (2 * x) = 0 \<or> n = 0" by (cases n) simp_all
    then have "doublings n (2 * x) = 0" by auto
    with False Suc.prems show ?thesis by simp
  qed
qed

lemma power_int_2_diff: "(2::rat) powi (a - int k) = 2 powi a / 2 ^ k"
  using power_int_diff [of "2::rat" a "int k"] by simp

lemma power_int_2_add: "(2::rat) powi (int n + a) = 2 ^ n * 2 powi a"
  using power_int_add [of "2::rat" "int n" a] by simp

lemma exponent_bounds:
  assumes "0 < x"
  shows "- 1074 \<le> exponent x \<and> x < 2 powi (exponent x + 53)
       \<and> (2 powi (exponent x + 52) \<le> x \<or> exponent x = - 1074)"
proof (cases "1 \<le> x")
  case True
  have abs: "\<bar>x\<bar> = x" using assms by simp
  from True have e: "exponent x = int (floor_log2 x) - 52"
    by (simp add: exponent_def abs)
  note b = floor_log2_bounds [OF True]
  have "(2::rat) powi (exponent x + 53) = 2 * 2 ^ floor_log2 x"
    unfolding e by (simp add: power_int_add)
  moreover have "(2::rat) powi (exponent x + 52) = 2 ^ floor_log2 x"
    unfolding e by simp
  moreover have "- 1074 \<le> exponent x" unfolding e by simp
  ultimately show ?thesis using b by simp
next
  case False
  have abs: "\<bar>x\<bar> = x" using assms by simp
  from False have lt: "x < 1" by simp
  define k where "k = doublings 1022 x"
  have e: "exponent x = - int k - 52"
    using False by (simp add: exponent_def abs k_def)
  from doublings_bounds [OF assms lt, of 1022]
  have b: "k \<le> 1022" "x * 2 ^ k < 2" "1 \<le> x * 2 ^ k \<or> k = 1022"
    by (simp_all add: k_def)
  have "exponent x + 53 = 1 - int k" "exponent x + 52 = 0 - int k"
    unfolding e by simp_all
  then have p53: "(2::rat) powi (exponent x + 53) = 2 / 2 ^ k"
    and p52: "(2::rat) powi (exponent x + 52) = 1 / 2 ^ k"
    by (simp_all only: power_int_2_diff power_int_1_right power_int_0_right)
  have "- 1074 \<le> exponent x" unfolding e using b(1) by simp
  moreover have "x < 2 powi (exponent x + 53)"
    unfolding p53 using b(2) by (simp add: field_simps)
  moreover have "2 powi (exponent x + 52) \<le> x \<or> exponent x = - 1074"
  proof -
    have "1 / 2 ^ k \<le> x \<or> k = 1022"
      using b(3) by (auto simp add: field_simps)
    moreover have "k = 1022 \<Longrightarrow> exponent x = - 1074"
      unfolding e by simp
    ultimately show ?thesis
      unfolding p52 by blast
  qed
  ultimately show ?thesis by simp
qed

lemma to_double_nonneg: "0 \<le> x \<Longrightarrow> 0 \<le> to_double x"
proof -
  assume "0 \<le> x"
  then have "of_int 0 \<le> x / 2 powi exponent x" by simp
  then have "0 \<le> round_half_even (x / 2 powi exponent x)"
    by (rule round_half_even_ge)
  then show ?thesis by (simp add: to_double_def)
qed

lemma to_double_zero: "to_double 0 = 0"
  by (simp add: to_double_def round_half_even_def)

lemma to_double_mono_pos:
  assumes "0 < x" and "x \<le> y"
  shows "to_double x \<le> to_double y"
proof -
  have y: "0 < y" using assms by simp
  define a where "a = exponent x"
  define b where "b = exponent y"
  note ex = exponent_bounds [OF assms(1), folded a_def]
  note ey = exponent_bounds [OF y, folded b_def]
  have pa: "(0::rat) < 2 powi a" and pb: "(0::rat) < 2 powi b" by simp_all
  have ab: "a \<le> b"
  proof (rule ccontr)
    assume "\<not> a \<le> b"
    then have lt: "b + 53 \<le> a + 52" by simp
    then have "a \<noteq> - 1074" using ey by simp
    then have "2 powi (a + 52) \<le> x" using ex by simp
    moreover have "(2::rat) powi (b + 53) \<le> 2 powi (a + 52)"
      using lt by (intro power_int_increasing) simp_all
    ultimately show False using ey assms(2) by linarith
  qed
  show ?thesis
  proof (cases "a = b")
    case True
    have "x / 2 powi b \<le> y / 2 powi b"
      using assms(2) pb by (simp add: divide_right_mono)
    then have "round_half_even (x / 2 powi b) \<le> round_half_even (y / 2 powi b)"
      by (rule round_half_even_mono)
    then have "(of_int (round_half_even (x / 2 powi b)) :: rat) * 2 powi b
        \<le> of_int (round_half_even (y / 2 powi b)) * 2 powi b"
      using pb by (intro mult_right_mono) simp_all
    then show ?thesis
      by (simp only: to_double_def a_def [symmetric] b_def [symmetric] True)
  next
    case False
    with ab have lt: "a + 53 \<le> b + 52" by simp
    then have "b \<noteq> - 1074" using ex by simp
    then have yb: "2 powi (b + 52) \<le> y" using ey by simp
    have xb: "x < 2 powi (b + 52)"
    proof -
      have "(2::rat) powi (a + 53) \<le> 2 powi (b + 52)"
        using lt by (intro power_int_increasing) simp_all
      with ex show ?thesis by linarith
    qed
    define n where "n = nat (b + 52 - a)"
    have n: "int n = b + 52 - a" using lt by (simp add: n_def)
    have split: "(2::rat) powi (b + 52) = 2 ^ n * 2 powi a"
    proof -
      have "b + 52 = int n + a" using n by simp
      then show ?thesis by (simp only: power_int_2_add)
    qed
    have "x / 2 powi a \<le> of_int (2 ^ n)"
      using xb pa unfolding split by (simp add: field_simps)
    then have "round_half_even (x / 2 powi a) \<le> 2 ^ n"
      by (rule round_half_even_le)
    then have "(of_int (round_half_even (x / 2 powi a)) :: rat) \<le> 2 ^ n"
      by (metis of_int_le_iff of_int_numeral of_int_power)
    then have "(of_int (round_half_even (x / 2 powi a)) :: rat) * 2 powi a \<le> 2 ^ n * 2 powi a"
      using pa by (intro mult_right_mono) simp_all
    then have lo: "to_double x \<le> 2 powi (b + 52)"
      by (simp only: to_double_def a_def [symmetric] split)
    have split2: "(2::rat) powi (b + 52) = 2 ^ 52 * 2 powi b"
      using power_int_2_add [of 52 b] by (simp add: add.commute)
    have "of_int (2 ^ 52) \<le> y / 2 powi b"
      using yb pb unfolding split2 by (simp add: field_simps)
    then have "2 ^ 52 \<le> round_half_even (y / 2 powi b)"
      by (rule round_half_even_ge)
    then have "(2 ^ 52 :: rat) \<le> of_int (round_half_even (y / 2 powi b))"
      by (metis of_int_le_iff of_int_numeral of_int_power)
    then have "(2 ^ 52 :: rat) * 2 powi b \<le> of_int (round_half_even (y / 2 powi b)) * 2 powi b"
      using pb by (intro mult_right_mono) simp_all
    then have hi: "2 powi (b + 52) \<le> to_double y"
      by (simp only: to_double_def b_def [symmetric] split2)
    from lo hi show ?thesis by linarith
  qed
qed

lemma to_double_mono: "0 \<le> x \<Longrightarrow> x \<le> y \<Longrightarrow> to_double x \<le> to_double y"
  using to_double_mono_pos [of x y] to_double_nonneg [of y]
  by (cases "x = 0") (simp_all add: to_double_zero)

lemma double_times_nonneg: "0 \<le> x \<Longrightarrow> 0 \<le> y \<Longrightarrow> 0 \<le> double_times x y"
  by (simp add: double_times_def to_double_nonneg)

lemma double_plus_nonneg: "0 \<le> x \<Longrightarrow> 0 \<le> y \<Longrightarrow> 0 \<le> double_plus x y"
  by (simp add: double_plus_def to_double_nonneg)

lemma double_minus_nonneg: "y \<le> x \<Longrightarrow> 0 \<le> double_minus x y"
  by (simp add: double_minus_def to_double_nonneg)

lemma double_divide_nonneg: "0 \<le> x \<Longrightarrow> 0 < y \<Longrightarrow> 0 \<le> double_divide x y"
  by (simp add: double_divide_def to_double_nonneg)

lemma double_times_mono:
  "0 \<le> x \<Longrightarrow> 0 \<le> y \<Longrightarrow> y \<le> z \<Longrightarrow> double_times x y \<le> double_times x z"
  unfolding double_times_def by (intro to_double_mono mult_left_mono mult_nonneg_nonneg)

subsection \<open>Results beyond the range of doubles\<close>

text \<open>
  A finite double is below \<open>2 ^ 1024\<close>; a result that rounds to \<open>2 ^ 1024\<close> or more is
  \<^verbatim>\<open>Infinity\<close> in the code and a rational of that size here. For a duration that is a
  double, the window, the start, the end and the interval stay between 0 and the
  duration. Only the product \<^verbatim>\<open>interval * i\<close> and the sum \<^verbatim>\<open>startTime + (interval * i)\<close>
  can leave the range, and then the guard \<^verbatim>\<open>timestamp < duration\<close> is false in the code
  and in the model alike.
\<close>

lemma to_double_ge_power:
  assumes "- 1074 \<le> k" and "2 powi k \<le> y"
  shows "2 powi k \<le> to_double y"
proof -
  have "(0::rat) < 2 powi k" by simp
  with assms(2) have y: "0 < y" by linarith
  define b where "b = exponent y"
  note ey = exponent_bounds [OF y, folded b_def]
  have pb: "(0::rat) < 2 powi b" by simp
  show ?thesis
  proof (cases "b \<le> k")
    case True
    define n where "n = nat (k - b)"
    have "k = int n + b" using True by (simp add: n_def)
    then have split: "(2::rat) powi k = 2 ^ n * 2 powi b"
      by (simp only: power_int_2_add)
    have "of_int (2 ^ n) \<le> y / 2 powi b"
      using assms(2) pb unfolding split by (simp add: field_simps)
    then have "2 ^ n \<le> round_half_even (y / 2 powi b)"
      by (rule round_half_even_ge)
    then have "(2 ^ n :: rat) \<le> of_int (round_half_even (y / 2 powi b))"
      by (metis of_int_le_iff of_int_numeral of_int_power)
    then have "(2 ^ n :: rat) * 2 powi b \<le> of_int (round_half_even (y / 2 powi b)) * 2 powi b"
      using pb by (intro mult_right_mono) simp_all
    then show ?thesis
      by (simp only: to_double_def b_def [symmetric] split)
  next
    case False
    with assms(1) have "b \<noteq> - 1074" by simp
    with ey have yb: "2 powi (b + 52) \<le> y" by simp
    have split: "(2::rat) powi (b + 52) = 2 ^ 52 * 2 powi b"
      using power_int_2_add [of 52 b] by (simp add: add.commute)
    have "of_int (2 ^ 52) \<le> y / 2 powi b"
      using yb pb unfolding split by (simp add: field_simps)
    then have "2 ^ 52 \<le> round_half_even (y / 2 powi b)"
      by (rule round_half_even_ge)
    then have "(2 ^ 52 :: rat) \<le> of_int (round_half_even (y / 2 powi b))"
      by (metis of_int_le_iff of_int_numeral of_int_power)
    then have "(2 ^ 52 :: rat) * 2 powi b \<le> of_int (round_half_even (y / 2 powi b)) * 2 powi b"
      using pb by (intro mult_right_mono) simp_all
    then have "2 powi (b + 52) \<le> to_double y"
      by (simp only: to_double_def b_def [symmetric] split)
    moreover have "(2::rat) powi k \<le> 2 powi (b + 52)"
      using False by (intro power_int_increasing) simp_all
    ultimately show ?thesis by linarith
  qed
qed

lemma beyond_range_not_pushed:
  assumes "duration < 2 ^ 1024" and "0 \<le> startTime"
    and "2 ^ 1024 \<le> product \<or> 2 ^ 1024 \<le> double_plus startTime product"
  shows "\<not> double_plus startTime product < duration"
proof -
  have "2 ^ 1024 \<le> double_plus startTime product"
  proof (cases "2 ^ 1024 \<le> product")
    case True
    with assms(2) have "(2::rat) powi 1024 \<le> startTime + product" by simp
    then have "(2::rat) powi 1024 \<le> to_double (startTime + product)"
      by (intro to_double_ge_power) simp_all
    then show ?thesis by (simp add: double_plus_def)
  next
    case False
    with assms(3) show ?thesis by simp
  qed
  with assms(1) show ?thesis by linarith
qed

lemma sampler_operands_in_range:
  assumes "to_double duration = duration" and "0 < duration" and "0 < n"
    and earlyWindow_def: "earlyWindow = min 60 (double_times duration (to_double 0.2))"
    and startTime_def: "startTime = max earlyWindow (double_times duration (to_double 0.1))"
    and endTime'Xdef: "endTime' = double_times duration (to_double 0.9)"
    and interval_def:
      "interval = double_divide (double_minus endTime' startTime) (of_int (n + 1))"
  shows "0 \<le> earlyWindow \<and> earlyWindow \<le> duration
       \<and> 0 \<le> startTime \<and> startTime \<le> endTime' \<and> endTime' \<le> duration
       \<and> 0 \<le> double_minus endTime' startTime \<and> double_minus endTime' startTime \<le> duration
       \<and> 0 \<le> interval \<and> interval \<le> duration"
proof -
  have d: "0 \<le> duration" using assms(2) by simp
  have one: "to_double 1 = 1"
    by (simp add: to_double_def exponent_def floor_log2.simps round_half_even_def)
  have c: "(0::rat) \<le> to_double 0.1" "(0::rat) \<le> to_double 0.2" "(0::rat) \<le> to_double 0.9"
    "to_double 0.1 \<le> to_double 0.9" "to_double 0.2 \<le> to_double 0.9"
    "to_double 0.9 \<le> 1" "to_double 0.2 \<le> 1"
    using to_double_mono [of "0.9" 1] to_double_mono [of "0.2" 1]
    by (simp_all add: to_double_nonneg to_double_mono one)
  have below: "double_times duration x \<le> duration" if "0 \<le> x" "x \<le> 1" for x
  proof -
    have "duration * x \<le> duration"
      using that d by (simp add: mult_left_le)
    then have "to_double (duration * x) \<le> to_double duration"
      using that d by (intro to_double_mono) simp_all
    then show ?thesis by (simp add: double_times_def assms(1))
  qed
  have e: "0 \<le> earlyWindow" "earlyWindow \<le> duration"
    unfolding earlyWindow_def
    using double_times_nonneg [OF d c(2)] below [OF c(2) c(7)] by (simp_all add: min_def)
  have en: "endTime' \<le> duration"
    unfolding endTime'Xdef using below [OF c(3) c(6)] .
  have lo: "0 \<le> double_times duration (to_double 0.1)"
    using d c(1) by (rule double_times_nonneg)
  have hi: "double_times duration (to_double 0.1) \<le> endTime'"
    "double_times duration (to_double 0.2) \<le> endTime'"
    unfolding endTime'Xdef using d c by (simp_all add: double_times_mono)
  have st: "0 \<le> startTime" "startTime \<le> endTime'"
    using lo hi by (auto simp: startTime_def earlyWindow_def)
  have df: "0 \<le> double_minus endTime' startTime" "double_minus endTime' startTime \<le> duration"
  proof -
    show "0 \<le> double_minus endTime' startTime"
      using st(2) by (rule double_minus_nonneg)
    have "endTime' - startTime \<le> duration" using st(1) en by simp
    then have "to_double (endTime' - startTime) \<le> to_double duration"
      using st(2) by (intro to_double_mono) simp_all
    then show "double_minus endTime' startTime \<le> duration"
      by (simp add: double_minus_def assms(1))
  qed
  have iv: "0 \<le> interval" "interval \<le> duration"
  proof -
    have n: "(0::rat) < of_int (n + 1)" "(1::rat) \<le> of_int (n + 1)"
      using assms(3) by simp_all
    show "0 \<le> interval"
      unfolding interval_def using df(1) n(1) by (rule double_divide_nonneg)
    have "double_minus endTime' startTime / of_int (n + 1) \<le> double_minus endTime' startTime / 1"
      using df(1) n by (intro divide_left_mono) simp_all
    then have "double_minus endTime' startTime / of_int (n + 1) \<le> double_minus endTime' startTime"
      by simp
    then have "double_minus endTime' startTime / of_int (n + 1) \<le> duration"
      using df(2) by linarith
    moreover have "0 \<le> double_minus endTime' startTime / of_int (n + 1)"
      using df(1) n(1) by simp
    ultimately have "to_double (double_minus endTime' startTime / of_int (n + 1)) \<le> to_double duration"
      by (intro to_double_mono)
    then show "interval \<le> duration"
      by (simp add: interval_def double_divide_def assms(1))
  qed
  from e st en df iv show ?thesis by simp
qed

subsection \<open>The loops\<close>

lemma early_loop_inv:
  "0 \<le> t \<Longrightarrow> \<forall>x\<in>set ts. 0 \<le> x \<and> of_int x < d \<Longrightarrow>
   \<forall>x\<in>set (early_loop d w t ts). 0 \<le> x \<and> of_int x < d"
proof (induction d w t ts rule: early_loop.induct)
  case (1 duration earlyWindow t timestamps)
  let ?ts = "if of_int t < duration then timestamps @ [\<lfloor>of_int t :: rat\<rfloor>] else timestamps"
  show ?case
  proof (cases "of_int t < earlyWindow")
    case True
    have "\<forall>x\<in>set ?ts. 0 \<le> x \<and> of_int x < duration"
      using "1.prems" by auto
    moreover have "0 \<le> t + 10"
      using "1.prems"(1) by simp
    ultimately have "\<forall>x\<in>set (early_loop duration earlyWindow (t + 10) ?ts).
                 0 \<le> x \<and> of_int x < duration"
      by (rule "1.IH" [OF True, rotated])
    moreover have "early_loop duration earlyWindow t timestamps
        = early_loop duration earlyWindow (t + 10) ?ts"
      using True by (subst early_loop.simps) simp
    ultimately show ?thesis by (simp only:)
  next
    case False
    then have "early_loop duration earlyWindow t timestamps = timestamps"
      by (subst early_loop.simps) simp
    with "1.prems"(2) show ?thesis by (simp only:)
  qed
qed

lemma early_loop_keeps: "x \<in> set ts \<Longrightarrow> x \<in> set (early_loop d w t ts)"
proof (induction d w t ts rule: early_loop.induct)
  case (1 duration earlyWindow t timestamps)
  let ?ts = "if of_int t < duration then timestamps @ [\<lfloor>of_int t :: rat\<rfloor>] else timestamps"
  show ?case
  proof (cases "of_int t < earlyWindow")
    case True
    have "x \<in> set ?ts"
      using "1.prems" by auto
    then have "x \<in> set (early_loop duration earlyWindow (t + 10) ?ts)"
      by (rule "1.IH" [OF True])
    moreover have "early_loop duration earlyWindow t timestamps
        = early_loop duration earlyWindow (t + 10) ?ts"
      using True by (subst early_loop.simps) simp
    ultimately show ?thesis by (simp only:)
  next
    case False
    then have "early_loop duration earlyWindow t timestamps = timestamps"
      by (subst early_loop.simps) simp
    with "1.prems" show ?thesis by (simp only:)
  qed
qed

lemma spaced_loop_inv:
  "0 \<le> i \<Longrightarrow> 0 \<le> s \<Longrightarrow> 0 \<le> iv \<Longrightarrow> \<forall>x\<in>set ts. 0 \<le> x \<and> of_int x < d \<Longrightarrow>
   \<forall>x\<in>set (spaced_loop d s iv r i ts). 0 \<le> x \<and> of_int x < d"
proof (induction d s iv r i ts rule: spaced_loop.induct)
  case (1 duration startTime interval remainingFrames i timestamps)
  let ?t = "double_plus startTime (double_times interval (of_int i))"
  let ?ts = "if ?t < duration then timestamps @ [\<lfloor>?t\<rfloor>] else timestamps"
  show ?case
  proof (cases "i \<le> remainingFrames")
    case True
    have nn: "0 \<le> ?t"
      using "1.prems"(1,2,3) by (intro double_plus_nonneg double_times_nonneg) simp_all
    have fl: "?t < duration \<Longrightarrow> of_int \<lfloor>?t\<rfloor> < duration"
      using of_int_floor_le [of ?t] by linarith
    have "\<forall>x\<in>set ?ts. 0 \<le> x \<and> of_int x < duration"
      using "1.prems"(4) nn fl by auto
    moreover have "0 \<le> i + 1"
      using "1.prems"(1) by simp
    ultimately have "\<forall>x\<in>set (spaced_loop duration startTime interval remainingFrames (i + 1) ?ts).
                 0 \<le> x \<and> of_int x < duration"
      using "1.prems"(2,3) by (intro "1.IH" [OF True refl])
    moreover have "spaced_loop duration startTime interval remainingFrames i timestamps
        = spaced_loop duration startTime interval remainingFrames (i + 1) ?ts"
      using True by (subst spaced_loop.simps) (simp add: Let_def)
    ultimately show ?thesis by (simp only:)
  next
    case False
    then have "spaced_loop duration startTime interval remainingFrames i timestamps = timestamps"
      by (subst spaced_loop.simps) simp
    with "1.prems" show ?thesis by (simp only:)
  qed
qed

lemma spaced_loop_keeps: "x \<in> set ts \<Longrightarrow> x \<in> set (spaced_loop d s iv r i ts)"
proof (induction d s iv r i ts rule: spaced_loop.induct)
  case (1 duration startTime interval remainingFrames i timestamps)
  let ?t = "double_plus startTime (double_times interval (of_int i))"
  let ?ts = "if ?t < duration then timestamps @ [\<lfloor>?t\<rfloor>] else timestamps"
  show ?case
  proof (cases "i \<le> remainingFrames")
    case True
    have "x \<in> set ?ts"
      using "1.prems" by auto
    then have "x \<in> set (spaced_loop duration startTime interval remainingFrames (i + 1) ?ts)"
      by (rule "1.IH" [OF True refl])
    moreover have "spaced_loop duration startTime interval remainingFrames i timestamps
        = spaced_loop duration startTime interval remainingFrames (i + 1) ?ts"
      using True by (subst spaced_loop.simps) (simp add: Let_def)
    ultimately show ?thesis by (simp only:)
  next
    case False
    then have "spaced_loop duration startTime interval remainingFrames i timestamps = timestamps"
      by (subst spaced_loop.simps) simp
    with "1.prems" show ?thesis by (simp only:)
  qed
qed

lemma set_spread_fold:
  "distinct acc \<Longrightarrow>
   distinct (fold (\<lambda>x seen. if x \<in> set seen then seen else seen @ [x]) xs acc) \<and>
   set (fold (\<lambda>x seen. if x \<in> set seen then seen else seen @ [x]) xs acc) = set acc \<union> set xs"
  by (induction xs arbitrary: acc) auto

lemma distinct_set_spread: "distinct (set_spread xs)"
  using set_spread_fold [of "[]" xs] by (simp add: set_spread_def)

lemma set_set_spread: "set (set_spread xs) = set xs"
  using set_spread_fold [of "[]" xs] by (simp add: set_spread_def)

lemma zero_in_take_sort:
  assumes "(0::int) \<in> set xs" and "\<forall>x\<in>set xs. 0 \<le> x" and "0 < n"
  shows "0 \<in> set (take n (sort xs))"
proof -
  have ne: "sort xs \<noteq> []" using assms(1) by (metis empty_iff set_empty set_sort)
  then obtain y ys where ys: "sort xs = y # ys" by (cases "sort xs") auto
  have "sorted (y # ys)" using sorted_sort [of xs] ys by simp
  then have le: "\<forall>z\<in>set ys. y \<le> z" by simp
  have "0 \<in> set (y # ys)" using assms(1) ys by (metis set_sort)
  moreover have "0 \<le> y" using assms(2) ys by (metis list.set_intros(1) set_sort)
  ultimately have "y = 0" using le by auto
  obtain m where "n = Suc m" using assms(3) by (cases n) auto
  then show ?thesis using ys \<open>y = 0\<close> by simp
qed

lemma timestamps_inv:
  assumes "0 < duration"
  shows "0 \<in> set (calculateSmartTimestamps duration frameCount)"
    and "\<forall>t\<in>set (calculateSmartTimestamps duration frameCount). of_int t < duration"
    and "sorted_wrt (<) (calculateSmartTimestamps duration frameCount)"
    and "length (calculateSmartTimestamps duration frameCount) \<le> 15"
proof -
  define earlyWindow where "earlyWindow = min 60 (double_times duration (to_double 0.2))"
  define ts1 where "ts1 = early_loop duration earlyWindow 5 [0]"
  define remainingFrames where "remainingFrames = frameCount - int (length ts1)"
  define startTime where "startTime = max earlyWindow (double_times duration (to_double 0.1))"
  define endTime where "endTime = double_times duration (to_double 0.9)"
  define interval where "interval = double_divide (double_minus endTime startTime)
                                      (of_int (remainingFrames + 1))"
  define ts2 where "ts2 = (if remainingFrames > 0
      then spaced_loop duration startTime interval remainingFrames 1 ts1 else ts1)"
  have res: "calculateSmartTimestamps duration frameCount = take 15 (sort (set_spread ts2))"
    by (simp add: calculateSmartTimestamps_def Let_def ts2_def interval_def endTime_def
        startTime_def remainingFrames_def ts1_def earlyWindow_def)
  have inv1: "\<forall>x\<in>set ts1. 0 \<le> x \<and> of_int x < duration"
    unfolding ts1_def using assms by (intro early_loop_inv) auto
  have z1: "0 \<in> set ts1"
    unfolding ts1_def by (rule early_loop_keeps) simp
  have d: "0 \<le> duration" using assms by simp
  have c: "(0::rat) \<le> to_double 0.1" "(0::rat) \<le> to_double 0.2"
    "to_double 0.1 \<le> to_double 0.9" "to_double 0.2 \<le> to_double 0.9"
    by (simp_all add: to_double_nonneg to_double_mono)
  have lo: "0 \<le> double_times duration (to_double 0.1)"
    using d c(1) by (rule double_times_nonneg)
  have hi: "double_times duration (to_double 0.1) \<le> endTime"
    "double_times duration (to_double 0.2) \<le> endTime"
    unfolding endTime_def using d c by (simp_all add: double_times_mono)
  have st: "0 \<le> startTime" "startTime \<le> endTime"
    using lo hi by (auto simp: startTime_def earlyWindow_def)
  have iv: "remainingFrames > 0 \<Longrightarrow> 0 \<le> interval"
    unfolding interval_def using st(2)
    by (intro double_divide_nonneg double_minus_nonneg) simp_all
  have inv2: "\<forall>x\<in>set ts2. 0 \<le> x \<and> of_int x < duration"
  proof (cases "remainingFrames > 0")
    case True
    have "\<forall>x\<in>set (spaced_loop duration startTime interval remainingFrames 1 ts1).
            0 \<le> x \<and> of_int x < duration"
      using st(1) iv [OF True] inv1 by (intro spaced_loop_inv) auto
    with True show ?thesis by (simp add: ts2_def)
  next
    case False
    with inv1 show ?thesis by (simp add: ts2_def)
  qed
  have z2: "0 \<in> set ts2"
    unfolding ts2_def using z1 by (auto intro: spaced_loop_keeps)
  show "0 \<in> set (calculateSmartTimestamps duration frameCount)"
    unfolding res using z2 inv2 by (intro zero_in_take_sort) (auto simp: set_set_spread)
  show "\<forall>t\<in>set (calculateSmartTimestamps duration frameCount). of_int t < duration"
    unfolding res using inv2 by (auto dest!: in_set_takeD simp: set_set_spread)
  have "sorted_wrt (<) (sort (set_spread ts2))"
    using distinct_set_spread [of ts2] by (simp add: strict_sorted_iff)
  then show "sorted_wrt (<) (calculateSmartTimestamps duration frameCount)"
    unfolding res by (rule sorted_wrt_take)
  show "length (calculateSmartTimestamps duration frameCount) \<le> 15"
    unfolding res by simp
qed

text \<open>
  Claim C6. For every duration greater than zero and every desired count of at least one,
  the sampler's output contains the timestamp 0, is strictly ascending, has no duplicates,
  has at most 15 entries, and every timestamp in it is strictly below the duration.
  The sampler is the one of the code, in double arithmetic: the two guards bound every
  pushed value by the duration whatever the rounding, and no pushed value is negative
  because rounding to a double keeps the sign and the order of its argument. At the
  duration 18 with nine frames the seventh value is 11, where exact arithmetic gives 12.
\<close>

theorem calculateSmartTimestamps_output:
  assumes "0 < duration" and "1 \<le> frameCount"
  shows "0 \<in> set (calculateSmartTimestamps duration frameCount)
       \<and> sorted_wrt (<) (calculateSmartTimestamps duration frameCount)
       \<and> distinct (calculateSmartTimestamps duration frameCount)
       \<and> length (calculateSmartTimestamps duration frameCount) \<le> 15
       \<and> (\<forall>t\<in>set (calculateSmartTimestamps duration frameCount). of_int t < duration)"
  using timestamps_inv [OF assms(1), of frameCount]
  by (simp add: strict_sorted_iff)

theorem calculateSmartTimestamps_output_witness:
  "(0::rat) < 18 \<and> (1::int) \<le> 9
   \<and> calculateSmartTimestamps 18 9 = [0, 5, 6, 7, 9, 10, 11, 13, 14]
   \<and> 0 \<in> set (calculateSmartTimestamps 18 9)
   \<and> sorted_wrt (<) (calculateSmartTimestamps 18 9)
   \<and> distinct (calculateSmartTimestamps 18 9)
   \<and> length (calculateSmartTimestamps 18 9) \<le> 15
   \<and> list_all (\<lambda>t. rat_of_int t < 18) (calculateSmartTimestamps 18 9)"
proof -
  have v: "calculateSmartTimestamps 18 9 = [0, 5, 6, 7, 9, 10, 11, 13, 14]"
    by code_simp
  have h: "(0::rat) < 18" "(1::int) \<le> 9"
    by simp_all
  show ?thesis
    using calculateSmartTimestamps_output [OF h] v h by (simp add: list_all_iff)
qed

section \<open>Properties of \<open>normalizeTime\<close>\<close>

lemma dropWhile_snoc_keep: "\<not> P c \<Longrightarrow> dropWhile P (xs @ [c]) = dropWhile P xs @ [c]"
  by (induction xs) simp_all

lemma matches_prefix_strip_end:
  assumes "\<forall>p \<in> set pat. \<forall>c. class_matches p c \<longrightarrow> \<not> is_space c"
    and "matches_prefix pat s"
  shows "matches_prefix pat (rev (dropWhile is_space (rev s)))"
  using assms
proof (induction pat s rule: matches_prefix.induct)
  case (1 cs)
  then show ?case by simp
next
  case (2 p ps c cs)
  from "2.prems" have c: "class_matches p c" and rest: "matches_prefix ps cs"
    by simp_all
  from "2.prems"(1) c have "\<not> is_space c"
    by simp
  then have "rev (dropWhile is_space (rev (c # cs))) = c # rev (dropWhile is_space (rev cs))"
    by (simp add: dropWhile_snoc_keep)
  moreover have "matches_prefix ps (rev (dropWhile is_space (rev cs)))"
    using "2.prems"(1) rest by (intro "2.IH") simp_all
  ultimately show ?case
    using c by simp
next
  case (3 p ps)
  then show ?case by simp
qed

lemma matches_prefix_trim:
  assumes "\<forall>p \<in> set pat. \<forall>c. class_matches p c \<longrightarrow> \<not> is_space c"
    and "pat \<noteq> []"
    and "matches_prefix pat s"
  shows "matches_prefix pat (trim s)"
proof -
  from assms(2) obtain p ps where pat: "pat = p # ps"
    by (cases pat) auto
  with assms(3) obtain c cs where s: "s = c # cs" and c: "class_matches p c"
    by (cases s) auto
  from assms(1) pat c have "\<not> is_space c"
    by simp
  with s have "dropWhile is_space s = s"
    by simp
  then have "trim s = rev (dropWhile is_space (rev s))"
    by (simp add: trim_def)
  with matches_prefix_strip_end [OF assms(1,3)] show ?thesis
    by simp
qed

lemma digit_not_space: "is_digit c \<Longrightarrow> \<not> is_space c"
  by (auto simp: is_digit_def is_space_def)

lemma date_patterns_no_space:
  "\<forall>p \<in> set iso_date_pattern. \<forall>c. class_matches p c \<longrightarrow> \<not> is_space c"
  "\<forall>p \<in> set us_date_pattern. \<forall>c. class_matches p c \<longrightarrow> \<not> is_space c"
  by (auto simp: iso_date_pattern_def us_date_pattern_def is_digit_def is_space_def)

text \<open>An input that begins like a calendar date (\<^verbatim>\<open>YYYY-MM-DD\<close> or \<^verbatim>\<open>MM/DD/YYYY\<close>) is
  always rejected: trimming keeps the date at the front.\<close>

lemma normalizeTime_rejects_date_shaped:
  assumes "matches_prefix iso_date_pattern s \<or> matches_prefix us_date_pattern s"
  shows "\<exists>e. normalizeTime s = Inl e"
proof -
  have "matches_prefix iso_date_pattern (trim s) \<or> matches_prefix us_date_pattern (trim s)"
    using assms
  proof
    assume "matches_prefix iso_date_pattern s"
    then have "matches_prefix iso_date_pattern (trim s)"
      by (intro matches_prefix_trim date_patterns_no_space) (simp_all add: iso_date_pattern_def)
    then show ?thesis ..
  next
    assume "matches_prefix us_date_pattern s"
    then have "matches_prefix us_date_pattern (trim s)"
      by (intro matches_prefix_trim date_patterns_no_space) (simp_all add: us_date_pattern_def)
    then show ?thesis ..
  qed
  then show ?thesis
    by (simp add: normalizeTime_def Let_def)
qed

lemma is_digit_digit_char: "is_digit (digit_char d)"
proof -
  have "d mod 10 < length ''0123456789''"
    by simp
  then have "''0123456789'' ! (d mod 10) \<in> set ''0123456789''"
    by (rule nth_mem)
  then show ?thesis
    by (simp only: is_digit_def digit_char_def)
qed

lemma padStart2_two_digits:
  assumes "n < 100"
  shows "padStart2 (nat_toString n) = [digit_char (n div 10), digit_char (n mod 10)]"
proof (cases "n < 10")
  case True
  then have "nat_toString n = [digit_char n]"
    by (subst nat_toString.simps) simp
  moreover have "digit_char (n div 10) = CHR ''0''"
    using True by (simp add: digit_char_def)
  moreover have "digit_char (n mod 10) = digit_char n"
    by (simp add: digit_char_def)
  ultimately show ?thesis
    by (simp add: padStart2_def)
next
  case False
  with assms have small: "n div 10 < 10"
    by simp
  have "nat_toString n = nat_toString (n div 10) @ [digit_char (n mod 10)]"
    using False by (subst nat_toString.simps) simp
  moreover have "nat_toString (n div 10) = [digit_char (n div 10)]"
    using small by (subst nat_toString.simps) simp
  ultimately show ?thesis
    by (simp add: padStart2_def)
qed

lemma clock_shape:
  assumes "0 \<le> h" "h < 100" "0 \<le> m" "m < 100"
  shows "is_HH_MM_SS (padStart2 (toString h) @ '':'' @ padStart2 (toString m) @ '':00'')"
proof -
  have h: "padStart2 (toString h) = [digit_char (nat h div 10), digit_char (nat h mod 10)]"
    using assms(1,2) by (simp add: toString_def padStart2_two_digits)
  have m: "padStart2 (toString m) = [digit_char (nat m div 10), digit_char (nat m mod 10)]"
    using assms(3,4) by (simp add: toString_def padStart2_two_digits)
  have zero: "is_digit CHR ''0''"
    by (simp add: is_digit_def)
  show ?thesis
    unfolding h m by (simp add: is_HH_MM_SS_def hh_mm_ss_pattern_def is_digit_digit_char zero)
qed

lemma matches_whole_append:
  "matches_whole p1 s1 \<Longrightarrow> matches_whole p2 s2 \<Longrightarrow> matches_whole (p1 @ p2) (s1 @ s2)"
  by (induction p1 s1 rule: matches_whole.induct) simp_all

lemma hh_mm_shape:
  assumes "matches_whole hh_mm_pattern t"
  shows "is_HH_MM_SS (t @ '':00'')"
proof -
  have "matches_whole [Lit CHR '':'', Digit, Digit] '':00''"
    by (simp add: is_digit_def)
  with assms have "matches_whole (hh_mm_pattern @ [Lit CHR '':'', Digit, Digit]) (t @ '':00'')"
    by (rule matches_whole_append)
  then show ?thesis
    by (simp add: is_HH_MM_SS_def hh_mm_ss_pattern_def hh_mm_pattern_def)
qed

lemma colon_time_shape:
  assumes "colon_time t = Some r"
  shows "is_HH_MM_SS r"
proof -
  from assms obtain h m where "0 \<le> h" "h \<le> 23" "0 \<le> m" "m \<le> 59"
      and r: "r = padStart2 (toString h) @ '':'' @ padStart2 (toString m) @ '':00''"
    by (auto simp: colon_time_def Let_def split: if_splits option.splits)
  then show ?thesis
    unfolding r by (intro clock_shape) simp_all
qed

lemma normalizeTime_unfold:
  "normalizeTime s =
     (if s = [] then Inl (Error ''Invalid time format'')
      else if matches_prefix iso_date_pattern (trim s) \<or> matches_prefix us_date_pattern (trim s)
      then Inl (Error (''Invalid time format: '' @ trim s @ '' (appears to be a date, not a time)''))
      else if matches_whole hh_mm_ss_pattern (trim s) then Inr (trim s)
      else if matches_whole hh_mm_pattern (trim s) then Inr (trim s @ '':00'')
      else (case ampm_match (trim s) of
              Some amPmMatch \<Rightarrow> Inr (ampm_time amPmMatch)
            | None \<Rightarrow>
                (case (if includes_str (trim s) '':'' then colon_time (trim s) else None) of
                   Some r \<Rightarrow> Inr r
                 | None \<Rightarrow> Inl (Error (''Invalid time format: '' @ trim s)))))"
  by (simp add: normalizeTime_def Let_def)

text \<open>Every result that does not come from the 12-hour branch has the shape
  \<^verbatim>\<open>HH:MM:SS\<close>.\<close>

lemma normalizeTime_shape_without_marker:
  assumes "normalizeTime s = Inr r" and "ampm_match (trim s) = None"
  shows "is_HH_MM_SS r"
proof (cases "s = [] \<or> matches_prefix iso_date_pattern (trim s) \<or> matches_prefix us_date_pattern (trim s)")
  case True
  then have "\<exists>e. normalizeTime s = Inl e"
    by (auto simp: normalizeTime_unfold)
  with assms(1) show ?thesis by simp
next
  case False
  show ?thesis
  proof (cases "matches_whole hh_mm_ss_pattern (trim s)")
    case True
    with False have "normalizeTime s = Inr (trim s)"
      by (simp add: normalizeTime_unfold)
    with assms(1) True show ?thesis
      by (simp add: is_HH_MM_SS_def)
  next
    case no_seconds: False
    show ?thesis
    proof (cases "matches_whole hh_mm_pattern (trim s)")
      case True
      with False no_seconds have "normalizeTime s = Inr (trim s @ '':00'')"
        by (simp add: normalizeTime_unfold)
      with assms(1) have "r = trim s @ '':00''"
        by simp
      with True show ?thesis
        by (simp only: hh_mm_shape)
    next
      case no_minutes: False
      show ?thesis
      proof (cases "if includes_str (trim s) '':'' then colon_time (trim s) else None")
        case None
        with False no_seconds no_minutes assms(2) have "\<exists>e. normalizeTime s = Inl e"
          by (simp add: normalizeTime_unfold)
        with assms(1) show ?thesis by simp
      next
        case (Some v)
        with False no_seconds no_minutes assms(2) have "normalizeTime s = Inr v"
          by (simp add: normalizeTime_unfold)
        with assms(1) have "v = r" by simp
        with Some have "colon_time (trim s) = Some r"
          by (simp split: if_splits)
        then show ?thesis by (rule colon_time_shape)
      qed
    qed
  qed
qed

text \<open>
  Claim C10 says that \<open>normalizeTime\<close> throws or returns a string of the shape
  \<^verbatim>\<open>HH:MM:SS\<close>. The branch for the 12-hour format does not check the hour it reads: on
  \<^verbatim>\<open>99pm\<close> it adds 12 to 99 and returns a string with a three-digit hour.
\<close>

theorem normalizeTime_three_digit_hour:
  "normalizeTime ''99pm'' = Inr ''111:00:00'' \<and> \<not> is_HH_MM_SS ''111:00:00''"
  by code_simp

section \<open>Properties of the merge stage\<close>

lemma sublist_join: "x \<in> set xs \<Longrightarrow> sublist x (join sep xs)"
proof (induction sep xs rule: join.induct)
  case (1 sep)
  then show ?case by simp
next
  case (2 sep y)
  then show ?case by simp
next
  case (3 sep y z zs)
  show ?case
  proof (cases "x = y")
    case True
    then show ?thesis by (simp add: sublist_append_rightI)
  next
    case False
    with "3.prems" have "x \<in> set (z # zs)" by simp
    then have "sublist x (join sep (z # zs))" by (rule "3.IH")
    then have "sublist x ((y @ sep) @ join sep (z # zs))" by (simp add: sublist_append)
    then show ?thesis by simp
  qed
qed

lemma signal_in_combinedText:
  assumes "s \<in> set (textSignals md tr f d data)" and "s \<noteq> []"
  shows "sublist s (combinedText md tr f d data)"
  unfolding combinedText_def using assms by (intro sublist_join) simp

lemma mergeFromDescription_keeps:
  "title (mergeFromDescription f d) = title f"
  "date (mergeFromDescription f d) = date f"
  "location (mergeFromDescription f d) = location f"
  "eventType (mergeFromDescription f d) = eventType f"
  "venueType (mergeFromDescription f d) = venueType f"
  by (simp_all add: mergeFromDescription_def Let_def)

lemma clearAllDayEndTime_keeps:
  "title (clearAllDayEndTime e) = title e"
  "date (clearAllDayEndTime e) = date e"
  "time (clearAllDayEndTime e) = time e"
  "description (clearAllDayEndTime e) = description e"
  "location (clearAllDayEndTime e) = location e"
  "eventType (clearAllDayEndTime e) = eventType e"
  "venueType (clearAllDayEndTime e) = venueType e"
  by (simp_all add: clearAllDayEndTime_def)

lemma preserveTypes_keeps:
  "title (preserveTypes f e) = title e"
  "date (preserveTypes f e) = date e"
  "time (preserveTypes f e) = time e"
  "endTime (preserveTypes f e) = endTime e"
  "description (preserveTypes f e) = description e"
  "location (preserveTypes f e) = location e"
  by (simp_all add: preserveTypes_def Let_def)

text \<open>
  Claim C1. In the merge stage for a video URL the frame analysis is the winning candidate
  exactly when it has a non-empty title and a non-empty date; otherwise the description
  analysis wins under the same test; otherwise the final extraction runs over the
  space-separated concatenation of every non-empty textual signal, in this order: the
  metadata title and description, the transcript, the title, date, time, location and
  description of the frame analysis, the same five fields of the description analysis,
  and the raw input. Each non-empty signal occurs in that text. When both analyses are
  complete and their titles differ, the merged title is the frame analysis title.
\<close>

theorem mergeStage_priority:
  "(truthy (title f) \<and> truthy (date f) \<longrightarrow>
      mergeStage ex md tr f d data = Inr (mergeFromDescription f d)
      \<and> title (mergeFromDescription f d) = title f
      \<and> date (mergeFromDescription f d) = date f
      \<and> location (mergeFromDescription f d) = location f)
   \<and> (\<not> (truthy (title f) \<and> truthy (date f)) \<and> truthy (title d) \<and> truthy (date d) \<longrightarrow>
      mergeStage ex md tr f d data = Inr (preserveTypes f (clearAllDayEndTime d))
      \<and> title (preserveTypes f (clearAllDayEndTime d)) = title d
      \<and> date (preserveTypes f (clearAllDayEndTime d)) = date d
      \<and> location (preserveTypes f (clearAllDayEndTime d)) = location d)
   \<and> (\<not> (truthy (title f) \<and> truthy (date f)) \<and> \<not> (truthy (title d) \<and> truthy (date d)) \<longrightarrow>
      mergeStage ex md tr f d data =
        map_sum id (\<lambda>c. preserveTypes f (clearAllDayEndTime c)) (ex (combinedText md tr f d data))
      \<and> textSignals md tr f d data =
          [or_empty (md_title md), or_empty (md_description md), tr,
           or_empty (title f), or_empty (date f), or_empty (time f), or_empty (location f),
           or_empty (description f),
           or_empty (title d), or_empty (date d), or_empty (time d), or_empty (location d),
           or_empty (description d),
           data]
      \<and> combinedText md tr f d data =
          join '' '' (filter (\<lambda>s. s \<noteq> [])
            [or_empty (md_title md), or_empty (md_description md), tr,
             or_empty (title f), or_empty (date f), or_empty (time f), or_empty (location f),
             or_empty (description f),
             or_empty (title d), or_empty (date d), or_empty (time d), or_empty (location d),
             or_empty (description d),
             data])
      \<and> (\<forall>s \<in> set [or_empty (md_title md), or_empty (md_description md), tr,
             or_empty (title f), or_empty (date f), or_empty (time f), or_empty (location f),
             or_empty (description f),
             or_empty (title d), or_empty (date d), or_empty (time d), or_empty (location d),
             or_empty (description d),
             data].
            s \<noteq> [] \<longrightarrow> sublist s (combinedText md tr f d data)))
   \<and> (truthy (title f) \<and> truthy (date f) \<and> truthy (title d) \<and> truthy (date d)
        \<and> title f \<noteq> title d \<longrightarrow>
      (\<exists>e. mergeStage ex md tr f d data = Inr e \<and> title e = title f))"
proof -
  let ?signals = "[or_empty (md_title md), or_empty (md_description md), tr,
           or_empty (title f), or_empty (date f), or_empty (time f), or_empty (location f),
           or_empty (description f),
           or_empty (title d), or_empty (date d), or_empty (time d), or_empty (location d),
           or_empty (description d),
           data]"
  have sig: "textSignals md tr f d data = ?signals"
    by (simp only: textSignals_def)
  have joined: "combinedText md tr f d data = join '' '' (filter (\<lambda>s. s \<noteq> []) ?signals)"
    by (simp only: combinedText_def sig)
  have sub: "\<forall>s \<in> set (?signals). s \<noteq> [] \<longrightarrow> sublist s (combinedText md tr f d data)"
    using signal_in_combinedText [of _ md tr f d data] unfolding sig by blast
  have frame: "truthy (title f) \<and> truthy (date f) \<longrightarrow>
      mergeStage ex md tr f d data = Inr (mergeFromDescription f d)
      \<and> title (mergeFromDescription f d) = title f
      \<and> date (mergeFromDescription f d) = date f
      \<and> location (mergeFromDescription f d) = location f"
    by (simp add: mergeStage_def mergeFromDescription_keeps)
  have descr: "\<not> (truthy (title f) \<and> truthy (date f)) \<and> truthy (title d) \<and> truthy (date d) \<longrightarrow>
      mergeStage ex md tr f d data = Inr (preserveTypes f (clearAllDayEndTime d))
      \<and> title (preserveTypes f (clearAllDayEndTime d)) = title d
      \<and> date (preserveTypes f (clearAllDayEndTime d)) = date d
      \<and> location (preserveTypes f (clearAllDayEndTime d)) = location d"
    by (auto simp add: mergeStage_def clearAllDayEndTime_keeps preserveTypes_keeps)
  have combined: "\<not> (truthy (title f) \<and> truthy (date f)) \<and> \<not> (truthy (title d) \<and> truthy (date d)) \<longrightarrow>
      mergeStage ex md tr f d data =
        map_sum id (\<lambda>c. preserveTypes f (clearAllDayEndTime c)) (ex (combinedText md tr f d data))"
    by (cases "ex (combinedText md tr f d data)") (auto simp add: mergeStage_def)
  have tie: "truthy (title f) \<and> truthy (date f) \<and> truthy (title d) \<and> truthy (date d)
        \<and> title f \<noteq> title d \<longrightarrow>
      (\<exists>e. mergeStage ex md tr f d data = Inr e \<and> title e = title f)"
    by (simp add: mergeStage_def mergeFromDescription_keeps)
  have third: "\<not> (truthy (title f) \<and> truthy (date f)) \<and> \<not> (truthy (title d) \<and> truthy (date d)) \<longrightarrow>
      mergeStage ex md tr f d data =
        map_sum id (\<lambda>c. preserveTypes f (clearAllDayEndTime c)) (ex (combinedText md tr f d data))
      \<and> textSignals md tr f d data = ?signals
      \<and> combinedText md tr f d data = join '' '' (filter (\<lambda>s. s \<noteq> []) ?signals)
      \<and> (\<forall>s \<in> set (?signals). s \<noteq> [] \<longrightarrow> sublist s (combinedText md tr f d data))"
    using combined sig joined sub by (intro impI conjI) (rule mp, assumption+)
  show ?thesis
    by (rule conjI [OF frame conjI [OF descr conjI [OF third tie]]])
qed

text \<open>
  Three runs of the stage. The description analysis is what the description track read
  in the page metadata, so it has fields only where the metadata has text. In the third
  run neither analysis has a date, and the final extractor returns the text it was given
  as the description of its event: every signal is in it, in the order of the code.
\<close>

theorem mergeStage_priority_witness:
  "truthy (title \<lparr> title = Some ''Jazz Night'', description = None, date = Some ''2025-12-05'',
        time = Some ''20:00:00'', endTime = None, location = None, eventType = None,
        venueType = None \<rparr>)
   \<and> (\<exists>e. mergeStage (\<lambda>t. Inl (Error t))
          \<lparr> md_title = Some ''Live Music Friday'', md_description = Some ''Doors at seven'',
            md_imageUrl = None \<rparr> []
          \<lparr> title = Some ''Jazz Night'', description = None, date = Some ''2025-12-05'',
            time = Some ''20:00:00'', endTime = None, location = None, eventType = None,
            venueType = None \<rparr>
          \<lparr> title = Some ''Live Music Friday'', description = Some ''Doors at seven'',
            date = Some ''2025-12-06'', time = None, endTime = None, location = None,
            eventType = None, venueType = None \<rparr>
          ''https://youtu.be/abc'' = Inr e \<and> title e = Some ''Jazz Night''
          \<and> date e = Some ''2025-12-05'')
   \<and> (\<exists>e. mergeStage (\<lambda>t. Inl (Error t))
          \<lparr> md_title = Some ''Live Music Friday'', md_description = Some ''Doors at seven'',
            md_imageUrl = None \<rparr> []
          emptyAnalysis
          \<lparr> title = Some ''Live Music Friday'', description = Some ''Doors at seven'',
            date = Some ''2025-12-06'', time = None, endTime = None, location = None,
            eventType = None, venueType = None \<rparr>
          ''https://youtu.be/abc'' = Inr e \<and> title e = Some ''Live Music Friday'')
   \<and> mergeStage (\<lambda>t. Inr (emptyAnalysis \<lparr> title := Some ''Jazz Night'', description := Some t \<rparr>))
          \<lparr> md_title = Some ''Live Music'', md_description = Some ''Doors at seven'',
            md_imageUrl = None \<rparr>
          ''welcome everyone''
          \<lparr> title = Some ''Jazz Night'', description = Some ''Quartet'', date = Some '''',
            time = Some ''20:00:00'', endTime = None, location = Some ''Blue Note'',
            eventType = Some ''concert'', venueType = Some '''' \<rparr>
          \<lparr> title = Some ''Live Music'', description = Some ''Doors at seven'', date = Some '''',
            time = None, endTime = None, location = Some ''Downtown'', eventType = None,
            venueType = None \<rparr>
          ''https://youtu.be/abc''
        = Inr \<lparr> title = Some ''Jazz Night'',
                description = Some (''Live Music Doors at seven welcome everyone Jazz Night ''
                  @ ''20:00:00 Blue Note Quartet Live Music Downtown Doors at seven ''
                  @ ''https://youtu.be/abc''),
                date = Some '''', time = None, endTime = None, location = Some '''',
                eventType = Some ''concert'', venueType = Some '''' \<rparr>"
proof -
  let ?ex = "\<lambda>t. Inl (Error t) :: error + ExtractedEvent"
  let ?ex3 = "\<lambda>t. Inr (emptyAnalysis \<lparr> title := Some ''Jazz Night'', description := Some t \<rparr>)
                :: error + ExtractedEvent"
  let ?md = "\<lparr> md_title = Some ''Live Music Friday'', md_description = Some ''Doors at seven'',
            md_imageUrl = None \<rparr>"
  let ?md3 = "\<lparr> md_title = Some ''Live Music'', md_description = Some ''Doors at seven'',
            md_imageUrl = None \<rparr>"
  let ?f = "\<lparr> title = Some ''Jazz Night'', description = None, date = Some ''2025-12-05'',
            time = Some ''20:00:00'', endTime = None, location = None, eventType = None,
            venueType = None \<rparr>"
  let ?d = "\<lparr> title = Some ''Live Music Friday'', description = Some ''Doors at seven'',
            date = Some ''2025-12-06'', time = None, endTime = None, location = None,
            eventType = None, venueType = None \<rparr>"
  let ?f3 = "\<lparr> title = Some ''Jazz Night'', description = Some ''Quartet'', date = Some '''',
            time = Some ''20:00:00'', endTime = None, location = Some ''Blue Note'',
            eventType = Some ''concert'', venueType = Some '''' \<rparr>"
  let ?d3 = "\<lparr> title = Some ''Live Music'', description = Some ''Doors at seven'', date = Some '''',
            time = None, endTime = None, location = Some ''Downtown'', eventType = None,
            venueType = None \<rparr>"
  let ?u = "''https://youtu.be/abc''"
  note a = mergeStage_priority [of ?f ?ex ?md "[]" ?d ?u]
  note b = mergeStage_priority [of emptyAnalysis ?ex ?md "[]" ?d ?u]
  note c = mergeStage_priority [of ?f3 ?ex3 ?md3 "''welcome everyone''" ?d3 ?u]
  have 1: "truthy (title ?f)" by simp
  have 2: "\<exists>e. mergeStage ?ex ?md [] ?f ?d ?u = Inr e \<and> title e = Some ''Jazz Night''
              \<and> date e = Some ''2025-12-05''"
    using a by simp
  have 3: "\<exists>e. mergeStage ?ex ?md [] emptyAnalysis ?d ?u = Inr e \<and> title e = Some ''Live Music Friday''"
    using b by (simp add: emptyAnalysis_def)
  have 4: "mergeStage ?ex3 ?md3 ''welcome everyone'' ?f3 ?d3 ?u
        = Inr \<lparr> title = Some ''Jazz Night'',
                description = Some (''Live Music Doors at seven welcome everyone Jazz Night ''
                  @ ''20:00:00 Blue Note Quartet Live Music Downtown Doors at seven ''
                  @ ''https://youtu.be/abc''),
                date = Some '''', time = None, endTime = None, location = Some '''',
                eventType = Some ''concert'', venueType = Some '''' \<rparr>"
    using c by (simp add: emptyAnalysis_def preserveTypes_def clearAllDayEndTime_def Let_def)
  from 1 2 3 4 show ?thesis by blast
qed

lemma clearAllDayEndTime_clears:
  "\<not> truthy (time (clearAllDayEndTime e)) \<Longrightarrow> \<not> truthy (endTime (clearAllDayEndTime e))"
  by (simp add: clearAllDayEndTime_def split: if_splits)

lemma mergeStage_other_branches_clear:
  assumes "\<not> (truthy (title f) \<and> truthy (date f))"
    and "mergeStage ex md tr f d data = Inr e"
    and "\<not> truthy (time e)"
  shows "\<not> truthy (endTime e)"
proof -
  obtain c where e: "e = preserveTypes f (clearAllDayEndTime c)"
    using assms(1,2) by (auto simp: mergeStage_def split: if_splits sum.splits)
  then have "\<not> truthy (time (clearAllDayEndTime c))"
    using assms(3) by (simp add: preserveTypes_keeps)
  then have "\<not> truthy (endTime (clearAllDayEndTime c))"
    by (rule clearAllDayEndTime_clears)
  then show ?thesis
    by (simp add: e preserveTypes_keeps)
qed

text \<open>
  Claim C2 says that in every branch of the merge a candidate without a \<^verbatim>\<open>time\<close> has its
  \<^verbatim>\<open>endTime\<close> cleared. The description and the combined branch do so (the lemma above).
  The frame branch does not: a complete frame analysis with no start time and the end
  time 22:00:00 leaves the merge unchanged, whatever the other inputs are.
\<close>

theorem mergeStage_frame_branch_keeps_endTime:
  "mergeStage ex md tr
     \<lparr> title = Some ''Jazz Night'', description = None, date = Some ''2025-12-05'',
       time = None, endTime = Some ''22:00:00'', location = None, eventType = None,
       venueType = None \<rparr>
     emptyAnalysis data
   = Inr \<lparr> title = Some ''Jazz Night'', description = None, date = Some ''2025-12-05'',
           time = None, endTime = Some ''22:00:00'', location = None, eventType = None,
           venueType = None \<rparr>"
  by (simp add: mergeStage_def mergeFromDescription_def emptyAnalysis_def)

lemma validateAndNormalize_no_date:
  assumes "\<not> truthy (date raw) \<or> date raw = Some ''null''"
    and "validateAndNormalize nd raw = Inr ev"
  shows "date ev = Some ''''"
  using assms by (auto simp: validateAndNormalize_def Let_def split: if_splits)

lemma extractFromText_no_date:
  assumes "gemini t = Inr raw"
    and "\<not> truthy (date raw) \<or> date raw = Some ''null''"
    and "extractFromText gemini nd t = Inr ev"
  shows "date ev = Some ''''"
proof -
  from assms(1,3) have "validateAndNormalize nd raw = Inr ev"
    by (simp add: extractFromText_def split: sum.splits)
  with assms(2) show ?thesis
    by (rule validateAndNormalize_no_date)
qed

lemma mergeStage_date_source:
  assumes "mergeStage ex md tr f d data = Inr e"
  shows "(truthy (date f) \<and> date e = date f) \<or> (truthy (date d) \<and> date e = date d)
       \<or> (\<exists>c. ex (combinedText md tr f d data) = Inr c \<and> date e = date c)"
  using assms
  by (auto simp: mergeStage_def mergeFromDescription_keeps preserveTypes_keeps
        clearAllDayEndTime_keeps split: if_splits sum.splits)

text \<open>
  Claim C5. The merge never fabricates a date: the date of the merged candidate is the
  date of the frame analysis, of the description analysis or of the combined extraction.
  When neither analysis has a date and the model's reply to the combined text has none
  (absent, empty or the string null), the merged date is the empty string; only
  \<open>eventDate\<close>, the caller's step after the merge, replaces it by today's date, and it
  leaves a date that is present untouched.
\<close>

theorem fusion_never_fabricates_date:
  "(mergeStage ex md tr f d data = Inr e \<longrightarrow>
      (truthy (date f) \<and> date e = date f) \<or> (truthy (date d) \<and> date e = date d)
      \<or> (\<exists>c. ex (combinedText md tr f d data) = Inr c \<and> date e = date c))
   \<and> (\<not> truthy (date f) \<and> \<not> truthy (date d)
        \<and> gemini (combinedText md tr f d data) = Inr raw
        \<and> (\<not> truthy (date raw) \<or> date raw = Some ''null'')
        \<and> mergeStage (extractFromText gemini nd) md tr f d data = Inr e' \<longrightarrow>
      date e' = Some '''' \<and> eventDate today e' = today)
   \<and> (truthy (date e) \<and> trim (or_empty (date e)) \<noteq> '''' \<longrightarrow> eventDate today e = or_empty (date e))"
proof (intro conjI impI)
  assume "mergeStage ex md tr f d data = Inr e"
  then show "(truthy (date f) \<and> date e = date f) \<or> (truthy (date d) \<and> date e = date d)
      \<or> (\<exists>c. ex (combinedText md tr f d data) = Inr c \<and> date e = date c)"
    by (rule mergeStage_date_source)
next
  assume h: "\<not> truthy (date f) \<and> \<not> truthy (date d)
        \<and> gemini (combinedText md tr f d data) = Inr raw
        \<and> (\<not> truthy (date raw) \<or> date raw = Some ''null'')
        \<and> mergeStage (extractFromText gemini nd) md tr f d data = Inr e'"
  then obtain c where c: "extractFromText gemini nd (combinedText md tr f d data) = Inr c"
      and e': "date e' = date c"
    using mergeStage_date_source [of "extractFromText gemini nd" md tr f d data e'] by auto
  have "date c = Some ''''"
    using h c by (intro extractFromText_no_date [of gemini _ raw nd c]) auto
  with e' show d: "date e' = Some ''''" by simp
  then show "eventDate today e' = today"
    by (simp add: eventDate_def)
next
  assume "truthy (date e) \<and> trim (or_empty (date e)) \<noteq> ''''"
  then show "eventDate today e = or_empty (date e)"
    by (simp add: eventDate_def)
qed

theorem fusion_never_fabricates_date_witness:
  "mergeStage
     (extractFromText
        (\<lambda>t. Inr \<lparr> title = Some ''Open Mic'', description = None, date = None, time = None,
                    endTime = None, location = None, eventType = None, venueType = None \<rparr>)
        (\<lambda>s. Inr s))
     \<lparr> md_title = None, md_description = None, md_imageUrl = None \<rparr> ''come to the open mic''
     emptyAnalysis emptyAnalysis ''https://youtu.be/abc''
   = Inr \<lparr> title = Some ''Open Mic'', description = None, date = Some '''', time = None,
           endTime = None, location = None, eventType = None, venueType = None \<rparr>
   \<and> date \<lparr> title = Some ''Open Mic'', description = None, date = Some '''', time = None,
           endTime = None, location = None, eventType = None, venueType = None \<rparr> = Some ''''
   \<and> eventDate ''2026-01-01''
        \<lparr> title = Some ''Open Mic'', description = None, date = Some '''', time = None,
          endTime = None, location = None, eventType = None, venueType = None \<rparr> = ''2026-01-01''"
proof -
  let ?raw = "\<lparr> title = Some ''Open Mic'', description = None, date = None, time = None,
                endTime = None, location = None, eventType = None, venueType = None \<rparr>"
  let ?g = "\<lambda>t :: string. Inr ?raw :: error + ExtractedEvent"
  let ?nd = "\<lambda>s :: string. Inr s :: error + string"
  let ?md = "\<lparr> md_title = None, md_description = None, md_imageUrl = None \<rparr>"
  let ?e = "\<lparr> title = Some ''Open Mic'', description = None, date = Some '''', time = None,
              endTime = None, location = None, eventType = None, venueType = None \<rparr>"
  have m: "mergeStage (extractFromText ?g ?nd) ?md ''come to the open mic''
             emptyAnalysis emptyAnalysis ''https://youtu.be/abc'' = Inr ?e"
    by (simp add: mergeStage_def emptyAnalysis_def extractFromText_def validateAndNormalize_def
          limitDescription_def trim_def is_space_def clearAllDayEndTime_def preserveTypes_def)
  have "date ?e = Some '''' \<and> eventDate ''2026-01-01'' ?e = ''2026-01-01''"
    using fusion_never_fabricates_date
      [of "extractFromText ?g ?nd" ?md "''come to the open mic''" emptyAnalysis emptyAnalysis
          "''https://youtu.be/abc''" ?e ?g ?raw ?nd ?e "''2026-01-01''"] m
    by (simp add: emptyAnalysis_def)
  with m show ?thesis by simp
qed

section \<open>Properties of the audio commands\<close>

text \<open>Under every strategy the audio command asks for mono 16 kHz 16-bit PCM without
  video, and the stream strategy limits it to the first 120 seconds.\<close>

lemma audio_format:
  "cmd_audioCodec (audioCommand videoUrl streamUrl videoPath audioPath) = Some ''pcm_s16le''
   \<and> cmd_audioFrequency (audioCommand videoUrl streamUrl videoPath audioPath) = Some 16000
   \<and> cmd_audioChannels (audioCommand videoUrl streamUrl videoPath audioPath) = Some 1
   \<and> cmd_noVideo (audioCommand videoUrl streamUrl videoPath audioPath)"
  by (simp add: audioCommand_def extractAudioFromUrl_command_def extractAudio_command_def
        noVideo_def duration_opt_def audioChannels_def audioFrequency_def audioCodec_def output_opt_def
        ffmpeg_def split: strategy.splits)

lemma stream_audio_bounded:
  "selectStrategy videoUrl = Stream \<Longrightarrow>
   cmd_duration (audioCommand videoUrl streamUrl videoPath audioPath) = Some 120"
  by (simp add: audioCommand_def extractAudioFromUrl_command_def
        noVideo_def duration_opt_def audioChannels_def audioFrequency_def audioCodec_def output_opt_def
        ffmpeg_def)

text \<open>
  Claim C7 says the audio track covers only the first 120 seconds under every strategy.
  The two download strategies run \<^verbatim>\<open>extractAudio\<close>, whose command sets no duration: for a
  TikTok URL and for a direct media URL the whole sound track is extracted; only the
  stream strategy carries the limit.
\<close>

theorem download_audio_unbounded:
  "selectStrategy ''https://www.tiktok.com/@club/video/7'' = DownloadedVideo
   \<and> cmd_duration (audioCommand ''https://www.tiktok.com/@club/video/7'' streamUrl videoPath audioPath) = None
   \<and> selectStrategy ''https://example.org/clip.mp4'' = DirectDownload
   \<and> cmd_duration (audioCommand ''https://example.org/clip.mp4'' streamUrl videoPath audioPath) = None
   \<and> selectStrategy ''https://youtu.be/abc'' = Stream
   \<and> cmd_duration (audioCommand ''https://youtu.be/abc'' streamUrl videoPath audioPath) = Some 120"
proof -
  have 1: "selectStrategy ''https://www.tiktok.com/@club/video/7'' = DownloadedVideo"
    by code_simp
  have 2: "selectStrategy ''https://example.org/clip.mp4'' = DirectDownload"
    by code_simp
  have 3: "selectStrategy ''https://youtu.be/abc'' = Stream"
    by code_simp
  show ?thesis
    by (simp add: 1 2 3 audioCommand_def extractAudioFromUrl_command_def extractAudio_command_def
        noVideo_def duration_opt_def audioChannels_def audioFrequency_def audioCodec_def output_opt_def
        ffmpeg_def)
qed

section \<open>Properties of the Code Decoder\<close>

lemma strategies_loop_first:
  "strategies_loop sts = Some url \<Longrightarrow>
   \<exists>i < length sts. (sts ! i) () = Inr (Some url) \<and> url \<noteq> []
      \<and> (\<forall>j < i. \<not> (\<exists>r. (sts ! j) () = Inr r \<and> truthy r))"
proof (induction sts)
  case Nil
  then show ?case by simp
next
  case (Cons st rest)
  show ?case
  proof (cases "\<exists>r. st () = Inr r \<and> truthy r")
    case True
    then obtain r where r: "st () = Inr r" "truthy r" by blast
    with Cons.prems have "r = Some url" by simp
    with r have "((st # rest) ! 0) () = Inr (Some url) \<and> url \<noteq> []" by simp
    then show ?thesis by (intro exI [of _ 0]) simp
  next
    case False
    then have "strategies_loop (st # rest) = strategies_loop rest"
      by (cases "st ()") auto
    with Cons.prems have "strategies_loop rest = Some url" by simp
    then obtain i where i: "i < length rest" "(rest ! i) () = Inr (Some url)" "url \<noteq> []"
        "\<forall>j < i. \<not> (\<exists>r. (rest ! j) () = Inr r \<and> truthy r)"
      using Cons.IH by blast
    have "\<forall>j < Suc i. \<not> (\<exists>r. ((st # rest) ! j) () = Inr r \<and> truthy r)"
    proof (intro allI impI)
      fix j assume "j < Suc i"
      then show "\<not> (\<exists>r. ((st # rest) ! j) () = Inr r \<and> truthy r)"
        using False i(4) by (cases j) auto
    qed
    with i(1,2,3) show ?thesis by (intro exI [of _ "Suc i"]) simp
  qed
qed

lemma strategies_loop_none:
  "strategies_loop sts = None \<longleftrightarrow> (\<forall>st \<in> set sts. \<not> (\<exists>r. st () = Inr r \<and> truthy r))"
proof (induction sts)
  case Nil
  then show ?case by simp
next
  case (Cons st rest)
  show ?case
  proof (cases "st ()")
    case (Inl e)
    with Cons.IH show ?thesis by simp
  next
    case (Inr r)
    with Cons.IH show ?thesis by (cases r) auto
  qed
qed

lemma decodeQRCode_valid:
  "decodeQRCode env px = Inr (Some url) \<Longrightarrow> isValidUrl env url"
  by (auto simp: decodeQRCode_def split: sum.splits if_splits)

lemma decodeDrawn_valid:
  "decodeDrawn env drawn = Inr (Some url) \<Longrightarrow> isValidUrl env url"
  by (auto simp: decodeDrawn_def split: sum.splits dest: decodeQRCode_valid)

lemma regions_loop_valid:
  "regions_loop env img regions = Inr (Some url) \<Longrightarrow> isValidUrl env url"
proof (induction regions)
  case Nil
  then show ?case by simp
next
  case (Cons region regions)
  show ?case
  proof (cases "decodeDrawn env (drawRegion env img region)")
    case (Inl e)
    with Cons.prems show ?thesis by simp
  next
    case (Inr result)
    show ?thesis
    proof (cases "truthy result")
      case True
      with Inr Cons.prems have "decodeDrawn env (drawRegion env img region) = Inr (Some url)"
        by simp
      then show ?thesis by (rule decodeDrawn_valid)
    next
      case False
      with Inr Cons.prems have "regions_loop env img regions = Inr (Some url)" by simp
      then show ?thesis by (rule Cons.IH)
    qed
  qed
qed

lemma strategies_valid:
  assumes "i < length (strategies env img)" and "(strategies env img ! i) () = Inr (Some url)"
  shows "isValidUrl env url"
proof -
  from assms(1) have "i < 6" by (simp add: strategies_def)
  then consider "i = 0" | "i = 1" | "i = 2" | "i = 3" | "i = 4" | "i = 5" by linarith
  then show ?thesis
  proof cases
    case 1
    with assms(2) show ?thesis
      by (auto simp: strategies_def tryExtractOriginal_def dest: decodeDrawn_valid)
  next
    case 2
    with assms(2) show ?thesis
      by (auto simp: strategies_def tryExtractResized_def dest: decodeDrawn_valid)
  next
    case 3
    with assms(2) show ?thesis
      by (auto simp: strategies_def tryExtractResized_def dest: decodeDrawn_valid)
  next
    case 4
    with assms(2) show ?thesis
      by (auto simp: strategies_def tryExtractGrayscale_def dest: decodeDrawn_valid)
  next
    case 5
    with assms(2) show ?thesis
      by (auto simp: strategies_def tryExtractHighContrast_def dest: decodeDrawn_valid)
  next
    case 6
    with assms(2) have "regions_loop env img [0, 1, 2, 3, 4, 5] = Inr (Some url)"
      by (simp add: strategies_def tryExtractFromRegions_def del: regions_loop.simps)
    then show ?thesis by (rule regions_loop_valid)
  qed
qed

lemma extractFromBase64_cases:
  "extractFromBase64 env s =
     Inr (if stripDataUri s = [] then None
          else (case loadImage env (stripDataUri s) of
                  Inl e \<Rightarrow> None
                | Inr img \<Rightarrow> strategies_loop (strategies env img)))"
  by (simp add: extractFromBase64_def extractFromBase64_try_def Let_def split: sum.splits)

text \<open>
  Claim C8. \<open>extractFromBase64\<close> never throws: its result is always a value. A URL it
  returns is non-empty, passes \<open>isValidUrl\<close> (an absolute URL whose protocol is http or
  https) and is the result of the first strategy of the chain that returned one, every
  earlier strategy having thrown or returned nothing. It returns \<^verbatim>\<open>null\<close> exactly when the
  image data is empty, the image cannot be loaded, or no strategy returns a URL.
\<close>

theorem extractFromBase64_first_valid_url:
  "(\<exists>r. extractFromBase64 env s = Inr r)
   \<and> (extractFromBase64 env s = Inr (Some url) \<longrightarrow>
        url \<noteq> [] \<and> isValidUrl env url
        \<and> (\<exists>img i. loadImage env (stripDataUri s) = Inr img \<and> i < length (strategies env img)
              \<and> (strategies env img ! i) () = Inr (Some url)
              \<and> (\<forall>j < i. \<not> (\<exists>r. (strategies env img ! j) () = Inr r \<and> truthy r))))
   \<and> (extractFromBase64 env s = Inr None \<longleftrightarrow>
        stripDataUri s = [] \<or> (\<exists>e. loadImage env (stripDataUri s) = Inl e)
        \<or> (\<exists>img. loadImage env (stripDataUri s) = Inr img
              \<and> (\<forall>st \<in> set (strategies env img). \<not> (\<exists>r. st () = Inr r \<and> truthy r))))"
proof -
  have never: "\<exists>r. extractFromBase64 env s = Inr r"
    by (simp add: extractFromBase64_cases)
  have found: "url \<noteq> [] \<and> isValidUrl env url
        \<and> (\<exists>img i. loadImage env (stripDataUri s) = Inr img \<and> i < length (strategies env img)
              \<and> (strategies env img ! i) () = Inr (Some url)
              \<and> (\<forall>j < i. \<not> (\<exists>r. (strategies env img ! j) () = Inr r \<and> truthy r)))"
    if a: "extractFromBase64 env s = Inr (Some url)"
  proof -
    from a obtain img where img: "loadImage env (stripDataUri s) = Inr img"
        and loop: "strategies_loop (strategies env img) = Some url"
      by (auto simp: extractFromBase64_cases split: if_splits sum.splits)
    from strategies_loop_first [OF loop] obtain i where
      i: "i < length (strategies env img)" "(strategies env img ! i) () = Inr (Some url)"
         "url \<noteq> []"
         "\<forall>j < i. \<not> (\<exists>r. (strategies env img ! j) () = Inr r \<and> truthy r)"
      by blast
    from i(1,2) have "isValidUrl env url" by (rule strategies_valid)
    with img i show ?thesis by blast
  qed
  have absent: "extractFromBase64 env s = Inr None \<longleftrightarrow>
        stripDataUri s = [] \<or> (\<exists>e. loadImage env (stripDataUri s) = Inl e)
        \<or> (\<exists>img. loadImage env (stripDataUri s) = Inr img
              \<and> (\<forall>st \<in> set (strategies env img). \<not> (\<exists>r. st () = Inr r \<and> truthy r)))"
    by (cases "loadImage env (stripDataUri s)")
       (simp_all add: extractFromBase64_cases strategies_loop_none)
  from never found absent show ?thesis by blast
qed

theorem extractFromBase64_first_valid_url_witness:
  "extractFromBase64
      \<lparr> loadImage = (\<lambda>data. Inr (0::nat)),
        drawOriginal = (\<lambda>img. Inr (10::nat)),
        drawResized = (\<lambda>img maxDimension. Inl (Error ''canvas'')),
        drawGrayscale = (\<lambda>img. Inr 30),
        drawHighContrast = (\<lambda>img. Inr 40),
        drawRegion = (\<lambda>img region. Inr (50 + region)),
        jsQR = (\<lambda>px inversion.
                  if px = 10 then Inr (Some ''WIFI:S:guest;;'')
                  else if px = 30 \<and> inversion = attemptBoth then Inr (Some '' https://a.example/x '')
                  else if px = 40 then Inr (Some ''https://b.example/y'')
                  else Inr None),
        urlProtocol = (\<lambda>url. if take 8 url = ''https://'' then Some ''https:'' else None) \<rparr>
      ''data:image/png;base64,QUJD'' = Inr (Some ''https://a.example/x'')
   \<and> isValidUrl
      \<lparr> loadImage = (\<lambda>data. Inr (0::nat)),
        drawOriginal = (\<lambda>img. Inr (10::nat)),
        drawResized = (\<lambda>img maxDimension. Inl (Error ''canvas'')),
        drawGrayscale = (\<lambda>img. Inr 30),
        drawHighContrast = (\<lambda>img. Inr 40),
        drawRegion = (\<lambda>img region. Inr (50 + region)),
        jsQR = (\<lambda>px inversion.
                  if px = 10 then Inr (Some ''WIFI:S:guest;;'')
                  else if px = 30 \<and> inversion = attemptBoth then Inr (Some '' https://a.example/x '')
                  else if px = 40 then Inr (Some ''https://b.example/y'')
                  else Inr None),
        urlProtocol = (\<lambda>url. if take 8 url = ''https://'' then Some ''https:'' else None) \<rparr>
      ''https://a.example/x''
   \<and> extractFromBase64
      \<lparr> loadImage = (\<lambda>data. Inr (0::nat)),
        drawOriginal = (\<lambda>img. Inr (10::nat)),
        drawResized = (\<lambda>img maxDimension. Inl (Error ''canvas'')),
        drawGrayscale = (\<lambda>img. Inr 30),
        drawHighContrast = (\<lambda>img. Inr 40),
        drawRegion = (\<lambda>img region. Inr (50 + region)),
        jsQR = (\<lambda>px inversion.
                  if px = 10 then Inr (Some ''WIFI:S:guest;;'')
                  else if px = 30 \<and> inversion = attemptBoth then Inr (Some '' https://a.example/x '')
                  else if px = 40 then Inr (Some ''https://b.example/y'')
                  else Inr None),
        urlProtocol = (\<lambda>url. if take 8 url = ''https://'' then Some ''https:'' else None) \<rparr>
      ''data:image/png;base64,'' = Inr None"
proof -
  let ?env = "\<lparr> loadImage = (\<lambda>data. Inr (0::nat)),
        drawOriginal = (\<lambda>img. Inr (10::nat)),
        drawResized = (\<lambda>img maxDimension. Inl (Error ''canvas'')),
        drawGrayscale = (\<lambda>img. Inr 30),
        drawHighContrast = (\<lambda>img. Inr 40),
        drawRegion = (\<lambda>img region. Inr (50 + region)),
        jsQR = (\<lambda>px inversion.
                  if px = 10 then Inr (Some ''WIFI:S:guest;;'')
                  else if px = 30 \<and> inversion = attemptBoth then Inr (Some '' https://a.example/x '')
                  else if px = 40 then Inr (Some ''https://b.example/y'')
                  else Inr None),
        urlProtocol = (\<lambda>url. if take 8 url = ''https://'' then Some ''https:'' else None) \<rparr>"
  have found: "extractFromBase64 ?env ''data:image/png;base64,QUJD'' = Inr (Some ''https://a.example/x'')"
    by code_simp
  have empty: "stripDataUri ''data:image/png;base64,'' = []"
    by code_simp
  from extractFromBase64_first_valid_url [of ?env "''data:image/png;base64,QUJD''" "''https://a.example/x''"]
    found
  have "isValidUrl ?env ''https://a.example/x''"
    by blast
  moreover from extractFromBase64_first_valid_url [of ?env "''data:image/png;base64,''"] empty
  have "extractFromBase64 ?env ''data:image/png;base64,'' = Inr None"
    by blast
  ultimately show ?thesis using found by blast
qed

section \<open>Properties of the Speech Transcriber\<close>

lemma those_map_Some: "those (map Some xs) = Some xs"
  by (induction xs) simp_all

lemma settle_fulfilled:
  assumes "length slots = length xs"
    and "\<forall>i < length xs. slots ! i = None \<or> slots ! i = Some (xs ! i)"
    and "\<forall>i < length xs. slots ! i \<noteq> None \<or> i \<in> set order"
  shows "settle order (map Inr xs) slots = Some (Inr xs)"
  using assms
proof (induction order arbitrary: slots)
  case Nil
  have "slots = map Some xs"
  proof (rule nth_equalityI)
    show "length slots = length (map Some xs)"
      using Nil.prems(1) by simp
  next
    fix i assume "i < length slots"
    then have i: "i < length xs"
      using Nil.prems(1) by simp
    from Nil.prems(3) i have "slots ! i \<noteq> None"
      by simp
    moreover from Nil.prems(2) i have "slots ! i = None \<or> slots ! i = Some (xs ! i)"
      by blast
    ultimately have "slots ! i = Some (xs ! i)"
      by (elim disjE) simp_all
    moreover have "map Some xs ! i = Some (xs ! i)"
      using i by simp
    ultimately show "slots ! i = map Some xs ! i"
      by (simp only:)
  qed
  then have "those slots = Some xs"
    by (simp only: those_map_Some)
  then show ?case by simp
next
  case (Cons i order)
  show ?case
  proof (cases "i < length xs")
    case True
    let ?slots = "slots[i := Some (xs ! i)]"
    have 1: "length ?slots = length xs"
      using Cons.prems(1) by simp
    have 2: "\<forall>j < length xs. ?slots ! j = None \<or> ?slots ! j = Some (xs ! j)"
    proof (intro allI impI)
      fix j assume j: "j < length xs"
      show "?slots ! j = None \<or> ?slots ! j = Some (xs ! j)"
      proof (cases "j = i")
        case True
        then have "?slots ! j = Some (xs ! j)"
          using j Cons.prems(1) by simp
        then show ?thesis by (rule disjI2)
      next
        case False
        then have "?slots ! j = slots ! j"
          by simp
        moreover from Cons.prems(2) j have "slots ! j = None \<or> slots ! j = Some (xs ! j)"
          by blast
        ultimately show ?thesis by (simp only:)
      qed
    qed
    have 3: "\<forall>j < length xs. ?slots ! j \<noteq> None \<or> j \<in> set order"
    proof (intro allI impI)
      fix j assume j: "j < length xs"
      show "?slots ! j \<noteq> None \<or> j \<in> set order"
      proof (cases "j = i")
        case True
        then have "?slots ! j = Some (xs ! j)"
          using j Cons.prems(1) by simp
        then show ?thesis by simp
      next
        case False
        then have eq: "?slots ! j = slots ! j"
          by simp
        from Cons.prems(3) j have "slots ! j \<noteq> None \<or> j \<in> set (i # order)"
          by blast
        with False have "slots ! j \<noteq> None \<or> j \<in> set order"
          by auto
        with eq show ?thesis by (simp only:)
      qed
    qed
    have "settle order (map Inr xs) ?slots = Some (Inr xs)"
      using 1 2 3 by (rule Cons.IH)
    moreover have "settle (i # order) (map Inr xs) slots = settle order (map Inr xs) ?slots"
      using True by simp
    ultimately show ?thesis by (simp only:)
  next
    case False
    have 3: "\<forall>j < length xs. slots ! j \<noteq> None \<or> j \<in> set order"
    proof (intro allI impI)
      fix j assume j: "j < length xs"
      from Cons.prems(3) j have "slots ! j \<noteq> None \<or> j \<in> set (i # order)"
        by blast
      moreover have "j \<noteq> i"
        using j False by auto
      ultimately show "slots ! j \<noteq> None \<or> j \<in> set order"
        by auto
    qed
    have "settle order (map Inr xs) slots = Some (Inr xs)"
      using Cons.prems(1,2) 3 by (rule Cons.IH)
    moreover have "settle (i # order) (map Inr xs) slots = settle order (map Inr xs) slots"
      using False by simp
    ultimately show ?thesis by (simp only:)
  qed
qed

lemma promise_all_fulfilled:
  assumes "\<forall>i < length xs. i \<in> set order"
  shows "promise_all order (map Inr xs) = Some (Inr xs)"
  unfolding promise_all_def using assms by (intro settle_fulfilled) simp_all

lemma settle_rejected:
  "settle order outcomes slots = Some (Inl e) \<Longrightarrow> \<exists>i < length outcomes. outcomes ! i = Inl e"
proof (induction order arbitrary: slots)
  case Nil
  then show ?case by (simp split: option.splits)
next
  case (Cons i order)
  show ?case
  proof (cases "i < length outcomes")
    case True
    show ?thesis
    proof (cases "outcomes ! i")
      case (Inl c)
      with True Cons.prems have "c = e" by simp
      with Inl True show ?thesis by blast
    next
      case (Inr v)
      with True Cons.prems have "settle order outcomes (slots[i := Some v]) = Some (Inl e)"
        by simp
      then show ?thesis by (rule Cons.IH)
    qed
  next
    case False
    with Cons.prems have "settle order outcomes slots = Some (Inl e)" by simp
    then show ?thesis by (rule Cons.IH)
  qed
qed

lemma promise_all_rejected:
  "promise_all order outcomes = Some (Inl e) \<Longrightarrow> \<exists>i < length outcomes. outcomes ! i = Inl e"
  unfolding promise_all_def by (rule settle_rejected)

lemma settle_rejects:
  assumes "i \<in> set order" and "i < length outcomes" and "outcomes ! i = Inl x"
  shows "\<exists>e. settle order outcomes slots = Some (Inl e)
           \<and> (\<exists>j < length outcomes. outcomes ! j = Inl e)"
  using assms(1)
proof (induction order arbitrary: slots)
  case Nil
  then show ?case by simp
next
  case (Cons k order)
  show ?case
  proof (cases "k < length outcomes")
    case True
    show ?thesis
    proof (cases "outcomes ! k")
      case (Inl e)
      with True have "settle (k # order) outcomes slots = Some (Inl e)" by simp
      with Inl True show ?thesis by blast
    next
      case (Inr v)
      with assms(3) have "k \<noteq> i" by auto
      with Cons.prems have "i \<in> set order" by simp
      then have "\<exists>e. settle order outcomes (slots[k := Some v]) = Some (Inl e)
           \<and> (\<exists>j < length outcomes. outcomes ! j = Inl e)"
        by (rule Cons.IH)
      moreover have "settle (k # order) outcomes slots = settle order outcomes (slots[k := Some v])"
        using True Inr by simp
      ultimately show ?thesis by (simp only:)
    qed
  next
    case False
    with assms(2) have "k \<noteq> i" by auto
    with Cons.prems have "i \<in> set order" by simp
    then have "\<exists>e. settle order outcomes slots = Some (Inl e)
           \<and> (\<exists>j < length outcomes. outcomes ! j = Inl e)"
      by (rule Cons.IH)
    moreover have "settle (k # order) outcomes slots = settle order outcomes slots"
      using False by simp
    ultimately show ?thesis by (simp only:)
  qed
qed

lemma promise_all_rejects:
  assumes "i \<in> set order" and "i < length outcomes" and "outcomes ! i = Inl x"
  shows "\<exists>e. promise_all order outcomes = Some (Inl e)
           \<and> (\<exists>j < length outcomes. outcomes ! j = Inl e)"
  unfolding promise_all_def using assms by (rule settle_rejects)

lemma chunkCommand_window:
  "cmd_input (chunkCommand audioPath (i * chunkDuration) target) = audioPath
   \<and> cmd_seekInput (chunkCommand audioPath (i * chunkDuration) target) = Some (of_nat (i * 30))
   \<and> cmd_duration (chunkCommand audioPath (i * chunkDuration) target) = Some 30
   \<and> cmd_output (chunkCommand audioPath (i * chunkDuration) target) = Some target"
  by (simp add: chunkCommand_def chunkDuration_def audioChannels_def audioFrequency_def
        audioCodec_def output_opt_def duration_opt_def seekInput_def ffmpeg_def)

lemma chunkPromises_fulfilled:
  assumes "\<forall>i < n. runFfmpeg env (chunkCommand audioPath (i * chunkDuration) (chunkPath env dir i)) = Inr ()"
  shows "map (\<lambda>i. map_sum id (\<lambda>u. map (chunkPath env dir) [0..<n] ! i)
                 (runFfmpeg env (chunkCommand audioPath (i * chunkDuration)
                    (map (chunkPath env dir) [0..<n] ! i)))) [0..<n]
         = (map Inr (map (chunkPath env dir) [0..<n]) :: (error + string) list)"
proof (rule nth_equalityI)
  show "length (map (\<lambda>i. map_sum id (\<lambda>u. map (chunkPath env dir) [0..<n] ! i)
                 (runFfmpeg env (chunkCommand audioPath (i * chunkDuration)
                    (map (chunkPath env dir) [0..<n] ! i)))) [0..<n])
       = length (map Inr (map (chunkPath env dir) [0..<n]) :: (error + string) list)"
    by simp
next
  fix i
  assume "i < length (map (\<lambda>i. map_sum id (\<lambda>u. map (chunkPath env dir) [0..<n] ! i)
                 (runFfmpeg env (chunkCommand audioPath (i * chunkDuration)
                    (map (chunkPath env dir) [0..<n] ! i)))) [0..<n])"
  then have i: "i < n" by simp
  with assms have "runFfmpeg env (chunkCommand audioPath (i * chunkDuration) (chunkPath env dir i)) = Inr ()"
    by blast
  with i show "map (\<lambda>i. map_sum id (\<lambda>u. map (chunkPath env dir) [0..<n] ! i)
                 (runFfmpeg env (chunkCommand audioPath (i * chunkDuration)
                    (map (chunkPath env dir) [0..<n] ! i)))) [0..<n] ! i
         = (map Inr (map (chunkPath env dir) [0..<n]) :: (error + string) list) ! i"
    by simp
qed

lemma transcribeInChunks_body:
  assumes "speechClient env" and "ffprobe env audioPath = Inr d"
  shows "transcribeInChunks env extractOrder transcribeOrder audioPath =
     (case promise_all extractOrder
             (map (\<lambda>i. map_sum id (\<lambda>u. map (chunkPath env (dirname env audioPath)) [0..<nat \<lceil>d / 30\<rceil>] ! i)
                 (runFfmpeg env (chunkCommand audioPath (i * chunkDuration)
                    (map (chunkPath env (dirname env audioPath)) [0..<nat \<lceil>d / 30\<rceil>] ! i))))
               [0..<nat \<lceil>d / 30\<rceil>]) of
        None \<Rightarrow> None
      | Some (Inl e) \<Rightarrow> Some (Inl e)
      | Some (Inr extracted) \<Rightarrow>
          (case promise_all transcribeOrder
                  (map (\<lambda>target. Inr (transcribeChunk env target))
                     (map (chunkPath env (dirname env audioPath)) [0..<nat \<lceil>d / 30\<rceil>])) of
             None \<Rightarrow> None
           | Some (Inl e) \<Rightarrow> Some (Inl e)
           | Some (Inr chunkTranscriptions) \<Rightarrow>
               Some (Inr (join '' '' (filter (\<lambda>t. t \<noteq> []) chunkTranscriptions)))))"
  using assms by (simp add: transcribeInChunks_def Let_def comp_def chunkDuration_def)

lemma transcribeInChunks_fulfilled:
  assumes client: "speechClient env"
    and probe: "ffprobe env audioPath = Inr d"
    and extracted: "\<forall>i < nat \<lceil>d / 30\<rceil>.
        runFfmpeg env (chunkCommand audioPath (i * chunkDuration)
          (chunkPath env (dirname env audioPath) i)) = Inr ()"
    and o1: "\<forall>i < nat \<lceil>d / 30\<rceil>. i \<in> set extractOrder"
    and o2: "\<forall>i < nat \<lceil>d / 30\<rceil>. i \<in> set transcribeOrder"
  shows "transcribeInChunks env extractOrder transcribeOrder audioPath =
     Some (Inr (join '' '' (filter (\<lambda>t. t \<noteq> [])
       (map (transcribeChunk env) (map (chunkPath env (dirname env audioPath))
          [0..<nat \<lceil>d / 30\<rceil>])))))"
proof -
  let ?n = "nat \<lceil>d / 30\<rceil>"
  let ?chunks = "map (chunkPath env (dirname env audioPath)) [0..<?n]"
  have o1': "\<forall>i < length ?chunks. i \<in> set extractOrder"
    using o1 by simp
  have o2': "\<forall>i < length (map (transcribeChunk env) ?chunks). i \<in> set transcribeOrder"
    using o2 by simp
  have ex: "promise_all extractOrder
      (map (\<lambda>i. map_sum id (\<lambda>u. ?chunks ! i)
                 (runFfmpeg env (chunkCommand audioPath (i * chunkDuration) (?chunks ! i))))
         [0..<?n]) = Some (Inr ?chunks)"
    by (subst chunkPromises_fulfilled [OF extracted]) (rule promise_all_fulfilled [OF o1'])
  have "map (\<lambda>target. Inr (transcribeChunk env target) :: error + string) ?chunks
      = map Inr (map (transcribeChunk env) ?chunks)"
    by (simp add: comp_def)
  then have tr: "promise_all transcribeOrder
        (map (\<lambda>target. Inr (transcribeChunk env target)) ?chunks)
      = Some (Inr (map (transcribeChunk env) ?chunks))"
    using promise_all_fulfilled [OF o2'] by (simp only:)
  show ?thesis
    by (subst transcribeInChunks_body [OF client probe]) (simp only: ex tr option.case sum.case)
qed

text \<open>
  Claim C9. In chunked transcription the audio is cut into 30 second chunks, chunk \<open>i\<close>
  starting at second \<open>30 * i\<close>; the chunks are transcribed concurrently, and for every
  order in which the extractions and the transcriptions settle the result is the
  transcripts of the chunks joined in chunk-index order.
\<close>

theorem transcribeInChunks_preserves_chunk_order:
  assumes "speechClient env"
    and "ffprobe env audioPath = Inr d"
    and "\<forall>i < nat \<lceil>d / 30\<rceil>.
        runFfmpeg env (chunkCommand audioPath (i * chunkDuration)
          (chunkPath env (dirname env audioPath) i)) = Inr ()"
    and "\<forall>i < nat \<lceil>d / 30\<rceil>. i \<in> set extractOrder"
    and "\<forall>i < nat \<lceil>d / 30\<rceil>. i \<in> set transcribeOrder"
  shows "transcribeInChunks env extractOrder transcribeOrder audioPath =
           Some (Inr (join '' '' (filter (\<lambda>t. t \<noteq> [])
             (map (transcribeChunk env) (map (chunkPath env (dirname env audioPath))
                [0..<nat \<lceil>d / 30\<rceil>])))))
         \<and> cmd_seekInput (chunkCommand audioPath (k * chunkDuration) target) = Some (of_nat (k * 30))
         \<and> cmd_duration (chunkCommand audioPath (k * chunkDuration) target) = Some 30"
  using transcribeInChunks_fulfilled [OF assms] chunkCommand_window [of audioPath k target]
  by (simp only: simp_thms)

theorem transcribeInChunks_preserves_chunk_order_witness:
  "transcribeInChunks
     \<lparr> speechClient = True,
       statSync = (\<lambda>p. Inr 20000000),
       readFileSync = (\<lambda>p. Inr p),
       recognize = (\<lambda>audioBytes. if audioBytes = ''temp/chunk-1-1001.wav'' then Inl (Error ''quota'')
                     else Inr (Some [Some (''heard '' @ audioBytes)])),
       ffprobe = (\<lambda>p. Inr 90),
       runFfmpeg = (\<lambda>c. Inr ()),
       unlinkSync = (\<lambda>p. Inr ()),
       dirname = (\<lambda>p. ''temp''), path_join = (\<lambda>dir name. dir @ ''/'' @ name),
       now = (\<lambda>i. 1000 + i) \<rparr>
     [2, 0, 1] [1, 2, 0] ''temp/audio-1.wav''
   = Some (Inr ''heard temp/chunk-0-1000.wav heard temp/chunk-2-1002.wav'')"
proof -
  let ?env = "\<lparr> speechClient = True,
       statSync = (\<lambda>p. Inr 20000000),
       readFileSync = (\<lambda>p. Inr p),
       recognize = (\<lambda>audioBytes. if audioBytes = ''temp/chunk-1-1001.wav'' then Inl (Error ''quota'')
                     else Inr (Some [Some (''heard '' @ audioBytes)])),
       ffprobe = (\<lambda>p. Inr 90),
       runFfmpeg = (\<lambda>c. Inr ()),
       unlinkSync = (\<lambda>p. Inr ()),
       dirname = (\<lambda>p. ''temp''), path_join = (\<lambda>dir name. dir @ ''/'' @ name),
       now = (\<lambda>i. 1000 + i) \<rparr>"
  have h1: "speechClient ?env"
    by simp
  have h2: "ffprobe ?env ''temp/audio-1.wav'' = Inr 90"
    by simp
  have h3: "\<forall>i < nat \<lceil>(90 :: rat) / 30\<rceil>.
        runFfmpeg ?env (chunkCommand ''temp/audio-1.wav'' (i * chunkDuration)
          (chunkPath ?env (dirname ?env ''temp/audio-1.wav'') i)) = Inr ()"
    by simp
  have cover: "i \<in> set [2, 0, 1] \<and> i \<in> set [1, 2, 0]"
    if "i < nat \<lceil>(90 :: rat) / 30\<rceil>" for i :: nat
  proof -
    from that have "i < 3" by simp
    then have "i = 0 \<or> i = 1 \<or> i = 2" by linarith
    then show ?thesis by (elim disjE) simp_all
  qed
  have h4: "\<forall>i < nat \<lceil>(90 :: rat) / 30\<rceil>. i \<in> set [2, 0, 1]"
    using cover by blast
  have h5: "\<forall>i < nat \<lceil>(90 :: rat) / 30\<rceil>. i \<in> set [1, 2, 0]"
    using cover by blast
  have ts: "toString 0 = ''0''" "toString 1 = ''1''" "toString 2 = ''2''"
      "toString 1000 = ''1000''" "toString 1001 = ''1001''" "toString 1002 = ''1002''"
    by code_simp+
  have idx: "[0..<nat \<lceil>(90 :: rat) / 30\<rceil>] = [0, 1, 2]"
    by (simp add: upt_rec)
  have paths: "map (chunkPath ?env (dirname ?env ''temp/audio-1.wav'')) [0, 1, 2]
       = [''temp/chunk-0-1000.wav'', ''temp/chunk-1-1001.wav'', ''temp/chunk-2-1002.wav'']"
    by (simp add: chunkPath_def ts)
  have texts: "map (transcribeChunk ?env)
         [''temp/chunk-0-1000.wav'', ''temp/chunk-1-1001.wav'', ''temp/chunk-2-1002.wav'']
       = [''heard temp/chunk-0-1000.wav'', [], ''heard temp/chunk-2-1002.wav'']"
    by (simp add: transcribeChunk_def joinTranscripts_def)
  have v: "join '' '' (filter (\<lambda>t. t \<noteq> [])
             (map (transcribeChunk ?env) (map (chunkPath ?env (dirname ?env ''temp/audio-1.wav''))
                [0..<nat \<lceil>(90 :: rat) / 30\<rceil>])))
         = ''heard temp/chunk-0-1000.wav heard temp/chunk-2-1002.wav''"
    by (simp only: idx paths texts) simp
  from transcribeInChunks_preserves_chunk_order [OF h1 h2 h3 h4 h5] v
  show ?thesis by (simp only:)
qed

lemma transcribeInChunks_error:
  assumes "transcribeInChunks env extractOrder transcribeOrder audioPath = Some (Inl c)"
    and "speechClient env"
  shows "ffprobe env audioPath = Inl c \<or> (\<exists>cmd. runFfmpeg env cmd = Inl c)"
proof (cases "ffprobe env audioPath")
  case (Inl e)
  with assms show ?thesis
    by (simp add: transcribeInChunks_def)
next
  case (Inr d)
  let ?chunks = "map (chunkPath env (dirname env audioPath)) [0..<nat \<lceil>d / 30\<rceil>]"
  let ?promises = "map (\<lambda>i. map_sum id (\<lambda>u. ?chunks ! i)
                 (runFfmpeg env (chunkCommand audioPath (i * chunkDuration) (?chunks ! i))))
               [0..<nat \<lceil>d / 30\<rceil>]"
  let ?jobs = "map (\<lambda>target. Inr (transcribeChunk env target) :: error + string) ?chunks"
  note body = transcribeInChunks_body [OF assms(2) Inr, of extractOrder transcribeOrder]
  show ?thesis
  proof (cases "promise_all extractOrder ?promises")
    case None
    with body assms(1) show ?thesis by simp
  next
    case (Some r)
    show ?thesis
    proof (cases r)
      case (Inl e)
      with Some body assms(1) have "e = c" by simp
      with Some Inl have "promise_all extractOrder ?promises = Some (Inl c)" by simp
      then obtain i where i: "i < length ?promises" "?promises ! i = Inl c"
        using promise_all_rejected by blast
      then have "map_sum id (\<lambda>u. ?chunks ! i)
          (runFfmpeg env (chunkCommand audioPath (i * chunkDuration) (?chunks ! i))) = Inl c"
        by simp
      then have "runFfmpeg env (chunkCommand audioPath (i * chunkDuration) (?chunks ! i)) = Inl c"
        by (cases "runFfmpeg env (chunkCommand audioPath (i * chunkDuration) (?chunks ! i))")
           simp_all
      then show ?thesis by blast
    next
      case (Inr extracted)
      with Some body assms(1) have
        "(case promise_all transcribeOrder ?jobs of
            None \<Rightarrow> None
          | Some (Inl e) \<Rightarrow> Some (Inl e)
          | Some (Inr chunkTranscriptions) \<Rightarrow>
              Some (Inr (join '' '' (filter (\<lambda>t. t \<noteq> []) chunkTranscriptions))))
         = Some (Inl c)"
        by simp
      then have "promise_all transcribeOrder ?jobs = Some (Inl c)"
        by (simp split: option.splits sum.splits)
      then obtain i where "i < length ?jobs" "?jobs ! i = Inl c"
        using promise_all_rejected by blast
      then have False by simp
      then show ?thesis ..
    qed
  qed
qed

lemma transcribe_wraps:
  "transcribe env extractOrder transcribeOrder audioPath =
     (if speechClient env
      then (case transcribeWithGoogleSpeech env extractOrder transcribeOrder audioPath of
              None \<Rightarrow> None
            | Some (Inl e) \<Rightarrow> Some (Inl (Error (''Failed to transcribe audio: '' @ message e)))
            | Some (Inr t) \<Rightarrow> Some (Inr t))
      else Some (Inr ''''))"
  by (simp add: transcribe_def transcribeWithGemini_def)

lemma transcribeWithGoogleSpeech_error:
  assumes "transcribeWithGoogleSpeech env extractOrder transcribeOrder audioPath = Some (Inl c)"
    and "speechClient env"
  shows "statSync env audioPath = Inl c \<or> readFileSync env audioPath = Inl c
       \<or> ffprobe env audioPath = Inl c \<or> (\<exists>cmd. runFfmpeg env cmd = Inl c)"
proof -
  from assms have
    "statSync env audioPath = Inl c \<or> readFileSync env audioPath = Inl c
     \<or> transcribeInChunks env extractOrder transcribeOrder audioPath = Some (Inl c)"
    by (auto simp: transcribeWithGoogleSpeech_def Let_def split: sum.splits if_splits option.splits)
  with assms(2) show ?thesis
    using transcribeInChunks_error by blast
qed

lemma transcribeInChunks_extraction_fails:
  assumes client: "speechClient env"
    and probe: "ffprobe env audioPath = Inr d"
    and i: "i < nat \<lceil>d / 30\<rceil>" "i \<in> set extractOrder"
    and fails: "runFfmpeg env (chunkCommand audioPath (i * chunkDuration)
                  (chunkPath env (dirname env audioPath) i)) = Inl x"
  shows "\<exists>cause. transcribeInChunks env extractOrder transcribeOrder audioPath = Some (Inl cause)
           \<and> (\<exists>j < nat \<lceil>d / 30\<rceil>.
                 runFfmpeg env (chunkCommand audioPath (j * chunkDuration)
                   (chunkPath env (dirname env audioPath) j)) = Inl cause)"
proof -
  let ?n = "nat \<lceil>d / 30\<rceil>"
  let ?chunks = "map (chunkPath env (dirname env audioPath)) [0..<?n]"
  let ?promises = "map (\<lambda>i. map_sum id (\<lambda>u. ?chunks ! i)
                 (runFfmpeg env (chunkCommand audioPath (i * chunkDuration) (?chunks ! i))))
               [0..<?n]"
  have len: "length ?promises = ?n" by simp
  have "?promises ! i = Inl x"
    using i(1) fails by simp
  with i len obtain e where e: "promise_all extractOrder ?promises = Some (Inl e)"
    and "\<exists>j < length ?promises. ?promises ! j = Inl e"
    using promise_all_rejects [of i extractOrder ?promises x] by auto
  then obtain j where j: "j < ?n" "?promises ! j = Inl e"
    using len by auto
  then have "map_sum id (\<lambda>u. ?chunks ! j)
      (runFfmpeg env (chunkCommand audioPath (j * chunkDuration)
         (chunkPath env (dirname env audioPath) j))) = Inl e"
    by simp
  then have cause: "runFfmpeg env (chunkCommand audioPath (j * chunkDuration)
         (chunkPath env (dirname env audioPath) j)) = Inl e"
    by (cases "runFfmpeg env (chunkCommand audioPath (j * chunkDuration)
         (chunkPath env (dirname env audioPath) j))") simp_all
  have "transcribeInChunks env extractOrder transcribeOrder audioPath = Some (Inl e)"
    by (subst transcribeInChunks_body [OF client probe]) (simp only: e option.case sum.case)
  with j(1) cause show ?thesis by blast
qed

lemma transcribe_chunked:
  assumes "speechClient env" and "statSync env audioPath = Inr fileSize"
    and "10 < rat_of_nat fileSize / (1024 * 1024)
         \<or> readFileSync env audioPath = Inr audioBytes \<and> recognize env audioBytes = Inl c"
  shows "transcribe env extractOrder transcribeOrder audioPath =
        (case transcribeInChunks env extractOrder transcribeOrder audioPath of
           None \<Rightarrow> None
         | Some (Inl e) \<Rightarrow> Some (Inl (Error (''Failed to transcribe audio: '' @ message e)))
         | Some (Inr t) \<Rightarrow> Some (Inr t))"
proof (cases "rat_of_nat fileSize / (1024 * 1024) \<le> 10")
  case True
  with assms(3) have "readFileSync env audioPath = Inr audioBytes"
    and "recognize env audioBytes = Inl c" by auto
  with assms(1,2) True show ?thesis
    by (simp add: transcribe_wraps transcribeWithGoogleSpeech_def)
next
  case False
  with assms(1,2) show ?thesis
    by (simp add: transcribe_wraps transcribeWithGoogleSpeech_def)
qed

lemma joinTranscripts_Nil: "joinTranscripts [] = ''''"
  by (simp add: joinTranscripts_def)

text \<open>
  Claim C3 says that \<open>transcribe\<close> never propagates an error. It does: when the
  synchronous recognition fails and the duration probe of the chunked path fails too, the
  error is rethrown with the prefix of \<^verbatim>\<open>transcribe\<close>.
\<close>

theorem transcribe_rethrows_counterexample:
  "transcribe
     \<lparr> speechClient = True,
       statSync = (\<lambda>p. Inr 1920044),
       readFileSync = (\<lambda>p. Inr ''UklGRg=='') ,
       recognize = (\<lambda>audioBytes. Inl (Error ''14 UNAVAILABLE'')),
       ffprobe = (\<lambda>p. Inl (Error ''ffprobe exited with code 1'')),
       runFfmpeg = (\<lambda>c. Inr ()),
       unlinkSync = (\<lambda>p. Inr ()),
       dirname = (\<lambda>p. ''temp''), path_join = (\<lambda>dir name. dir @ ''/'' @ name),
       now = (\<lambda>i. 1000) \<rparr>
     [] [] ''temp/audio-1.wav''
   = Some (Inl (Error ''Failed to transcribe audio: ffprobe exited with code 1''))"
  by (simp add: transcribe_def transcribeWithGoogleSpeech_def transcribeInChunks_def)

text \<open>
  Claim C3 as amended. Without a speech client \<open>transcribe\<close> returns the empty string.
  With one, a file of at most 10 MB that can be read and recognised gives the joined
  transcripts of the response. A file over 10 MB, or a failed synchronous recognition,
  goes to the chunked path; when the probe and every chunk extraction succeed and every
  chunk task settles, the result is the non-empty chunk transcripts joined in order, a
  chunk whose read, recognition or removal fails counting as the empty string. An error
  reaches the caller only with a speech client, always as
  \<^verbatim>\<open>Failed to transcribe audio: ...\<close>, and its cause is an error of \<^verbatim>\<open>statSync\<close>,
  \<^verbatim>\<open>readFileSync\<close>, the probe or a chunk extraction; each of the four does reach it: a
  failing \<^verbatim>\<open>statSync\<close>, a failing \<^verbatim>\<open>readFileSync\<close> of the audio file, a failing probe on
  the chunked path, and on that path a failing extraction of a chunk whose task settles.
  The transcription track of the route turns such an error into the empty string.
\<close>

theorem transcribe_failure_modes:
  "(\<not> speechClient env \<longrightarrow> transcribe env extractOrder transcribeOrder audioPath = Some (Inr ''''))
   \<and> (speechClient env \<and> statSync env audioPath = Inr fileSize
        \<and> (10 < rat_of_nat fileSize / (1024 * 1024)
            \<or> readFileSync env audioPath = Inr audioBytes \<and> recognize env audioBytes = Inl c) \<longrightarrow>
      transcribe env extractOrder transcribeOrder audioPath =
        (case transcribeInChunks env extractOrder transcribeOrder audioPath of
           None \<Rightarrow> None
         | Some (Inl e) \<Rightarrow> Some (Inl (Error (''Failed to transcribe audio: '' @ message e)))
         | Some (Inr t) \<Rightarrow> Some (Inr t)))
   \<and> (speechClient env \<and> statSync env audioPath = Inr fileSize
        \<and> rat_of_nat fileSize / (1024 * 1024) \<le> 10
        \<and> readFileSync env audioPath = Inr audioBytes
        \<and> recognize env audioBytes = Inr results \<longrightarrow>
      transcribe env extractOrder transcribeOrder audioPath =
        Some (Inr (case results of None \<Rightarrow> '''' | Some rs \<Rightarrow> joinTranscripts rs)))
   \<and> (speechClient env \<and> statSync env audioPath = Inr fileSize
        \<and> (10 < rat_of_nat fileSize / (1024 * 1024)
            \<or> readFileSync env audioPath = Inr audioBytes \<and> recognize env audioBytes = Inl c)
        \<and> ffprobe env audioPath = Inr d
        \<and> (\<forall>i < nat \<lceil>d / 30\<rceil>.
              runFfmpeg env (chunkCommand audioPath (i * chunkDuration)
                (chunkPath env (dirname env audioPath) i)) = Inr ())
        \<and> (\<forall>i < nat \<lceil>d / 30\<rceil>. i \<in> set extractOrder)
        \<and> (\<forall>i < nat \<lceil>d / 30\<rceil>. i \<in> set transcribeOrder) \<longrightarrow>
      transcribe env extractOrder transcribeOrder audioPath =
        Some (Inr (join '' '' (filter (\<lambda>t. t \<noteq> [])
          (map (transcribeChunk env) (map (chunkPath env (dirname env audioPath))
             [0..<nat \<lceil>d / 30\<rceil>]))))))
   \<and> (readFileSync env target = Inl x
        \<or> readFileSync env target = Inr b
            \<and> (recognize env b = Inl x \<or> unlinkSync env target = Inl x) \<longrightarrow>
      transcribeChunk env target = '''')
   \<and> (transcribe env extractOrder transcribeOrder audioPath = Some (Inl e) \<longrightarrow>
      speechClient env
      \<and> (\<exists>cause. e = Error (''Failed to transcribe audio: '' @ message cause)
            \<and> (statSync env audioPath = Inl cause \<or> readFileSync env audioPath = Inl cause
                \<or> ffprobe env audioPath = Inl cause \<or> (\<exists>cmd. runFfmpeg env cmd = Inl cause))))
   \<and> (speechClient env \<and> statSync env audioPath = Inl c \<longrightarrow>
      transcribe env extractOrder transcribeOrder audioPath =
        Some (Inl (Error (''Failed to transcribe audio: '' @ message c))))
   \<and> (speechClient env \<and> statSync env audioPath = Inr fileSize
        \<and> rat_of_nat fileSize / (1024 * 1024) \<le> 10
        \<and> readFileSync env audioPath = Inl c \<longrightarrow>
      transcribe env extractOrder transcribeOrder audioPath =
        Some (Inl (Error (''Failed to transcribe audio: '' @ message c))))
   \<and> (speechClient env \<and> statSync env audioPath = Inr fileSize
        \<and> (10 < rat_of_nat fileSize / (1024 * 1024)
            \<or> readFileSync env audioPath = Inr audioBytes \<and> recognize env audioBytes = Inl c)
        \<and> ffprobe env audioPath = Inl x \<longrightarrow>
      transcribe env extractOrder transcribeOrder audioPath =
        Some (Inl (Error (''Failed to transcribe audio: '' @ message x))))
   \<and> (speechClient env \<and> statSync env audioPath = Inr fileSize
        \<and> (10 < rat_of_nat fileSize / (1024 * 1024)
            \<or> readFileSync env audioPath = Inr audioBytes \<and> recognize env audioBytes = Inl c)
        \<and> ffprobe env audioPath = Inr d
        \<and> k < nat \<lceil>d / 30\<rceil> \<and> k \<in> set extractOrder
        \<and> runFfmpeg env (chunkCommand audioPath (k * chunkDuration)
              (chunkPath env (dirname env audioPath) k)) = Inl x \<longrightarrow>
      (\<exists>cause. transcribe env extractOrder transcribeOrder audioPath =
                  Some (Inl (Error (''Failed to transcribe audio: '' @ message cause)))
          \<and> (\<exists>j < nat \<lceil>d / 30\<rceil>.
                runFfmpeg env (chunkCommand audioPath (j * chunkDuration)
                  (chunkPath env (dirname env audioPath) j)) = Inl cause)))
   \<and> snd (transcriptionTrack w (Some audioPath) (Some (Inl e)) beforeDeadline) = ''''"
proof -
  have noClient: "transcribe env extractOrder transcribeOrder audioPath = Some (Inr '''')"
    if "\<not> speechClient env"
    using that by (simp add: transcribe_wraps)
  have chunked: "transcribe env extractOrder transcribeOrder audioPath =
        (case transcribeInChunks env extractOrder transcribeOrder audioPath of
           None \<Rightarrow> None
         | Some (Inl e) \<Rightarrow> Some (Inl (Error (''Failed to transcribe audio: '' @ message e)))
         | Some (Inr t) \<Rightarrow> Some (Inr t))"
    if h: "speechClient env \<and> statSync env audioPath = Inr fileSize
        \<and> (10 < rat_of_nat fileSize / (1024 * 1024)
            \<or> readFileSync env audioPath = Inr audioBytes \<and> recognize env audioBytes = Inl c)"
    for c
  proof -
    from h have 1: "speechClient env" and 2: "statSync env audioPath = Inr fileSize"
      and 3: "10 < rat_of_nat fileSize / (1024 * 1024)
            \<or> readFileSync env audioPath = Inr audioBytes \<and> recognize env audioBytes = Inl c"
      by (rule conjunct1, rule conjunct2 [THEN conjunct1], rule conjunct2 [THEN conjunct2])
    from 1 2 3 show ?thesis by (rule transcribe_chunked)
  qed
  have syncReturns: "transcribe env extractOrder transcribeOrder audioPath =
        Some (Inr (case results of None \<Rightarrow> '''' | Some rs \<Rightarrow> joinTranscripts rs))"
    if "speechClient env \<and> statSync env audioPath = Inr fileSize
        \<and> rat_of_nat fileSize / (1024 * 1024) \<le> 10
        \<and> readFileSync env audioPath = Inr audioBytes
        \<and> recognize env audioBytes = Inr results"
    using that
    by (cases results)
       (auto simp add: transcribe_wraps transcribeWithGoogleSpeech_def joinTranscripts_Nil)
  have chunkedReturns: "transcribe env extractOrder transcribeOrder audioPath =
        Some (Inr (join '' '' (filter (\<lambda>t. t \<noteq> [])
          (map (transcribeChunk env) (map (chunkPath env (dirname env audioPath))
             [0..<nat \<lceil>d / 30\<rceil>])))))"
    if h: "speechClient env \<and> statSync env audioPath = Inr fileSize
        \<and> (10 < rat_of_nat fileSize / (1024 * 1024)
            \<or> readFileSync env audioPath = Inr audioBytes \<and> recognize env audioBytes = Inl c)
        \<and> ffprobe env audioPath = Inr d
        \<and> (\<forall>i < nat \<lceil>d / 30\<rceil>.
              runFfmpeg env (chunkCommand audioPath (i * chunkDuration)
                (chunkPath env (dirname env audioPath) i)) = Inr ())
        \<and> (\<forall>i < nat \<lceil>d / 30\<rceil>. i \<in> set extractOrder)
        \<and> (\<forall>i < nat \<lceil>d / 30\<rceil>. i \<in> set transcribeOrder)"
  proof -
    from h have entered: "speechClient env \<and> statSync env audioPath = Inr fileSize
        \<and> (10 < rat_of_nat fileSize / (1024 * 1024)
            \<or> readFileSync env audioPath = Inr audioBytes \<and> recognize env audioBytes = Inl c)"
      by blast
    from h have "transcribeInChunks env extractOrder transcribeOrder audioPath =
        Some (Inr (join '' '' (filter (\<lambda>t. t \<noteq> [])
          (map (transcribeChunk env) (map (chunkPath env (dirname env audioPath))
             [0..<nat \<lceil>d / 30\<rceil>])))))"
      using transcribeInChunks_fulfilled [of env audioPath d extractOrder transcribeOrder]
      by blast
    with chunked [OF entered] show ?thesis
      by (simp only: option.case sum.case)
  qed
  have chunkFails: "transcribeChunk env target = ''''"
    if "readFileSync env target = Inl x
        \<or> readFileSync env target = Inr b
            \<and> (recognize env b = Inl x \<or> unlinkSync env target = Inl x)"
    using that by (auto simp add: transcribeChunk_def split: sum.splits)
  have wrapped: "speechClient env
      \<and> (\<exists>cause. e = Error (''Failed to transcribe audio: '' @ message cause)
            \<and> (statSync env audioPath = Inl cause \<or> readFileSync env audioPath = Inl cause
                \<or> ffprobe env audioPath = Inl cause \<or> (\<exists>cmd. runFfmpeg env cmd = Inl cause)))"
    if h: "transcribe env extractOrder transcribeOrder audioPath = Some (Inl e)"
  proof -
    from h have client: "speechClient env"
      by (auto simp: transcribe_wraps split: if_splits)
    with h obtain cause where
      cause: "transcribeWithGoogleSpeech env extractOrder transcribeOrder audioPath = Some (Inl cause)"
      and e: "e = Error (''Failed to transcribe audio: '' @ message cause)"
      by (auto simp: transcribe_wraps split: option.splits sum.splits)
    from transcribeWithGoogleSpeech_error [OF cause client] e client show ?thesis
      by blast
  qed
  have statFails: "transcribe env extractOrder transcribeOrder audioPath =
        Some (Inl (Error (''Failed to transcribe audio: '' @ message c)))"
    if "speechClient env \<and> statSync env audioPath = Inl c" for c
    using that by (simp add: transcribe_wraps transcribeWithGoogleSpeech_def)
  have readFails: "transcribe env extractOrder transcribeOrder audioPath =
        Some (Inl (Error (''Failed to transcribe audio: '' @ message c)))"
    if "speechClient env \<and> statSync env audioPath = Inr fileSize
        \<and> rat_of_nat fileSize / (1024 * 1024) \<le> 10
        \<and> readFileSync env audioPath = Inl c" for c
    using that by (simp add: transcribe_wraps transcribeWithGoogleSpeech_def)
  have probeFails: "transcribe env extractOrder transcribeOrder audioPath =
        Some (Inl (Error (''Failed to transcribe audio: '' @ message x)))"
    if h: "speechClient env \<and> statSync env audioPath = Inr fileSize
        \<and> (10 < rat_of_nat fileSize / (1024 * 1024)
            \<or> readFileSync env audioPath = Inr audioBytes \<and> recognize env audioBytes = Inl c)
        \<and> ffprobe env audioPath = Inl x"
  proof -
    from h have entered: "speechClient env \<and> statSync env audioPath = Inr fileSize
        \<and> (10 < rat_of_nat fileSize / (1024 * 1024)
            \<or> readFileSync env audioPath = Inr audioBytes \<and> recognize env audioBytes = Inl c)"
      by blast
    from h have "transcribeInChunks env extractOrder transcribeOrder audioPath = Some (Inl x)"
      by (simp add: transcribeInChunks_def)
    with chunked [OF entered] show ?thesis
      by (simp only: option.case sum.case)
  qed
  have extractionFails: "\<exists>cause. transcribe env extractOrder transcribeOrder audioPath =
                  Some (Inl (Error (''Failed to transcribe audio: '' @ message cause)))
          \<and> (\<exists>j < nat \<lceil>d / 30\<rceil>.
                runFfmpeg env (chunkCommand audioPath (j * chunkDuration)
                  (chunkPath env (dirname env audioPath) j)) = Inl cause)"
    if h: "speechClient env \<and> statSync env audioPath = Inr fileSize
        \<and> (10 < rat_of_nat fileSize / (1024 * 1024)
            \<or> readFileSync env audioPath = Inr audioBytes \<and> recognize env audioBytes = Inl c)
        \<and> ffprobe env audioPath = Inr d
        \<and> k < nat \<lceil>d / 30\<rceil> \<and> k \<in> set extractOrder
        \<and> runFfmpeg env (chunkCommand audioPath (k * chunkDuration)
              (chunkPath env (dirname env audioPath) k)) = Inl x"
  proof -
    from h have entered: "speechClient env \<and> statSync env audioPath = Inr fileSize
        \<and> (10 < rat_of_nat fileSize / (1024 * 1024)
            \<or> readFileSync env audioPath = Inr audioBytes \<and> recognize env audioBytes = Inl c)"
      by blast
    from h have client: "speechClient env" and probe: "ffprobe env audioPath = Inr d"
      and k: "k < nat \<lceil>d / 30\<rceil>" "k \<in> set extractOrder"
      and fails: "runFfmpeg env (chunkCommand audioPath (k * chunkDuration)
              (chunkPath env (dirname env audioPath) k)) = Inl x"
      by blast+
    from transcribeInChunks_extraction_fails [OF client probe k fails, of transcribeOrder]
    obtain cause where
      cause: "transcribeInChunks env extractOrder transcribeOrder audioPath = Some (Inl cause)"
      and j: "\<exists>j < nat \<lceil>d / 30\<rceil>.
                runFfmpeg env (chunkCommand audioPath (j * chunkDuration)
                  (chunkPath env (dirname env audioPath) j)) = Inl cause"
      by blast
    from chunked [OF entered] cause
    have "transcribe env extractOrder transcribeOrder audioPath =
                  Some (Inl (Error (''Failed to transcribe audio: '' @ message cause)))"
      by (simp only: option.case sum.case)
    with j show ?thesis by blast
  qed
  have absorbed: "snd (transcriptionTrack w (Some audioPath) (Some (Inl e)) beforeDeadline) = ''''"
    by (simp add: transcriptionTrack_def Let_def)
  show ?thesis
    apply (intro conjI)
              apply (rule impI, erule noClient)
             apply (rule impI, erule chunked)
            apply (rule impI, erule syncReturns)
           apply (rule impI, erule chunkedReturns)
          apply (rule impI, erule chunkFails)
         apply (rule impI, erule wrapped)
        apply (rule impI, erule statFails)
       apply (rule impI, erule readFails)
      apply (rule impI, erule probeFails)
     apply (rule impI, erule extractionFails)
    apply (rule absorbed)
    done
qed

text \<open>
  Runs of \<open>transcribe\<close> on the audio file \<^verbatim>\<open>temp/audio-1.wav\<close>: no speech client; the file
  is gone; the file cannot be read; the probe of a 20 MB file fails; the extraction of
  the second chunk of a 20 MB file fails; and a 2 MB file of 60 seconds whose synchronous
  recognition fails, as does the recognition of its second chunk.
\<close>

theorem transcribe_failure_modes_witness:
  "transcribe
     \<lparr> speechClient = False, statSync = (\<lambda>p. Inr 1920044), readFileSync = (\<lambda>p. Inr p),
       recognize = (\<lambda>audioBytes. Inr None), ffprobe = (\<lambda>p. Inr 60), runFfmpeg = (\<lambda>c. Inr ()),
       unlinkSync = (\<lambda>p. Inr ()), dirname = (\<lambda>p. ''temp''),
       path_join = (\<lambda>dir name. dir @ ''/'' @ name), now = (\<lambda>i. 1000 + i) \<rparr>
     [] [] ''temp/audio-1.wav'' = Some (Inr '''')
   \<and> transcribe
     \<lparr> speechClient = True, statSync = (\<lambda>p. Inl (Error ''ENOENT'')), readFileSync = (\<lambda>p. Inr p),
       recognize = (\<lambda>audioBytes. Inr None), ffprobe = (\<lambda>p. Inr 60), runFfmpeg = (\<lambda>c. Inr ()),
       unlinkSync = (\<lambda>p. Inr ()), dirname = (\<lambda>p. ''temp''),
       path_join = (\<lambda>dir name. dir @ ''/'' @ name), now = (\<lambda>i. 1000 + i) \<rparr>
     [] [] ''temp/audio-1.wav'' = Some (Inl (Error ''Failed to transcribe audio: ENOENT''))
   \<and> transcribe
     \<lparr> speechClient = True, statSync = (\<lambda>p. Inr 1920044),
       readFileSync = (\<lambda>p. Inl (Error ''EACCES'')),
       recognize = (\<lambda>audioBytes. Inr None), ffprobe = (\<lambda>p. Inr 60), runFfmpeg = (\<lambda>c. Inr ()),
       unlinkSync = (\<lambda>p. Inr ()), dirname = (\<lambda>p. ''temp''),
       path_join = (\<lambda>dir name. dir @ ''/'' @ name), now = (\<lambda>i. 1000 + i) \<rparr>
     [] [] ''temp/audio-1.wav'' = Some (Inl (Error ''Failed to transcribe audio: EACCES''))
   \<and> transcribe
     \<lparr> speechClient = True, statSync = (\<lambda>p. Inr 20000000), readFileSync = (\<lambda>p. Inr p),
       recognize = (\<lambda>audioBytes. Inr None),
       ffprobe = (\<lambda>p. Inl (Error ''ffprobe exited with code 1'')),
       runFfmpeg = (\<lambda>c. Inr ()), unlinkSync = (\<lambda>p. Inr ()), dirname = (\<lambda>p. ''temp''),
       path_join = (\<lambda>dir name. dir @ ''/'' @ name), now = (\<lambda>i. 1000 + i) \<rparr>
     [] [] ''temp/audio-1.wav''
       = Some (Inl (Error ''Failed to transcribe audio: ffprobe exited with code 1''))
   \<and> transcribe
     \<lparr> speechClient = True, statSync = (\<lambda>p. Inr 20000000), readFileSync = (\<lambda>p. Inr p),
       recognize = (\<lambda>audioBytes. Inr None), ffprobe = (\<lambda>p. Inr 60),
       runFfmpeg = (\<lambda>c. if cmd_seekInput c = Some 30
                          then Inl (Error ''ffmpeg exited with code 1'') else Inr ()),
       unlinkSync = (\<lambda>p. Inr ()), dirname = (\<lambda>p. ''temp''),
       path_join = (\<lambda>dir name. dir @ ''/'' @ name), now = (\<lambda>i. 1000 + i) \<rparr>
     [1, 0] [] ''temp/audio-1.wav''
       = Some (Inl (Error ''Failed to transcribe audio: ffmpeg exited with code 1''))
   \<and> transcribe
     \<lparr> speechClient = True, statSync = (\<lambda>p. Inr 1920044), readFileSync = (\<lambda>p. Inr p),
       recognize = (\<lambda>audioBytes.
          if audioBytes = ''temp/audio-1.wav'' \<or> audioBytes = ''temp/chunk-1-1001.wav''
          then Inl (Error ''14 UNAVAILABLE'')
          else Inr (Some [Some (''heard '' @ audioBytes)])),
       ffprobe = (\<lambda>p. Inr 60), runFfmpeg = (\<lambda>c. Inr ()),
       unlinkSync = (\<lambda>p. Inr ()), dirname = (\<lambda>p. ''temp''),
       path_join = (\<lambda>dir name. dir @ ''/'' @ name), now = (\<lambda>i. 1000 + i) \<rparr>
     [1, 0] [0, 1] ''temp/audio-1.wav''
       = Some (Inr ''heard temp/chunk-0-1000.wav'')
   \<and> snd (transcriptionTrack \<lparr> files = [''temp/audio-1.wav''], cleanupCalls = [] \<rparr>
          (Some ''temp/audio-1.wav'') (Some (Inl (Error ''Failed to transcribe audio: ENOENT''))) True)
       = ''''"
proof -
  let ?a = "''temp/audio-1.wav''"
  let ?off = "\<lparr> speechClient = False, statSync = (\<lambda>p. Inr 1920044), readFileSync = (\<lambda>p. Inr p),
       recognize = (\<lambda>audioBytes. Inr None), ffprobe = (\<lambda>p. Inr 60), runFfmpeg = (\<lambda>c. Inr ()),
       unlinkSync = (\<lambda>p. Inr ()), dirname = (\<lambda>p. ''temp''),
       path_join = (\<lambda>dir name. dir @ ''/'' @ name), now = (\<lambda>i. 1000 + i) \<rparr>"
  let ?gone = "\<lparr> speechClient = True, statSync = (\<lambda>p. Inl (Error ''ENOENT'')), readFileSync = (\<lambda>p. Inr p),
       recognize = (\<lambda>audioBytes. Inr None), ffprobe = (\<lambda>p. Inr 60), runFfmpeg = (\<lambda>c. Inr ()),
       unlinkSync = (\<lambda>p. Inr ()), dirname = (\<lambda>p. ''temp''),
       path_join = (\<lambda>dir name. dir @ ''/'' @ name), now = (\<lambda>i. 1000 + i) \<rparr>"
  let ?locked = "\<lparr> speechClient = True, statSync = (\<lambda>p. Inr 1920044),
       readFileSync = (\<lambda>p. Inl (Error ''EACCES'')),
       recognize = (\<lambda>audioBytes. Inr None), ffprobe = (\<lambda>p. Inr 60), runFfmpeg = (\<lambda>c. Inr ()),
       unlinkSync = (\<lambda>p. Inr ()), dirname = (\<lambda>p. ''temp''),
       path_join = (\<lambda>dir name. dir @ ''/'' @ name), now = (\<lambda>i. 1000 + i) \<rparr>"
  let ?big = "\<lparr> speechClient = True, statSync = (\<lambda>p. Inr 20000000), readFileSync = (\<lambda>p. Inr p),
       recognize = (\<lambda>audioBytes. Inr None),
       ffprobe = (\<lambda>p. Inl (Error ''ffprobe exited with code 1'')),
       runFfmpeg = (\<lambda>c. Inr ()), unlinkSync = (\<lambda>p. Inr ()), dirname = (\<lambda>p. ''temp''),
       path_join = (\<lambda>dir name. dir @ ''/'' @ name), now = (\<lambda>i. 1000 + i) \<rparr>"
  let ?torn = "\<lparr> speechClient = True, statSync = (\<lambda>p. Inr 20000000), readFileSync = (\<lambda>p. Inr p),
       recognize = (\<lambda>audioBytes. Inr None), ffprobe = (\<lambda>p. Inr 60),
       runFfmpeg = (\<lambda>c. if cmd_seekInput c = Some 30
                          then Inl (Error ''ffmpeg exited with code 1'') else Inr ()),
       unlinkSync = (\<lambda>p. Inr ()), dirname = (\<lambda>p. ''temp''),
       path_join = (\<lambda>dir name. dir @ ''/'' @ name), now = (\<lambda>i. 1000 + i) \<rparr>"
  let ?flaky = "\<lparr> speechClient = True, statSync = (\<lambda>p. Inr 1920044), readFileSync = (\<lambda>p. Inr p),
       recognize = (\<lambda>audioBytes.
          if audioBytes = ''temp/audio-1.wav'' \<or> audioBytes = ''temp/chunk-1-1001.wav''
          then Inl (Error ''14 UNAVAILABLE'')
          else Inr (Some [Some (''heard '' @ audioBytes)])),
       ffprobe = (\<lambda>p. Inr 60), runFfmpeg = (\<lambda>c. Inr ()),
       unlinkSync = (\<lambda>p. Inr ()), dirname = (\<lambda>p. ''temp''),
       path_join = (\<lambda>dir name. dir @ ''/'' @ name), now = (\<lambda>i. 1000 + i) \<rparr>"
  have off: "\<not> speechClient ?off"
    by simp
  have gone: "speechClient ?gone \<and> statSync ?gone ?a = Inl (Error ''ENOENT'')"
    by simp
  have locked: "speechClient ?locked \<and> statSync ?locked ?a = Inr 1920044
      \<and> rat_of_nat 1920044 / (1024 * 1024) \<le> 10
      \<and> readFileSync ?locked ?a = Inl (Error ''EACCES'')"
    by simp
  have big: "speechClient ?big \<and> statSync ?big ?a = Inr 20000000
      \<and> (10 < rat_of_nat 20000000 / (1024 * 1024)
          \<or> readFileSync ?big ?a = Inr ?a \<and> recognize ?big ?a = Inl (Error ''14 UNAVAILABLE''))
      \<and> ffprobe ?big ?a = Inl (Error ''ffprobe exited with code 1'')"
    by simp
  have two: "nat \<lceil>(60 :: rat) / 30\<rceil> = 2"
    by simp
  have torn: "speechClient ?torn \<and> statSync ?torn ?a = Inr 20000000
      \<and> (10 < rat_of_nat 20000000 / (1024 * 1024)
          \<or> readFileSync ?torn ?a = Inr ?a \<and> recognize ?torn ?a = Inl (Error ''14 UNAVAILABLE''))
      \<and> ffprobe ?torn ?a = Inr 60
      \<and> 1 < nat \<lceil>(60 :: rat) / 30\<rceil> \<and> 1 \<in> set [1, 0 :: nat]
      \<and> runFfmpeg ?torn (chunkCommand ?a (1 * chunkDuration)
            (chunkPath ?torn (dirname ?torn ?a) 1)) = Inl (Error ''ffmpeg exited with code 1'')"
    using chunkCommand_window [of ?a 1 "chunkPath ?torn (dirname ?torn ?a) 1"] by simp
  have cover: "i \<in> set [1, 0] \<and> i \<in> set [0, 1]" if "i < nat \<lceil>(60 :: rat) / 30\<rceil>" for i :: nat
  proof -
    from that have "i < 2" by simp
    then have "i = 0 \<or> i = 1" by linarith
    then show ?thesis by (elim disjE) simp_all
  qed
  have flaky: "speechClient ?flaky \<and> statSync ?flaky ?a = Inr 1920044
      \<and> (10 < rat_of_nat 1920044 / (1024 * 1024)
          \<or> readFileSync ?flaky ?a = Inr ?a \<and> recognize ?flaky ?a = Inl (Error ''14 UNAVAILABLE''))
      \<and> ffprobe ?flaky ?a = Inr 60
      \<and> (\<forall>i < nat \<lceil>(60 :: rat) / 30\<rceil>.
            runFfmpeg ?flaky (chunkCommand ?a (i * chunkDuration)
              (chunkPath ?flaky (dirname ?flaky ?a) i)) = Inr ())
      \<and> (\<forall>i < nat \<lceil>(60 :: rat) / 30\<rceil>. i \<in> set [1, 0])
      \<and> (\<forall>i < nat \<lceil>(60 :: rat) / 30\<rceil>. i \<in> set [0, 1])"
    using cover by simp
  have ts: "toString 0 = ''0''" "toString 1 = ''1''"
      "toString 1000 = ''1000''" "toString 1001 = ''1001''"
    by code_simp+
  have idx: "[0..<nat \<lceil>(60 :: rat) / 30\<rceil>] = [0, 1]"
    by (simp add: upt_rec)
  have paths: "map (chunkPath ?flaky (dirname ?flaky ?a)) [0, 1]
       = [''temp/chunk-0-1000.wav'', ''temp/chunk-1-1001.wav'']"
    by (simp add: chunkPath_def ts)
  have texts: "map (transcribeChunk ?flaky) [''temp/chunk-0-1000.wav'', ''temp/chunk-1-1001.wav'']
       = [''heard temp/chunk-0-1000.wav'', []]"
    by (simp add: transcribeChunk_def joinTranscripts_def)
  have v: "join '' '' (filter (\<lambda>t. t \<noteq> [])
             (map (transcribeChunk ?flaky) (map (chunkPath ?flaky (dirname ?flaky ?a))
                [0..<nat \<lceil>(60 :: rat) / 30\<rceil>])))
         = ''heard temp/chunk-0-1000.wav''"
    by (simp only: idx paths texts) simp
  note r1 = transcribe_failure_modes [where env = ?off and extractOrder = "[]" and transcribeOrder = "[]"
      and audioPath = ?a, THEN conjunct1, rule_format, OF off]
  note r2 = transcribe_failure_modes [where env = ?gone and extractOrder = "[]" and transcribeOrder = "[]"
      and audioPath = ?a and c = "Error ''ENOENT''",
      THEN conjunct2, THEN conjunct2, THEN conjunct2, THEN conjunct2, THEN conjunct2, THEN conjunct2,
      THEN conjunct1, rule_format, OF gone]
  note r3 = transcribe_failure_modes [where env = ?locked and extractOrder = "[]" and transcribeOrder = "[]"
      and audioPath = ?a and c = "Error ''EACCES''" and fileSize = 1920044,
      THEN conjunct2, THEN conjunct2, THEN conjunct2, THEN conjunct2, THEN conjunct2, THEN conjunct2,
      THEN conjunct2, THEN conjunct1, rule_format, OF locked]
  note r4 = transcribe_failure_modes [where env = ?big and extractOrder = "[]" and transcribeOrder = "[]"
      and audioPath = ?a and x = "Error ''ffprobe exited with code 1''" and fileSize = 20000000
      and audioBytes = ?a and c = "Error ''14 UNAVAILABLE''",
      THEN conjunct2, THEN conjunct2, THEN conjunct2, THEN conjunct2, THEN conjunct2, THEN conjunct2,
      THEN conjunct2, THEN conjunct2, THEN conjunct1, rule_format, OF big]
  note r5 = transcribe_failure_modes [where env = ?torn and extractOrder = "[1, 0]" and transcribeOrder = "[]"
      and audioPath = ?a and x = "Error ''ffmpeg exited with code 1''" and fileSize = 20000000
      and audioBytes = ?a and c = "Error ''14 UNAVAILABLE''" and d = 60 and k = 1,
      THEN conjunct2, THEN conjunct2, THEN conjunct2, THEN conjunct2, THEN conjunct2, THEN conjunct2,
      THEN conjunct2, THEN conjunct2, THEN conjunct2, THEN conjunct1, rule_format, OF torn]
  note r6 = transcribe_failure_modes [where env = ?flaky and extractOrder = "[1, 0]"
      and transcribeOrder = "[0, 1]" and audioPath = ?a and fileSize = 1920044
      and audioBytes = ?a and c = "Error ''14 UNAVAILABLE''" and d = 60,
      THEN conjunct2, THEN conjunct2, THEN conjunct2, THEN conjunct1, rule_format, OF flaky]
  note r7 = transcribe_failure_modes [where w = "\<lparr> files = [''temp/audio-1.wav''], cleanupCalls = [] \<rparr>"
      and audioPath = ?a and e = "Error ''Failed to transcribe audio: ENOENT''"
      and beforeDeadline = True,
      THEN conjunct2, THEN conjunct2, THEN conjunct2, THEN conjunct2, THEN conjunct2, THEN conjunct2,
      THEN conjunct2, THEN conjunct2, THEN conjunct2, THEN conjunct2]
  from r5 obtain cause j where
    t5: "transcribe ?torn [1, 0] [] ?a
           = Some (Inl (Error (''Failed to transcribe audio: '' @ message cause)))"
    and c5: "runFfmpeg ?torn (chunkCommand ?a (j * chunkDuration)
               (chunkPath ?torn (dirname ?torn ?a) j)) = Inl cause"
    by blast
  from c5 have "cause = Error ''ffmpeg exited with code 1''"
    by (simp split: if_splits)
  with t5 have s5: "transcribe ?torn [1, 0] [] ?a
           = Some (Inl (Error ''Failed to transcribe audio: ffmpeg exited with code 1''))"
    by simp
  from r6 v have s6: "transcribe ?flaky [1, 0] [0, 1] ?a = Some (Inr ''heard temp/chunk-0-1000.wav'')"
    by (simp only:)
  from r1 r2 r3 r4 s5 s6 r7 show ?thesis
    by (intro conjI) simp_all
qed
section \<open>Properties of the temp files\<close>

lemma frames_loop_all_fail:
  assumes "\<forall>t. \<exists>e. extractFrameAtTime env videoPath t = Inl e"
  shows "frames_loop env videoPath timestamps = []"
proof (induction timestamps)
  case Nil
  then show ?case by simp
next
  case (Cons t timestamps)
  from assms obtain e where "extractFrameAtTime env videoPath t = Inl e" by blast
  with Cons.IH show ?case by simp
qed

lemma cleanupFile_removes: "filePath \<notin> set (files (cleanupFile w filePath))"
  by (simp add: cleanupFile_def)

lemma transcriptionTrack_releases:
  assumes "truthy audio"
  shows "or_empty audio \<notin> set (files (fst (transcriptionTrack w audio transcribed beforeDeadline)))"
  using assms
  by (auto simp: transcriptionTrack_def Let_def cleanupAudio_def cleanupFile_def
        split: option.splits sum.splits)

lemma transcriptionTrack_release_calls:
  assumes "truthy audio"
  shows "count_list (cleanupCalls (fst (transcriptionTrack w audio transcribed beforeDeadline)))
           (or_empty audio)
         = count_list (cleanupCalls w) (or_empty audio)
           + (if (\<exists>t. transcribed = Some (Inr t)) \<and> \<not> beforeDeadline then 2 else 1)"
  using assms
  by (auto simp: transcriptionTrack_def Let_def cleanupAudio_def cleanupFile_def
        split: option.splits sum.splits)

text \<open>
  Claim C4 says that the extracted audio file is released on every path, in particular
  when audio extraction succeeds, no frame is extracted and the ingestor throws. The URL
  below is a video URL for the route and selects the direct download. On that path \<^verbatim>\<open>extractFrames\<close> has written the audio file, removes only the video file and
  throws; the route never learns the audio path, so the file stays on disk, whatever the
  transcription would have done.
\<close>

theorem videoBranch_leaks_audio_without_frames:
  "isVideoUrl ''https://example.org/clip.mp4''
   \<and> selectStrategy ''https://example.org/clip.mp4'' = DirectDownload
   \<and> videoBranch
     \<lparr> downloadVideo = (\<lambda>url. Inr ''temp/video-frames/video-1.mp4''),
       getVideoDuration = (\<lambda>videoPath. Inr 30),
       extractFrameAtTime = (\<lambda>videoPath t. Inl (Error ''ffmpeg exited with code 1'')),
       extractAudio = (\<lambda>videoPath. Inr ''temp/video-frames/audio-2.wav'') \<rparr>
     \<lparr> files = [], cleanupCalls = [] \<rparr>
     ''https://example.org/clip.mp4'' transcribed beforeDeadline
   = \<lparr> files = [''temp/video-frames/audio-2.wav''],
       cleanupCalls = [''temp/video-frames/video-1.mp4''] \<rparr>"
proof -
  let ?env = "\<lparr> downloadVideo = (\<lambda>url. Inr ''temp/video-frames/video-1.mp4''),
       getVideoDuration = (\<lambda>videoPath. Inr 30),
       extractFrameAtTime = (\<lambda>videoPath t. Inl (Error ''ffmpeg exited with code 1'')),
       extractAudio = (\<lambda>videoPath. Inr ''temp/video-frames/audio-2.wav'') \<rparr>"
  have "\<forall>t. \<exists>e. extractFrameAtTime ?env ''temp/video-frames/video-1.mp4'' t = Inl e"
    by simp
  then have none: "frames_loop ?env ''temp/video-frames/video-1.mp4''
      (calculateSmartTimestamps 30 5) = []"
    by (rule frames_loop_all_fail)
  have "extractFrames_try ?env \<lparr> files = [], cleanupCalls = [] \<rparr> ''https://example.org/clip.mp4'' 5 True
      = (\<lparr> files = [''temp/video-frames/audio-2.wav''],
           cleanupCalls = [''temp/video-frames/video-1.mp4''] \<rparr>,
         Inl (Error ''No frames could be extracted from video''))"
    using none by (simp add: extractFrames_try_def Let_def createFile_def cleanupFile_def)
  then have leak: "videoBranch ?env \<lparr> files = [], cleanupCalls = [] \<rparr>
      ''https://example.org/clip.mp4'' transcribed beforeDeadline
    = \<lparr> files = [''temp/video-frames/audio-2.wav''],
        cleanupCalls = [''temp/video-frames/video-1.mp4''] \<rparr>"
    by (simp add: videoBranch_def extractFrames_def)
  have video: "isVideoUrl ''https://example.org/clip.mp4''"
    by code_simp
  have direct: "selectStrategy ''https://example.org/clip.mp4'' = DirectDownload"
    by code_simp
  from video direct leak show ?thesis
    by (simp only: simp_thms)
qed

text \<open>When \<^verbatim>\<open>extractFrames\<close> returns, the route does release the audio file it names, on
  every outcome of the transcription.\<close>

lemma videoBranch_releases_audio:
  assumes "extractFrames env w videoUrl 5 True = (w', Inr videoResult)"
    and "truthy (vr_audioPath videoResult)"
  shows "or_empty (vr_audioPath videoResult)
           \<notin> set (files (videoBranch env w videoUrl transcribed beforeDeadline))"
proof -
  have "videoBranch env w videoUrl transcribed beforeDeadline
      = fst (transcriptionTrack w' (vr_audioPath videoResult) transcribed beforeDeadline)"
    using assms(1) by (simp add: videoBranch_def)
  moreover have "or_empty (vr_audioPath videoResult)
      \<notin> set (files (fst (transcriptionTrack w' (vr_audioPath videoResult) transcribed beforeDeadline)))"
    using assms(2) by (rule transcriptionTrack_releases)
  ultimately show ?thesis
    by simp
qed

end
